theory Spec2Isabelle
  imports Complex_Main "HOL-Library.Multiset" "HOL-Library.Char_ord" "HOL-Library.List_Lexorder"
begin

section \<open>The case store of database.py\<close>

text \<open>
  The store is an SQLite file with ten tables. A table is the list of its rows in rowid
  order; a row is a record with one field per column of the CREATE TABLE statement in
  \<^verbatim>\<open>init_db\<close>. TEXT columns are strings (compared bytewise, which is the
  lexicographic order on character lists), INTEGER columns are integers, REAL columns
  are reals; a column that may hold NULL has an option type.

  Every connection runs \<^verbatim>\<open>PRAGMA foreign_keys = ON\<close>, so foreign keys are
  enforced and ON DELETE CASCADE is active.

  A function that raises returns \<open>Inl\<close> of the error. Every operation closes its
  connection without committing when a statement raises, so the transaction is rolled
  back and the store is the one the operation was called on.

  The value of \<^verbatim>\<open>datetime('now')\<close> is an argument \<open>now\<close> of each operation
  that stores a creation time.
\<close>

subsection \<open>Errors\<close>

datatype db_error =
    Unique_constraint
  | Check_constraint
  | Foreign_key_constraint
  | Operational_error
  | Overflow_error

subsection \<open>Rows and the store\<close>

record case_row =
  c_id :: int
  c_title :: string
  c_crime_type :: string
  c_date_occurred :: string
  c_address :: "string option"
  c_latitude :: "real option"
  c_longitude :: "real option"
  c_crime_scene_address :: "string option"
  c_crime_scene_lat :: "real option"
  c_crime_scene_lon :: "real option"
  c_body_found_address :: "string option"
  c_body_found_lat :: "real option"
  c_body_found_lon :: "real option"
  c_is_murder :: int
  c_victim_count :: "int option"
  c_mo_description :: "string option"
  c_victim_profile :: "string option"
  c_status :: string
  c_created_at :: string

record case_crime_type_row =
  cct_id :: int
  cct_case_id :: int
  cct_crime_type :: string
  cct_sort_order :: int

record case_tag_row =
  ct_id :: int
  ct_case_id :: int
  ct_tag :: string

record suspect_row =
  su_id :: int
  su_name :: string
  su_description :: "string option"
  su_known_aliases :: "string option"
  su_created_at :: string

record history_row =
  h_id :: int
  h_suspect_id :: int
  h_crime_type :: string
  h_date_of_crime :: "string option"
  h_conviction_status :: string
  h_notes :: "string option"
  h_created_at :: string

record suspect_case_link_row =
  scl_id :: int
  scl_suspect_id :: int
  scl_case_id :: int
  scl_connection_type :: string
  scl_notes :: "string option"
  scl_created_at :: string

record case_link_row =
  cl_id :: int
  cl_case_id_1 :: int
  cl_case_id_2 :: int
  cl_similarity_note :: string
  cl_created_at :: string

record timeline_event_row =
  ev_id :: int
  ev_case_id :: int
  ev_event_timestamp :: string
  ev_title :: string
  ev_description :: "string option"
  ev_created_at :: string

record project_row =
  pr_id :: int
  pr_name :: string
  pr_description :: "string option"
  pr_created_at :: string

record project_case_row =
  pc_id :: int
  pc_project_id :: int
  pc_case_id :: int
  pc_added_at :: string

text \<open>
  The schema is part of the state: \<open>tables\<close> names the tables that exist and
  \<open>cases_columns\<close> the columns of \<^verbatim>\<open>cases\<close>, the one table whose columns
  \<^verbatim>\<open>migrate_db\<close> changes. Only \<^verbatim>\<open>init_db\<close> and \<^verbatim>\<open>migrate_db\<close>
  read or change the schema. The data operations are modelled on the schema that
  \<^verbatim>\<open>init_db\<close> creates, which the application establishes before any of them runs.
\<close>

record store =
  tables :: "string list"
  cases_columns :: "string list"
  cases :: "case_row list"
  case_crime_types :: "case_crime_type_row list"
  case_tags :: "case_tag_row list"
  suspects :: "suspect_row list"
  suspect_crime_history :: "history_row list"
  suspect_case_links :: "suspect_case_link_row list"
  case_links :: "case_link_row list"
  timeline_events :: "timeline_event_row list"
  projects :: "project_row list"
  project_cases :: "project_case_row list"

subsection \<open>What SQLite does\<close>

text \<open>
  An INTEGER PRIMARY KEY that the INSERT leaves out is one more than the largest rowid
  of the table, and 1 in an empty table.
\<close>

definition next_rowid :: "int list \<Rightarrow> int" where
  "next_rowid ids = (if ids = [] then 1 else Max (set ids) + 1)"

text \<open>
  A statement is prepared before its parameters are bound. Preparing raises
  OperationalError when the statement names a table that does not exist. Binding a
  Python int raises OverflowError unless it fits the signed 64-bit INTEGER of SQLite.
\<close>

definition sqlite_int :: "int \<Rightarrow> bool" where
  "sqlite_int i \<longleftrightarrow> - (2 ^ 63) \<le> i \<and> i < 2 ^ 63"

text \<open>Python's \<^verbatim>\<open>x or None\<close> on a string.\<close>

definition or_none :: "string \<Rightarrow> string option" where
  "or_none x = (if x = [] then None else Some x)"

text \<open>
  ORDER BY fixes the order of two rows only where the sort key tells them apart: a
  result is any arrangement of the selected rows that the key sorts. \<open>le a b\<close> says
  that \<open>a\<close> may stand before \<open>b\<close>.
\<close>

definition order_by :: "('r \<Rightarrow> 'r \<Rightarrow> bool) \<Rightarrow> 'r list \<Rightarrow> 'r list \<Rightarrow> bool" where
  "order_by le rows result \<longleftrightarrow> mset result = mset rows \<and> sorted_wrt le result"

definition asc :: "('r \<Rightarrow> 'k::linorder) \<Rightarrow> 'r \<Rightarrow> 'r \<Rightarrow> bool" where
  "asc key a b \<longleftrightarrow> key a \<le> key b"

definition desc :: "('r \<Rightarrow> 'k::linorder) \<Rightarrow> 'r \<Rightarrow> 'r \<Rightarrow> bool" where
  "desc key a b \<longleftrightarrow> key b \<le> key a"

text \<open>\<^verbatim>\<open>fetchone()\<close>: the first row of the result, or None.\<close>

definition fetchone :: "'r list \<Rightarrow> 'r option" where
  "fetchone rows = (case rows of [] \<Rightarrow> None | r # _ \<Rightarrow> Some r)"

definition case_ids :: "store \<Rightarrow> int set" where
  "case_ids s = c_id ` set (cases s)"

definition suspect_ids :: "store \<Rightarrow> int set" where
  "suspect_ids s = su_id ` set (suspects s)"

definition project_ids :: "store \<Rightarrow> int set" where
  "project_ids s = pr_id ` set (projects s)"

subsection \<open>Case links\<close>

text \<open>
  \<^verbatim>\<open>case_links\<close> has CHECK(case_id_1 < case_id_2) and two foreign keys, and no
  UNIQUE constraint. SQLite tests the CHECK when it builds the row and the foreign keys
  when the statement ends.
\<close>

definition link_cases :: "store \<Rightarrow> string \<Rightarrow> int \<Rightarrow> int \<Rightarrow> string \<Rightarrow> db_error + (int \<times> store)" where
  "link_cases s now id_a id_b similarity_note =
     (let case_id_1 = min id_a id_b; case_id_2 = max id_a id_b in
      if \<not> case_id_1 < case_id_2 then Inl Check_constraint
      else if case_id_1 \<notin> case_ids s \<or> case_id_2 \<notin> case_ids s then Inl Foreign_key_constraint
      else
        let new_id = next_rowid (map cl_id (case_links s)) in
        Inr (new_id,
             s\<lparr>case_links := case_links s @
                [\<lparr>cl_id = new_id, cl_case_id_1 = case_id_1, cl_case_id_2 = case_id_2,
                  cl_similarity_note = similarity_note, cl_created_at = now\<rparr>]\<rparr>))"

definition delete_case_link :: "store \<Rightarrow> int \<Rightarrow> db_error + store" where
  "delete_case_link s link_id =
     (if ''case_links'' \<notin> set (tables s) then Inl Operational_error
      else if \<not> sqlite_int link_id then Inl Overflow_error
      else Inr (s\<lparr>case_links := filter (\<lambda>r. cl_id r \<noteq> link_id) (case_links s)\<rparr>))"

subsection \<open>Cases\<close>

text \<open>
  \<^verbatim>\<open>add_case\<close> names neither the key nor the legacy location columns:
  the key is assigned, \<^verbatim>\<open>address\<close>, \<^verbatim>\<open>latitude\<close> and
  \<^verbatim>\<open>longitude\<close> are NULL. No constraint of \<^verbatim>\<open>cases\<close> can fail
  on the values it passes. It returns \<^verbatim>\<open>lastrowid\<close>.
\<close>

definition add_case ::
  "store \<Rightarrow> string \<Rightarrow> string \<Rightarrow> string \<Rightarrow> string \<Rightarrow> string \<Rightarrow> string \<Rightarrow> bool \<Rightarrow> int option \<Rightarrow>
   string \<Rightarrow> real option \<Rightarrow> real option \<Rightarrow> string \<Rightarrow> real option \<Rightarrow> real option \<Rightarrow> int \<times> store" where
  "add_case s now title date_occurred status mo_description victim_profile is_murder victim_count
     crime_scene_address crime_scene_lat crime_scene_lon
     body_found_address body_found_lat body_found_lon =
     (let new_id = next_rowid (map c_id (cases s)) in
      (new_id,
       s\<lparr>cases := cases s @
          [\<lparr>c_id = new_id, c_title = title, c_crime_type = ''__migrated__'',
            c_date_occurred = date_occurred,
            c_address = None, c_latitude = None, c_longitude = None,
            c_crime_scene_address = or_none crime_scene_address,
            c_crime_scene_lat = crime_scene_lat, c_crime_scene_lon = crime_scene_lon,
            c_body_found_address = or_none body_found_address,
            c_body_found_lat = body_found_lat, c_body_found_lon = body_found_lon,
            c_is_murder = (if is_murder then 1 else 0), c_victim_count = victim_count,
            c_mo_description = or_none mo_description,
            c_victim_profile = or_none victim_profile,
            c_status = status, c_created_at = now\<rparr>]\<rparr>))"

definition get_case :: "store \<Rightarrow> int \<Rightarrow> case_row option" where
  "get_case s case_id = fetchone (filter (\<lambda>r. c_id r = case_id) (cases s))"


text \<open>
  \<^verbatim>\<open>update_case(case_id, **fields)\<close>: the keyword arguments are column
  assignments, one constructor per column of \<^verbatim>\<open>cases\<close>, each with a value of
  the column's type. An UPDATE that changes the key fails when the new key is taken
  (the primary key is unique) and when a row of another table references the old key
  (the foreign keys have no ON UPDATE action). The argument \<open>flds\<close> is the
  source's \<^verbatim>\<open>fields\<close>.
\<close>

datatype case_field =
    Case_id int
  | Case_title string
  | Case_crime_type string
  | Case_date_occurred string
  | Case_address "string option"
  | Case_latitude "real option"
  | Case_longitude "real option"
  | Case_crime_scene_address "string option"
  | Case_crime_scene_lat "real option"
  | Case_crime_scene_lon "real option"
  | Case_body_found_address "string option"
  | Case_body_found_lat "real option"
  | Case_body_found_lon "real option"
  | Case_is_murder int
  | Case_victim_count "int option"
  | Case_mo_description "string option"
  | Case_victim_profile "string option"
  | Case_status string
  | Case_created_at string

fun set_case_field :: "case_field \<Rightarrow> case_row \<Rightarrow> case_row" where
  "set_case_field (Case_id v) r = r\<lparr>c_id := v\<rparr>"
| "set_case_field (Case_title v) r = r\<lparr>c_title := v\<rparr>"
| "set_case_field (Case_crime_type v) r = r\<lparr>c_crime_type := v\<rparr>"
| "set_case_field (Case_date_occurred v) r = r\<lparr>c_date_occurred := v\<rparr>"
| "set_case_field (Case_address v) r = r\<lparr>c_address := v\<rparr>"
| "set_case_field (Case_latitude v) r = r\<lparr>c_latitude := v\<rparr>"
| "set_case_field (Case_longitude v) r = r\<lparr>c_longitude := v\<rparr>"
| "set_case_field (Case_crime_scene_address v) r = r\<lparr>c_crime_scene_address := v\<rparr>"
| "set_case_field (Case_crime_scene_lat v) r = r\<lparr>c_crime_scene_lat := v\<rparr>"
| "set_case_field (Case_crime_scene_lon v) r = r\<lparr>c_crime_scene_lon := v\<rparr>"
| "set_case_field (Case_body_found_address v) r = r\<lparr>c_body_found_address := v\<rparr>"
| "set_case_field (Case_body_found_lat v) r = r\<lparr>c_body_found_lat := v\<rparr>"
| "set_case_field (Case_body_found_lon v) r = r\<lparr>c_body_found_lon := v\<rparr>"
| "set_case_field (Case_is_murder v) r = r\<lparr>c_is_murder := v\<rparr>"
| "set_case_field (Case_victim_count v) r = r\<lparr>c_victim_count := v\<rparr>"
| "set_case_field (Case_mo_description v) r = r\<lparr>c_mo_description := v\<rparr>"
| "set_case_field (Case_victim_profile v) r = r\<lparr>c_victim_profile := v\<rparr>"
| "set_case_field (Case_status v) r = r\<lparr>c_status := v\<rparr>"
| "set_case_field (Case_created_at v) r = r\<lparr>c_created_at := v\<rparr>"

text \<open>A row of some table references the case.\<close>

definition case_referenced :: "store \<Rightarrow> int \<Rightarrow> bool" where
  "case_referenced s c \<longleftrightarrow>
     c \<in> cct_case_id ` set (case_crime_types s) \<or>
     c \<in> ct_case_id ` set (case_tags s) \<or>
     c \<in> scl_case_id ` set (suspect_case_links s) \<or>
     c \<in> cl_case_id_1 ` set (case_links s) \<or>
     c \<in> cl_case_id_2 ` set (case_links s) \<or>
     c \<in> ev_case_id ` set (timeline_events s) \<or>
     c \<in> pc_case_id ` set (project_cases s)"

definition update_case :: "store \<Rightarrow> int \<Rightarrow> case_field list \<Rightarrow> db_error + store" where
  "update_case s case_id flds =
     (if flds = [] then Inr s
      else if case_id \<notin> case_ids s then Inr s
      else
        let new_id = c_id (fold set_case_field flds \<lparr>c_id = case_id, c_title = [],
              c_crime_type = [], c_date_occurred = [], c_address = None, c_latitude = None,
              c_longitude = None, c_crime_scene_address = None, c_crime_scene_lat = None,
              c_crime_scene_lon = None, c_body_found_address = None, c_body_found_lat = None,
              c_body_found_lon = None, c_is_murder = 0, c_victim_count = None,
              c_mo_description = None, c_victim_profile = None, c_status = [],
              c_created_at = []\<rparr>) in
        if new_id \<noteq> case_id \<and> new_id \<in> case_ids s then Inl Unique_constraint
        else if new_id \<noteq> case_id \<and> case_referenced s case_id then Inl Foreign_key_constraint
        else Inr (s\<lparr>cases :=
               map (\<lambda>r. if c_id r = case_id then fold set_case_field flds r else r) (cases s)\<rparr>))"

text \<open>
  \<^verbatim>\<open>delete_case\<close>: the DELETE raises when \<^verbatim>\<open>cases\<close> does not exist and
  when the key cannot be bound. Otherwise it removes the rows of \<^verbatim>\<open>cases\<close> with
  the key, and ON DELETE CASCADE removes, from each of the six tables with a foreign key
  to \<^verbatim>\<open>cases\<close>, the rows that reference a row it removed.
\<close>

definition delete_case :: "store \<Rightarrow> int \<Rightarrow> db_error + store" where
  "delete_case s case_id =
     (if ''cases'' \<notin> set (tables s) then Inl Operational_error
      else if \<not> sqlite_int case_id then Inl Overflow_error
      else
        let gone = c_id ` set (filter (\<lambda>r. c_id r = case_id) (cases s)) in
        Inr (s\<lparr>cases := filter (\<lambda>r. c_id r \<noteq> case_id) (cases s),
          case_crime_types := filter (\<lambda>r. cct_case_id r \<notin> gone) (case_crime_types s),
          case_tags := filter (\<lambda>r. ct_case_id r \<notin> gone) (case_tags s),
          suspect_case_links := filter (\<lambda>r. scl_case_id r \<notin> gone) (suspect_case_links s),
          case_links :=
            filter (\<lambda>r. cl_case_id_1 r \<notin> gone \<and> cl_case_id_2 r \<notin> gone) (case_links s),
          timeline_events := filter (\<lambda>r. ev_case_id r \<notin> gone) (timeline_events s),
          project_cases := filter (\<lambda>r. pc_case_id r \<notin> gone) (project_cases s)\<rparr>))"

subsection \<open>Crime types and tags of a case\<close>

text \<open>
  INSERT OR IGNORE skips the row when UNIQUE(case_id, crime_type) would fail. It does
  not cover a foreign key: a row for a case that does not exist raises.
\<close>

definition insert_or_ignore_crime_type :: "store \<Rightarrow> int \<Rightarrow> string \<Rightarrow> int \<Rightarrow> db_error + store" where
  "insert_or_ignore_crime_type s case_id ct i =
     (if (case_id, ct) \<in> (\<lambda>r. (cct_case_id r, cct_crime_type r)) ` set (case_crime_types s)
      then Inr s
      else if case_id \<notin> case_ids s then Inl Foreign_key_constraint
      else Inr (s\<lparr>case_crime_types := case_crime_types s @
              [\<lparr>cct_id = next_rowid (map cct_id (case_crime_types s)), cct_case_id = case_id,
                cct_crime_type = ct, cct_sort_order = i\<rparr>]\<rparr>))"

fun insert_crime_types :: "store \<Rightarrow> int \<Rightarrow> (nat \<times> string) list \<Rightarrow> db_error + store" where
  "insert_crime_types s case_id [] = Inr s"
| "insert_crime_types s case_id ((i, ct) # rest) =
     (case insert_or_ignore_crime_type s case_id ct (int i) of
        Inl e \<Rightarrow> Inl e
      | Inr s' \<Rightarrow> insert_crime_types s' case_id rest)"

text \<open>
  \<^verbatim>\<open>set_case_crime_types\<close>: the DELETE raises when \<^verbatim>\<open>case_crime_types\<close>
  does not exist and when the case id cannot be bound; the first INSERT raises when
  \<^verbatim>\<open>cases\<close>, the parent table of the foreign key, does not exist.
\<close>

definition set_case_crime_types :: "store \<Rightarrow> int \<Rightarrow> string list \<Rightarrow> db_error + store" where
  "set_case_crime_types s case_id crime_types =
     (if ''case_crime_types'' \<notin> set (tables s) then Inl Operational_error
      else if \<not> sqlite_int case_id then Inl Overflow_error
      else if crime_types \<noteq> [] \<and> ''cases'' \<notin> set (tables s) then Inl Operational_error
      else
        insert_crime_types
          (s\<lparr>case_crime_types :=
               filter (\<lambda>r. cct_case_id r \<noteq> case_id) (case_crime_types s)\<rparr>)
          case_id (enumerate 0 crime_types))"

text \<open>
  The two queries on \<^verbatim>\<open>case_crime_types\<close>, ORDER BY sort_order ASC. The outcome
  is an error or the value the function returns, computed from the rows that
  \<^verbatim>\<open>fetchall()\<close> or \<^verbatim>\<open>fetchone()\<close> gives.
\<close>

definition get_case_crime_types :: "store \<Rightarrow> int \<Rightarrow> db_error + string list \<Rightarrow> bool" where
  "get_case_crime_types s case_id outcome \<longleftrightarrow>
     (if ''case_crime_types'' \<notin> set (tables s) then outcome = Inl Operational_error
      else if \<not> sqlite_int case_id then outcome = Inl Overflow_error
      else \<exists>rows. order_by (asc cct_sort_order)
               (filter (\<lambda>r. cct_case_id r = case_id) (case_crime_types s)) rows \<and>
             outcome = Inr (map cct_crime_type rows))"

definition get_primary_crime_type :: "store \<Rightarrow> int \<Rightarrow> db_error + string option \<Rightarrow> bool" where
  "get_primary_crime_type s case_id outcome \<longleftrightarrow>
     (if ''case_crime_types'' \<notin> set (tables s) then outcome = Inl Operational_error
      else if \<not> sqlite_int case_id then outcome = Inl Overflow_error
      else \<exists>rows. order_by (asc cct_sort_order)
               (filter (\<lambda>r. cct_case_id r = case_id) (case_crime_types s)) rows \<and>
             outcome = Inr (map_option cct_crime_type (fetchone rows)))"

definition insert_or_ignore_tag :: "store \<Rightarrow> int \<Rightarrow> string \<Rightarrow> db_error + store" where
  "insert_or_ignore_tag s case_id tag =
     (if (case_id, tag) \<in> (\<lambda>r. (ct_case_id r, ct_tag r)) ` set (case_tags s) then Inr s
      else if case_id \<notin> case_ids s then Inl Foreign_key_constraint
      else Inr (s\<lparr>case_tags := case_tags s @
              [\<lparr>ct_id = next_rowid (map ct_id (case_tags s)), ct_case_id = case_id,
                ct_tag = tag\<rparr>]\<rparr>))"

fun insert_tags :: "store \<Rightarrow> int \<Rightarrow> string list \<Rightarrow> db_error + store" where
  "insert_tags s case_id [] = Inr s"
| "insert_tags s case_id (tag # rest) =
     (case insert_or_ignore_tag s case_id tag of
        Inl e \<Rightarrow> Inl e
      | Inr s' \<Rightarrow> insert_tags s' case_id rest)"

definition set_case_tags :: "store \<Rightarrow> int \<Rightarrow> string list \<Rightarrow> db_error + store" where
  "set_case_tags s case_id tags =
     insert_tags (s\<lparr>case_tags := filter (\<lambda>r. ct_case_id r \<noteq> case_id) (case_tags s)\<rparr>)
       case_id tags"

subsection \<open>Suspects and their criminal history\<close>

text \<open>\<^verbatim>\<open>add_suspect\<close> passes its three arguments as they are.\<close>

definition add_suspect :: "store \<Rightarrow> string \<Rightarrow> string \<Rightarrow> string option \<Rightarrow> string option \<Rightarrow> int \<times> store" where
  "add_suspect s now name description known_aliases =
     (let new_id = next_rowid (map su_id (suspects s)) in
      (new_id,
       s\<lparr>suspects := suspects s @
          [\<lparr>su_id = new_id, su_name = name, su_description = description,
            su_known_aliases = known_aliases, su_created_at = now\<rparr>]\<rparr>))"

definition get_suspect :: "store \<Rightarrow> int \<Rightarrow> suspect_row option" where
  "get_suspect s suspect_id = fetchone (filter (\<lambda>r. su_id r = suspect_id) (suspects s))"

datatype suspect_field =
    Suspect_id int
  | Suspect_name string
  | Suspect_description "string option"
  | Suspect_known_aliases "string option"
  | Suspect_created_at string

fun set_suspect_field :: "suspect_field \<Rightarrow> suspect_row \<Rightarrow> suspect_row" where
  "set_suspect_field (Suspect_id v) r = r\<lparr>su_id := v\<rparr>"
| "set_suspect_field (Suspect_name v) r = r\<lparr>su_name := v\<rparr>"
| "set_suspect_field (Suspect_description v) r = r\<lparr>su_description := v\<rparr>"
| "set_suspect_field (Suspect_known_aliases v) r = r\<lparr>su_known_aliases := v\<rparr>"
| "set_suspect_field (Suspect_created_at v) r = r\<lparr>su_created_at := v\<rparr>"

definition suspect_referenced :: "store \<Rightarrow> int \<Rightarrow> bool" where
  "suspect_referenced s u \<longleftrightarrow>
     u \<in> h_suspect_id ` set (suspect_crime_history s) \<or>
     u \<in> scl_suspect_id ` set (suspect_case_links s)"

definition update_suspect :: "store \<Rightarrow> int \<Rightarrow> suspect_field list \<Rightarrow> db_error + store" where
  "update_suspect s suspect_id flds =
     (if flds = [] then Inr s
      else if suspect_id \<notin> suspect_ids s then Inr s
      else
        let new_id = su_id (fold set_suspect_field flds \<lparr>su_id = suspect_id, su_name = [],
              su_description = None, su_known_aliases = None, su_created_at = []\<rparr>) in
        if new_id \<noteq> suspect_id \<and> new_id \<in> suspect_ids s then Inl Unique_constraint
        else if new_id \<noteq> suspect_id \<and> suspect_referenced s suspect_id
        then Inl Foreign_key_constraint
        else Inr (s\<lparr>suspects :=
               map (\<lambda>r. if su_id r = suspect_id then fold set_suspect_field flds r else r)
                 (suspects s)\<rparr>))"

definition delete_suspect :: "store \<Rightarrow> int \<Rightarrow> db_error + store" where
  "delete_suspect s suspect_id =
     (if ''suspects'' \<notin> set (tables s) then Inl Operational_error
      else if \<not> sqlite_int suspect_id then Inl Overflow_error
      else
        let gone = su_id ` set (filter (\<lambda>r. su_id r = suspect_id) (suspects s)) in
        Inr (s\<lparr>suspects := filter (\<lambda>r. su_id r \<noteq> suspect_id) (suspects s),
          suspect_crime_history :=
            filter (\<lambda>r. h_suspect_id r \<notin> gone) (suspect_crime_history s),
          suspect_case_links :=
            filter (\<lambda>r. scl_suspect_id r \<notin> gone) (suspect_case_links s)\<rparr>))"

definition add_suspect_crime_history ::
  "store \<Rightarrow> string \<Rightarrow> int \<Rightarrow> string \<Rightarrow> string option \<Rightarrow> string \<Rightarrow> string \<Rightarrow> db_error + (int \<times> store)" where
  "add_suspect_crime_history s now suspect_id crime_type date_of_crime conviction_status notes =
     (if suspect_id \<notin> suspect_ids s then Inl Foreign_key_constraint
      else
        let new_id = next_rowid (map h_id (suspect_crime_history s)) in
        Inr (new_id,
             s\<lparr>suspect_crime_history := suspect_crime_history s @
                [\<lparr>h_id = new_id, h_suspect_id = suspect_id, h_crime_type = crime_type,
                  h_date_of_crime = date_of_crime, h_conviction_status = conviction_status,
                  h_notes = or_none notes, h_created_at = now\<rparr>]\<rparr>))"

text \<open>
  ORDER BY date_of_crime DESC NULLS LAST, created_at DESC: a dated entry before an
  undated one, a later date before an earlier one, and on equal dates (or none) the
  later creation time first.
\<close>

definition history_order :: "history_row \<Rightarrow> history_row \<Rightarrow> bool" where
  "history_order a b =
     (case (h_date_of_crime a, h_date_of_crime b) of
        (Some x, Some y) \<Rightarrow> y < x \<or> (x = y \<and> h_created_at b \<le> h_created_at a)
      | (Some x, None) \<Rightarrow> True
      | (None, Some y) \<Rightarrow> False
      | (None, None) \<Rightarrow> h_created_at b \<le> h_created_at a)"

definition get_suspect_crime_history :: "store \<Rightarrow> int \<Rightarrow> history_row list \<Rightarrow> bool" where
  "get_suspect_crime_history s suspect_id result =
     order_by history_order
       (filter (\<lambda>r. h_suspect_id r = suspect_id) (suspect_crime_history s)) result"

definition delete_suspect_crime_history_entry :: "store \<Rightarrow> int \<Rightarrow> db_error + store" where
  "delete_suspect_crime_history_entry s entry_id =
     (if ''suspect_crime_history'' \<notin> set (tables s) then Inl Operational_error
      else if \<not> sqlite_int entry_id then Inl Overflow_error
      else Inr (s\<lparr>suspect_crime_history :=
                  filter (\<lambda>r. h_id r \<noteq> entry_id) (suspect_crime_history s)\<rparr>))"

subsection \<open>Links between a suspect and a case\<close>

text \<open>
  \<^verbatim>\<open>suspect_case_links\<close> has UNIQUE(suspect_id, case_id, connection_type), which
  SQLite tests when it inserts the row, and two foreign keys, which it tests when the
  statement ends.
\<close>

definition link_suspect_to_case ::
  "store \<Rightarrow> string \<Rightarrow> int \<Rightarrow> int \<Rightarrow> string \<Rightarrow> string \<Rightarrow> db_error + (int \<times> store)" where
  "link_suspect_to_case s now suspect_id case_id connection_type notes =
     (if (suspect_id, case_id, connection_type) \<in>
           (\<lambda>r. (scl_suspect_id r, scl_case_id r, scl_connection_type r)) ` set (suspect_case_links s)
      then Inl Unique_constraint
      else if suspect_id \<notin> suspect_ids s \<or> case_id \<notin> case_ids s then Inl Foreign_key_constraint
      else
        let new_id = next_rowid (map scl_id (suspect_case_links s)) in
        Inr (new_id,
             s\<lparr>suspect_case_links := suspect_case_links s @
                [\<lparr>scl_id = new_id, scl_suspect_id = suspect_id, scl_case_id = case_id,
                  scl_connection_type = connection_type, scl_notes = or_none notes,
                  scl_created_at = now\<rparr>]\<rparr>))"

text \<open>
  \<^verbatim>\<open>get_suspect_links_for_case\<close>: each link of the case joined with the suspect it
  names, which gives the column \<^verbatim>\<open>suspect_name\<close>; newest first.
\<close>

definition get_suspect_links_for_case ::
  "store \<Rightarrow> int \<Rightarrow> (suspect_case_link_row \<times> string) list \<Rightarrow> bool" where
  "get_suspect_links_for_case s case_id result =
     order_by (desc (\<lambda>x. scl_created_at (fst x)))
       (concat (map (\<lambda>l. map (\<lambda>u. (l, su_name u))
          (filter (\<lambda>u. scl_suspect_id l = su_id u \<and> scl_case_id l = case_id) (suspects s)))
          (suspect_case_links s)))
       result"

definition delete_suspect_case_link :: "store \<Rightarrow> int \<Rightarrow> db_error + store" where
  "delete_suspect_case_link s link_id =
     (if ''suspect_case_links'' \<notin> set (tables s) then Inl Operational_error
      else if \<not> sqlite_int link_id then Inl Overflow_error
      else Inr (s\<lparr>suspect_case_links :=
                  filter (\<lambda>r. scl_id r \<noteq> link_id) (suspect_case_links s)\<rparr>))"

subsection \<open>Timeline events\<close>

definition add_timeline_event ::
  "store \<Rightarrow> string \<Rightarrow> int \<Rightarrow> string \<Rightarrow> string \<Rightarrow> string \<Rightarrow> db_error + (int \<times> store)" where
  "add_timeline_event s now case_id event_timestamp title description =
     (if case_id \<notin> case_ids s then Inl Foreign_key_constraint
      else
        let new_id = next_rowid (map ev_id (timeline_events s)) in
        Inr (new_id,
             s\<lparr>timeline_events := timeline_events s @
                [\<lparr>ev_id = new_id, ev_case_id = case_id, ev_event_timestamp = event_timestamp,
                  ev_title = title, ev_description = or_none description,
                  ev_created_at = now\<rparr>]\<rparr>))"

definition get_timeline_events :: "store \<Rightarrow> int \<Rightarrow> timeline_event_row list \<Rightarrow> bool" where
  "get_timeline_events s case_id result =
     order_by (desc ev_event_timestamp)
       (filter (\<lambda>r. ev_case_id r = case_id) (timeline_events s)) result"

definition delete_timeline_event :: "store \<Rightarrow> int \<Rightarrow> db_error + store" where
  "delete_timeline_event s event_id =
     (if ''timeline_events'' \<notin> set (tables s) then Inl Operational_error
      else if \<not> sqlite_int event_id then Inl Overflow_error
      else Inr (s\<lparr>timeline_events :=
                  filter (\<lambda>r. ev_id r \<noteq> event_id) (timeline_events s)\<rparr>))"

subsection \<open>Projects and their cases\<close>

text \<open>\<^verbatim>\<open>projects.name\<close> is UNIQUE.\<close>

definition add_project :: "store \<Rightarrow> string \<Rightarrow> string \<Rightarrow> string \<Rightarrow> db_error + (int \<times> store)" where
  "add_project s now name description =
     (if name \<in> pr_name ` set (projects s) then Inl Unique_constraint
      else
        let new_id = next_rowid (map pr_id (projects s)) in
        Inr (new_id,
             s\<lparr>projects := projects s @
                [\<lparr>pr_id = new_id, pr_name = name, pr_description = or_none description,
                  pr_created_at = now\<rparr>]\<rparr>))"

definition get_project :: "store \<Rightarrow> int \<Rightarrow> project_row option" where
  "get_project s project_id = fetchone (filter (\<lambda>r. pr_id r = project_id) (projects s))"

datatype project_field =
    Project_id int
  | Project_name string
  | Project_description "string option"
  | Project_created_at string

fun set_project_field :: "project_field \<Rightarrow> project_row \<Rightarrow> project_row" where
  "set_project_field (Project_id v) r = r\<lparr>pr_id := v\<rparr>"
| "set_project_field (Project_name v) r = r\<lparr>pr_name := v\<rparr>"
| "set_project_field (Project_description v) r = r\<lparr>pr_description := v\<rparr>"
| "set_project_field (Project_created_at v) r = r\<lparr>pr_created_at := v\<rparr>"

text \<open>
  The UPDATE fails on the key as for a case, and on UNIQUE(name) when a row it writes
  gets a new name that another row has.
\<close>

definition update_project :: "store \<Rightarrow> int \<Rightarrow> project_field list \<Rightarrow> db_error + store" where
  "update_project s project_id flds =
     (if flds = [] then Inr s
      else if project_id \<notin> project_ids s then Inr s
      else
        let new_id = pr_id (fold set_project_field flds \<lparr>pr_id = project_id, pr_name = [],
              pr_description = None, pr_created_at = []\<rparr>);
            new_rows = map (\<lambda>r. if pr_id r = project_id then fold set_project_field flds r else r)
              (projects s)
        in
        if new_id \<noteq> project_id \<and> new_id \<in> project_ids s then Inl Unique_constraint
        else if \<exists>r \<in> set (projects s). pr_id r = project_id \<and>
                  pr_name (fold set_project_field flds r) \<noteq> pr_name r \<and>
                  pr_name (fold set_project_field flds r) \<in>
                    pr_name ` set (filter (\<lambda>q. pr_id q \<noteq> project_id) (projects s))
        then Inl Unique_constraint
        else if new_id \<noteq> project_id \<and> project_id \<in> pc_project_id ` set (project_cases s)
        then Inl Foreign_key_constraint
        else Inr (s\<lparr>projects := new_rows\<rparr>))"

definition delete_project :: "store \<Rightarrow> int \<Rightarrow> db_error + store" where
  "delete_project s project_id =
     (if ''projects'' \<notin> set (tables s) then Inl Operational_error
      else if \<not> sqlite_int project_id then Inl Overflow_error
      else
        let gone = pr_id ` set (filter (\<lambda>r. pr_id r = project_id) (projects s)) in
        Inr (s\<lparr>projects := filter (\<lambda>r. pr_id r \<noteq> project_id) (projects s),
          project_cases := filter (\<lambda>r. pc_project_id r \<notin> gone) (project_cases s)\<rparr>))"

text \<open>
  \<^verbatim>\<open>assign_case_to_project\<close>: the INSERT raises when \<^verbatim>\<open>project_cases\<close> or
  a parent table of its foreign keys does not exist, and when an id cannot be bound.
  INSERT OR IGNORE skips the row when UNIQUE(project_id, case_id) would fail; a project
  or case that does not exist raises.
\<close>

definition assign_case_to_project :: "store \<Rightarrow> string \<Rightarrow> int \<Rightarrow> int \<Rightarrow> db_error + store" where
  "assign_case_to_project s now project_id case_id =
     (if ''project_cases'' \<notin> set (tables s) \<or> ''projects'' \<notin> set (tables s) \<or>
         ''cases'' \<notin> set (tables s)
      then Inl Operational_error
      else if \<not> sqlite_int project_id \<or> \<not> sqlite_int case_id then Inl Overflow_error
      else if (project_id, case_id) \<in>
                (\<lambda>r. (pc_project_id r, pc_case_id r)) ` set (project_cases s)
      then Inr s
      else if project_id \<notin> project_ids s \<or> case_id \<notin> case_ids s then Inl Foreign_key_constraint
      else Inr (s\<lparr>project_cases := project_cases s @
              [\<lparr>pc_id = next_rowid (map pc_id (project_cases s)), pc_project_id = project_id,
                pc_case_id = case_id, pc_added_at = now\<rparr>]\<rparr>))"

definition unassign_case_from_project :: "store \<Rightarrow> int \<Rightarrow> int \<Rightarrow> db_error + store" where
  "unassign_case_from_project s project_id case_id =
     (if ''project_cases'' \<notin> set (tables s) then Inl Operational_error
      else if \<not> sqlite_int project_id \<or> \<not> sqlite_int case_id then Inl Overflow_error
      else Inr (s\<lparr>project_cases :=
                  filter (\<lambda>r. \<not> (pc_project_id r = project_id \<and> pc_case_id r = case_id))
                    (project_cases s)\<rparr>))"

subsection \<open>Schema: init_db and migrate_db\<close>

definition empty_store :: store where
  "empty_store = \<lparr>tables = [], cases_columns = [], cases = [], case_crime_types = [],
     case_tags = [], suspects = [], suspect_crime_history = [], suspect_case_links = [],
     case_links = [], timeline_events = [], projects = [], project_cases = []\<rparr>"

text \<open>The columns of \<^verbatim>\<open>cases\<close> in the CREATE TABLE of \<^verbatim>\<open>init_db\<close>.\<close>

definition init_cases_columns :: "string list" where
  "init_cases_columns =
     [''id'', ''title'', ''crime_type'', ''date_occurred'', ''address'', ''latitude'',
      ''longitude'', ''crime_scene_address'', ''crime_scene_lat'', ''crime_scene_lon'',
      ''body_found_address'', ''body_found_lat'', ''body_found_lon'', ''is_murder'',
      ''victim_count'', ''mo_description'', ''victim_profile'', ''status'', ''created_at'']"

text \<open>A table that has just been created: no rows, and for \<^verbatim>\<open>cases\<close> its columns.\<close>

definition created_table :: "string \<Rightarrow> store \<Rightarrow> store" where
  "created_table name s =
     (if name = ''cases'' then s\<lparr>cases_columns := init_cases_columns, cases := []\<rparr>
      else if name = ''case_crime_types'' then s\<lparr>case_crime_types := []\<rparr>
      else if name = ''case_tags'' then s\<lparr>case_tags := []\<rparr>
      else if name = ''suspects'' then s\<lparr>suspects := []\<rparr>
      else if name = ''suspect_crime_history'' then s\<lparr>suspect_crime_history := []\<rparr>
      else if name = ''suspect_case_links'' then s\<lparr>suspect_case_links := []\<rparr>
      else if name = ''case_links'' then s\<lparr>case_links := []\<rparr>
      else if name = ''timeline_events'' then s\<lparr>timeline_events := []\<rparr>
      else if name = ''projects'' then s\<lparr>projects := []\<rparr>
      else if name = ''project_cases'' then s\<lparr>project_cases := []\<rparr>
      else s)"

text \<open>CREATE TABLE IF NOT EXISTS.\<close>

definition create_table_if_not_exists :: "string \<Rightarrow> store \<Rightarrow> store" where
  "create_table_if_not_exists name s =
     (if name \<in> set (tables s) then s
      else created_table name (s\<lparr>tables := tables s @ [name]\<rparr>))"

text \<open>The ten tables of \<^verbatim>\<open>init_db\<close>, in the order of its script.\<close>

definition all_tables :: "string list" where
  "all_tables =
     [''cases'', ''case_crime_types'', ''case_tags'', ''suspects'', ''suspect_crime_history'',
      ''suspect_case_links'', ''case_links'', ''timeline_events'', ''projects'',
      ''project_cases'']"

definition init_db :: "store \<Rightarrow> store" where
  "init_db s = fold create_table_if_not_exists all_tables s"

text \<open>
  The schema is the current one: the ten tables exist and \<^verbatim>\<open>cases\<close> has every
  column of its CREATE TABLE. This is the schema the data operations are modelled on.
\<close>

definition schema_current :: "store \<Rightarrow> bool" where
  "schema_current s \<longleftrightarrow>
     set all_tables \<subseteq> set (tables s) \<and> set init_cases_columns \<subseteq> set (cases_columns s)"

text \<open>
  ALTER TABLE cases ADD COLUMN raises when the table does not exist and when it has the
  column. Otherwise every row reads the column's default: 0 for \<^verbatim>\<open>is_murder\<close>,
  NULL for the others.
\<close>

definition column_default :: "string \<Rightarrow> case_row \<Rightarrow> case_row" where
  "column_default col r =
     (if col = ''crime_scene_address'' then r\<lparr>c_crime_scene_address := None\<rparr>
      else if col = ''crime_scene_lat'' then r\<lparr>c_crime_scene_lat := None\<rparr>
      else if col = ''crime_scene_lon'' then r\<lparr>c_crime_scene_lon := None\<rparr>
      else if col = ''body_found_address'' then r\<lparr>c_body_found_address := None\<rparr>
      else if col = ''body_found_lat'' then r\<lparr>c_body_found_lat := None\<rparr>
      else if col = ''body_found_lon'' then r\<lparr>c_body_found_lon := None\<rparr>
      else if col = ''is_murder'' then r\<lparr>c_is_murder := 0\<rparr>
      else if col = ''victim_count'' then r\<lparr>c_victim_count := None\<rparr>
      else r)"

definition alter_table_cases_add_column :: "string \<Rightarrow> store \<Rightarrow> db_error + store" where
  "alter_table_cases_add_column col s =
     (if ''cases'' \<notin> set (tables s) then Inl Operational_error
      else if col \<in> set (cases_columns s) then Inl Operational_error
      else Inr (s\<lparr>cases_columns := cases_columns s @ [col],
                  cases := map (column_default col) (cases s)\<rparr>))"

text \<open>Step 1: each ALTER TABLE in its own try, the exception dropped.\<close>

definition new_cols :: "string list" where
  "new_cols = [''crime_scene_address'', ''crime_scene_lat'', ''crime_scene_lon'',
     ''body_found_address'', ''body_found_lat'', ''body_found_lon'', ''is_murder'',
     ''victim_count'']"

definition try_add_column :: "string \<Rightarrow> store \<Rightarrow> store" where
  "try_add_column col s =
     (case alter_table_cases_add_column col s of Inl e \<Rightarrow> s | Inr s' \<Rightarrow> s')"

definition migrate_step1 :: "store \<Rightarrow> store" where
  "migrate_step1 s = fold try_add_column new_cols s"

text \<open>Step 2: the five newer tables.\<close>

definition migrate_step2 :: "store \<Rightarrow> store" where
  "migrate_step2 s =
     fold create_table_if_not_exists
       [''case_crime_types'', ''case_tags'', ''suspect_crime_history'', ''projects'',
        ''project_cases''] s"

text \<open>Step 3: the legacy location, where there is one and no crime scene latitude.\<close>

definition migrate_step3 :: "store \<Rightarrow> store" where
  "migrate_step3 s =
     s\<lparr>cases := map (\<lambda>r. if c_crime_scene_lat r = None \<and> c_latitude r \<noteq> None
                          then r\<lparr>c_crime_scene_address := c_address r,
                                 c_crime_scene_lat := c_latitude r,
                                 c_crime_scene_lon := c_longitude r\<rparr>
                          else r) (cases s)\<rparr>"

text \<open>
  Step 4: for each case whose \<^verbatim>\<open>crime_type\<close> is not the sentinel, INSERT OR
  IGNORE of its crime type at sort order 0, any exception dropped; then, when there was
  such a case, the sentinel is written to all of them.
\<close>

definition try_insert_crime_type :: "case_row \<Rightarrow> store \<Rightarrow> store" where
  "try_insert_crime_type row s =
     (case insert_or_ignore_crime_type s (c_id row) (c_crime_type row) 0 of
        Inl e \<Rightarrow> s
      | Inr s' \<Rightarrow> s')"

definition migrate_step4 :: "store \<Rightarrow> store" where
  "migrate_step4 s =
     (let rows = filter (\<lambda>r. c_crime_type r \<noteq> ''__migrated__'') (cases s);
          s' = fold try_insert_crime_type rows s
      in if rows \<noteq> []
         then s'\<lparr>cases := map (\<lambda>r. if c_crime_type r \<noteq> ''__migrated__''
                                    then r\<lparr>c_crime_type := ''__migrated__''\<rparr> else r) (cases s')\<rparr>
         else s')"

text \<open>Step 5: the two UPDATEs of \<^verbatim>\<open>status\<close>, one after the other.\<close>

definition migrate_step5 :: "store \<Rightarrow> store" where
  "migrate_step5 s =
     (let s' = s\<lparr>cases := map (\<lambda>r. if c_status r = ''Open'' \<or> c_status r = ''Linked''
                                    then r\<lparr>c_status := ''Active''\<rparr> else r) (cases s)\<rparr>
      in s'\<lparr>cases := map (\<lambda>r. if c_status r = ''Closed''
                                then r\<lparr>c_status := ''Solved''\<rparr> else r) (cases s')\<rparr>)"

text \<open>
  Steps 1 and 2 cannot raise. Steps 3 to 5 read and write \<^verbatim>\<open>cases\<close> and its
  columns of the original schema; without them the first such statement raises and
  \<^verbatim>\<open>migrate_db\<close> with it.
\<close>

definition legacy_columns :: "string list" where
  "legacy_columns = [''id'', ''crime_type'', ''address'', ''latitude'', ''longitude'', ''status'']"

definition migrate_db :: "store \<Rightarrow> db_error + store" where
  "migrate_db s =
     (let s2 = migrate_step2 (migrate_step1 s) in
      if ''cases'' \<notin> set (tables s2) \<or> \<not> set legacy_columns \<subseteq> set (cases_columns s2)
      then Inl Operational_error
      else Inr (migrate_step5 (migrate_step4 (migrate_step3 s2))))"

subsection \<open>Every operation that writes\<close>

datatype operation =
    Init_db
  | Migrate_db
  | Add_case string string string string string string bool "int option"
      string "real option" "real option" string "real option" "real option"
  | Update_case int "case_field list"
  | Delete_case int
  | Set_case_crime_types int "string list"
  | Set_case_tags int "string list"
  | Add_suspect string string "string option" "string option"
  | Update_suspect int "suspect_field list"
  | Delete_suspect int
  | Add_suspect_crime_history string int string "string option" string string
  | Delete_suspect_crime_history_entry int
  | Link_suspect_to_case string int int string string
  | Delete_suspect_case_link int
  | Link_cases string int int string
  | Delete_case_link int
  | Add_timeline_event string int string string string
  | Delete_timeline_event int
  | Add_project string string string
  | Update_project int "project_field list"
  | Delete_project int
  | Assign_case_to_project string int int
  | Unassign_case_from_project int int

fun exec :: "operation \<Rightarrow> store \<Rightarrow> db_error + store" where
  "exec Init_db s = Inr (init_db s)"
| "exec Migrate_db s = migrate_db s"
| "exec (Add_case now title date status mo vp murder vc csa cslat cslon bfa bflat bflon) s =
     Inr (snd (add_case s now title date status mo vp murder vc csa cslat cslon bfa bflat bflon))"
| "exec (Update_case i flds) s = update_case s i flds"
| "exec (Delete_case i) s = delete_case s i"
| "exec (Set_case_crime_types i cts) s = set_case_crime_types s i cts"
| "exec (Set_case_tags i tags) s = set_case_tags s i tags"
| "exec (Add_suspect now name d a) s = Inr (snd (add_suspect s now name d a))"
| "exec (Update_suspect i flds) s = update_suspect s i flds"
| "exec (Delete_suspect i) s = delete_suspect s i"
| "exec (Add_suspect_crime_history now i ct d cs notes) s =
     map_sum id snd (add_suspect_crime_history s now i ct d cs notes)"
| "exec (Delete_suspect_crime_history_entry i) s = delete_suspect_crime_history_entry s i"
| "exec (Link_suspect_to_case now u c t notes) s =
     map_sum id snd (link_suspect_to_case s now u c t notes)"
| "exec (Delete_suspect_case_link i) s = delete_suspect_case_link s i"
| "exec (Link_cases now a b note) s = map_sum id snd (link_cases s now a b note)"
| "exec (Delete_case_link i) s = delete_case_link s i"
| "exec (Add_timeline_event now c ts title d) s =
     map_sum id snd (add_timeline_event s now c ts title d)"
| "exec (Delete_timeline_event i) s = delete_timeline_event s i"
| "exec (Add_project now name d) s = map_sum id snd (add_project s now name d)"
| "exec (Update_project i flds) s = update_project s i flds"
| "exec (Delete_project i) s = delete_project s i"
| "exec (Assign_case_to_project now p c) s = assign_case_to_project s now p c"
| "exec (Unassign_case_from_project p c) s = unassign_case_from_project s p c"

text \<open>
  The stores the application can be in: a new file after \<^verbatim>\<open>init_db\<close>, and what
  any operation that completes makes of such a store.
\<close>

inductive reachable :: "store \<Rightarrow> bool" where
  fresh: "reachable (init_db empty_store)"
| step: "reachable s \<Longrightarrow> exec oper s = Inr s' \<Longrightarrow> reachable s'"

subsection \<open>Constraints of the schema as predicates\<close>

text \<open>No association row references a parent that is missing.\<close>

definition fk_ok :: "store \<Rightarrow> bool" where
  "fk_ok s \<longleftrightarrow>
     cct_case_id ` set (case_crime_types s) \<subseteq> case_ids s \<and>
     ct_case_id ` set (case_tags s) \<subseteq> case_ids s \<and>
     h_suspect_id ` set (suspect_crime_history s) \<subseteq> suspect_ids s \<and>
     scl_suspect_id ` set (suspect_case_links s) \<subseteq> suspect_ids s \<and>
     scl_case_id ` set (suspect_case_links s) \<subseteq> case_ids s \<and>
     cl_case_id_1 ` set (case_links s) \<subseteq> case_ids s \<and>
     cl_case_id_2 ` set (case_links s) \<subseteq> case_ids s \<and>
     ev_case_id ` set (timeline_events s) \<subseteq> case_ids s \<and>
     pc_project_id ` set (project_cases s) \<subseteq> project_ids s \<and>
     pc_case_id ` set (project_cases s) \<subseteq> case_ids s"

text \<open>CHECK(case_id_1 < case_id_2) holds of every row of \<^verbatim>\<open>case_links\<close>.\<close>

definition case_links_canonical :: "store \<Rightarrow> bool" where
  "case_links_canonical s \<longleftrightarrow> list_all (\<lambda>r. cl_case_id_1 r < cl_case_id_2 r) (case_links s)"

text \<open>The primary key of \<^verbatim>\<open>cases\<close> and UNIQUE(project_id, case_id).\<close>

definition keys_ok :: "store \<Rightarrow> bool" where
  "keys_ok s \<longleftrightarrow>
     distinct (map c_id (cases s)) \<and>
     distinct (map (\<lambda>r. (pc_project_id r, pc_case_id r)) (project_cases s))"

subsection \<open>Example stores\<close>

text \<open>
  Two cases with the same date, a suspect and a project; and the same store with a row in
  every association table.
\<close>

definition example_case :: "int \<Rightarrow> string \<Rightarrow> case_row" where
  "example_case i d =
     \<lparr>c_id = i, c_title = ''Doe file'', c_crime_type = ''__migrated__'', c_date_occurred = d,
      c_address = None, c_latitude = None, c_longitude = None,
      c_crime_scene_address = None, c_crime_scene_lat = None, c_crime_scene_lon = None,
      c_body_found_address = None, c_body_found_lat = None, c_body_found_lon = None,
      c_is_murder = 0, c_victim_count = None, c_mo_description = None,
      c_victim_profile = None, c_status = ''Active'', c_created_at = ''2024-01-01 00:00:00''\<rparr>"

definition two_cases :: store where
  "two_cases =
     \<lparr>tables = all_tables, cases_columns = init_cases_columns,
      cases = [example_case 2 ''1999-03-04'', example_case 5 ''1999-03-04''],
      case_crime_types = [], case_tags = [],
      suspects = [\<lparr>su_id = 1, su_name = ''J. Roe'', su_description = None,
                   su_known_aliases = None, su_created_at = ''2024-01-01 00:00:00''\<rparr>],
      suspect_crime_history = [], suspect_case_links = [], case_links = [],
      timeline_events = [],
      projects = [\<lparr>pr_id = 1, pr_name = ''Harbour'', pr_description = None,
                   pr_created_at = ''2024-01-01 00:00:00''\<rparr>],
      project_cases = []\<rparr>"

definition example_store :: store where
  "example_store =
     two_cases
       \<lparr>case_crime_types := [\<lparr>cct_id = 1, cct_case_id = 2, cct_crime_type = ''Burglary'',
                               cct_sort_order = 0\<rparr>],
        case_tags := [\<lparr>ct_id = 1, ct_case_id = 2, ct_tag = ''cold''\<rparr>],
        suspect_crime_history := [\<lparr>h_id = 1, h_suspect_id = 1, h_crime_type = ''Theft'',
           h_date_of_crime = None, h_conviction_status = ''Convicted'', h_notes = None,
           h_created_at = ''2024-01-02 00:00:00''\<rparr>],
        suspect_case_links := [\<lparr>scl_id = 1, scl_suspect_id = 1, scl_case_id = 2,
           scl_connection_type = ''Suspect'', scl_notes = None,
           scl_created_at = ''2024-01-02 00:00:00''\<rparr>],
        case_links := [\<lparr>cl_id = 1, cl_case_id_1 = 2, cl_case_id_2 = 5,
           cl_similarity_note = ''same lock'', cl_created_at = ''2024-01-02 00:00:00''\<rparr>],
        timeline_events := [\<lparr>ev_id = 1, ev_case_id = 2,
           ev_event_timestamp = ''1999-03-04 22:00'', ev_title = ''Alarm'',
           ev_description = None, ev_created_at = ''2024-01-02 00:00:00''\<rparr>],
        project_cases := [\<lparr>pc_id = 1, pc_project_id = 1, pc_case_id = 2,
           pc_added_at = ''2024-01-02 00:00:00''\<rparr>]\<rparr>"

subsection \<open>A caller that repeats an assignment\<close>

text \<open>
  \<^verbatim>\<open>assign_case_to_project\<close> called once for each element of \<open>nows\<close>, the
  times of the calls, with the same project and case; the first call that raises ends
  the sequence.
\<close>

fun assign_repeatedly :: "store \<Rightarrow> string list \<Rightarrow> int \<Rightarrow> int \<Rightarrow> db_error + store" where
  "assign_repeatedly s [] project_id case_id = Inr s"
| "assign_repeatedly s (now # nows) project_id case_id =
     (case assign_case_to_project s now project_id case_id of
        Inl e \<Rightarrow> Inl e
      | Inr s' \<Rightarrow> assign_repeatedly s' nows project_id case_id)"

section \<open>Auxiliary facts\<close>

lemma next_rowid_Nil: "next_rowid [] = 1"
  by (simp add: next_rowid_def)

lemma next_rowid_notin: "next_rowid ids \<notin> set ids"
proof (cases "ids = []")
  case True
  then show ?thesis by simp
next
  case False
  have "Max (set ids) + 1 \<notin> set ids"
  proof
    assume "Max (set ids) + 1 \<in> set ids"
    then have "Max (set ids) + 1 \<le> Max (set ids)" by (rule Max_ge [OF finite_set])
    then show False by simp
  qed
  with False show ?thesis by (simp add: next_rowid_def)
qed

lemma fold_case_id:
  "c_id r = c_id r' \<Longrightarrow> c_id (fold set_case_field flds r) = c_id (fold set_case_field flds r')"
proof (induction flds arbitrary: r r')
  case Nil
  then show ?case by simp
next
  case (Cons f flds)
  have "c_id (set_case_field f r) = c_id (set_case_field f r')"
    using Cons.prems by (cases f) simp_all
  then have "c_id (fold set_case_field flds (set_case_field f r)) = c_id (fold set_case_field flds (set_case_field f r'))"
    by (rule Cons.IH)
  then show ?case by simp
qed

lemma fold_suspect_id:
  "su_id r = su_id r' \<Longrightarrow> su_id (fold set_suspect_field flds r) = su_id (fold set_suspect_field flds r')"
proof (induction flds arbitrary: r r')
  case Nil
  then show ?case by simp
next
  case (Cons f flds)
  have "su_id (set_suspect_field f r) = su_id (set_suspect_field f r')"
    using Cons.prems by (cases f) simp_all
  then have "su_id (fold set_suspect_field flds (set_suspect_field f r)) = su_id (fold set_suspect_field flds (set_suspect_field f r'))"
    by (rule Cons.IH)
  then show ?case by simp
qed

lemma fold_project_id:
  "pr_id r = pr_id r' \<Longrightarrow> pr_id (fold set_project_field flds r) = pr_id (fold set_project_field flds r')"
proof (induction flds arbitrary: r r')
  case Nil
  then show ?case by simp
next
  case (Cons f flds)
  have "pr_id (set_project_field f r) = pr_id (set_project_field f r')"
    using Cons.prems by (cases f) simp_all
  then have "pr_id (fold set_project_field flds (set_project_field f r)) = pr_id (fold set_project_field flds (set_project_field f r'))"
    by (rule Cons.IH)
  then show ?case by simp
qed

lemma image_filter_eq:
  "f ` set (filter (\<lambda>r. f r = i) rows) = (if i \<in> f ` set rows then {i} else {})"
  by auto

lemma filter_neq_absent: "i \<notin> f ` set rows \<Longrightarrow> filter (\<lambda>r. f r \<noteq> i) rows = rows"
  by (induction rows) auto

lemma delete_case_absent:
  "''cases'' \<in> set (tables s) \<Longrightarrow> sqlite_int i \<Longrightarrow> i \<notin> case_ids s \<Longrightarrow> delete_case s i = Inr s"
  unfolding delete_case_def Let_def image_filter_eq case_ids_def
  by (simp add: filter_neq_absent)

lemma delete_case_present:
  "''cases'' \<in> set (tables s) \<Longrightarrow> sqlite_int i \<Longrightarrow> i \<in> case_ids s \<Longrightarrow>
   delete_case s i = Inr
    (s\<lparr>cases := filter (\<lambda>r. c_id r \<noteq> i) (cases s),
       case_crime_types := filter (\<lambda>r. cct_case_id r \<noteq> i) (case_crime_types s),
       case_tags := filter (\<lambda>r. ct_case_id r \<noteq> i) (case_tags s),
       suspect_case_links := filter (\<lambda>r. scl_case_id r \<noteq> i) (suspect_case_links s),
       case_links := filter (\<lambda>r. cl_case_id_1 r \<noteq> i \<and> cl_case_id_2 r \<noteq> i) (case_links s),
       timeline_events := filter (\<lambda>r. ev_case_id r \<noteq> i) (timeline_events s),
       project_cases := filter (\<lambda>r. pc_case_id r \<noteq> i) (project_cases s)\<rparr>)"
  unfolding delete_case_def Let_def image_filter_eq case_ids_def
  by simp

lemma delete_case_Inr:
  "delete_case s i = Inr s' \<Longrightarrow> ''cases'' \<in> set (tables s) \<and> sqlite_int i"
  by (simp add: delete_case_def split: if_splits)

lemma delete_suspect_absent:
  "''suspects'' \<in> set (tables s) \<Longrightarrow> sqlite_int i \<Longrightarrow> i \<notin> suspect_ids s \<Longrightarrow> delete_suspect s i = Inr s"
  unfolding delete_suspect_def Let_def image_filter_eq suspect_ids_def
  by (simp add: filter_neq_absent)

lemma delete_suspect_present:
  "''suspects'' \<in> set (tables s) \<Longrightarrow> sqlite_int i \<Longrightarrow> i \<in> suspect_ids s \<Longrightarrow>
   delete_suspect s i = Inr
    (s\<lparr>suspects := filter (\<lambda>r. su_id r \<noteq> i) (suspects s),
       suspect_crime_history := filter (\<lambda>r. h_suspect_id r \<noteq> i) (suspect_crime_history s),
       suspect_case_links := filter (\<lambda>r. scl_suspect_id r \<noteq> i) (suspect_case_links s)\<rparr>)"
  unfolding delete_suspect_def Let_def image_filter_eq suspect_ids_def
  by simp

lemma delete_suspect_Inr:
  "delete_suspect s i = Inr s' \<Longrightarrow> ''suspects'' \<in> set (tables s) \<and> sqlite_int i"
  by (simp add: delete_suspect_def split: if_splits)

lemma delete_project_absent:
  "''projects'' \<in> set (tables s) \<Longrightarrow> sqlite_int i \<Longrightarrow> i \<notin> project_ids s \<Longrightarrow> delete_project s i = Inr s"
  unfolding delete_project_def Let_def image_filter_eq project_ids_def
  by (simp add: filter_neq_absent)

lemma delete_project_present:
  "''projects'' \<in> set (tables s) \<Longrightarrow> sqlite_int i \<Longrightarrow> i \<in> project_ids s \<Longrightarrow>
   delete_project s i = Inr
    (s\<lparr>projects := filter (\<lambda>r. pr_id r \<noteq> i) (projects s),
       project_cases := filter (\<lambda>r. pc_project_id r \<noteq> i) (project_cases s)\<rparr>)"
  unfolding delete_project_def Let_def image_filter_eq project_ids_def
  by simp

lemma delete_project_Inr:
  "delete_project s i = Inr s' \<Longrightarrow> ''projects'' \<in> set (tables s) \<and> sqlite_int i"
  by (simp add: delete_project_def split: if_splits)

lemma fk_ok_alt:
  "fk_ok s \<longleftrightarrow>
     (\<forall>r \<in> set (case_crime_types s). cct_case_id r \<in> case_ids s) \<and>
     (\<forall>r \<in> set (case_tags s). ct_case_id r \<in> case_ids s) \<and>
     (\<forall>r \<in> set (suspect_crime_history s). h_suspect_id r \<in> suspect_ids s) \<and>
     (\<forall>r \<in> set (suspect_case_links s). scl_suspect_id r \<in> suspect_ids s \<and> scl_case_id r \<in> case_ids s) \<and>
     (\<forall>r \<in> set (case_links s). cl_case_id_1 r \<in> case_ids s \<and> cl_case_id_2 r \<in> case_ids s) \<and>
     (\<forall>r \<in> set (timeline_events s). ev_case_id r \<in> case_ids s) \<and>
     (\<forall>r \<in> set (project_cases s). pc_project_id r \<in> project_ids s \<and> pc_case_id r \<in> case_ids s)"
  by (simp add: fk_ok_def image_subset_iff ball_conj_distrib conj_ac)

subsection \<open>Every operation keeps the foreign keys\<close>

lemma fk_ok_add_case:
  "fk_ok s \<Longrightarrow> fk_ok (snd (add_case s now title date status mo vp murder vc csa cslat cslon bfa bflat bflon))"
  by (auto simp: fk_ok_alt add_case_def Let_def case_ids_def suspect_ids_def project_ids_def)

lemma fk_ok_delete_case: "fk_ok s \<Longrightarrow> delete_case s i = Inr s' \<Longrightarrow> fk_ok s'"
proof -
  assume fk: "fk_ok s" and d: "delete_case s i = Inr s'"
  from delete_case_Inr [OF d] have t: "''cases'' \<in> set (tables s)" and r: "sqlite_int i"
    by simp_all
  show ?thesis
  proof (cases "i \<in> case_ids s")
    case True
    from d have s': "s' =
      s\<lparr>cases := filter (\<lambda>r. c_id r \<noteq> i) (cases s),
       case_crime_types := filter (\<lambda>r. cct_case_id r \<noteq> i) (case_crime_types s),
       case_tags := filter (\<lambda>r. ct_case_id r \<noteq> i) (case_tags s),
       suspect_case_links := filter (\<lambda>r. scl_case_id r \<noteq> i) (suspect_case_links s),
       case_links := filter (\<lambda>r. cl_case_id_1 r \<noteq> i \<and> cl_case_id_2 r \<noteq> i) (case_links s),
       timeline_events := filter (\<lambda>r. ev_case_id r \<noteq> i) (timeline_events s),
       project_cases := filter (\<lambda>r. pc_case_id r \<noteq> i) (project_cases s)\<rparr>"
      unfolding delete_case_present [OF t r True] by simp
    from fk show ?thesis
      unfolding s'
      by (auto simp: fk_ok_alt case_ids_def suspect_ids_def project_ids_def)
  next
    case False
    from d fk show ?thesis
      unfolding delete_case_absent [OF t r False] by simp
  qed
qed

lemma fk_ok_delete_suspect: "fk_ok s \<Longrightarrow> delete_suspect s i = Inr s' \<Longrightarrow> fk_ok s'"
proof -
  assume fk: "fk_ok s" and d: "delete_suspect s i = Inr s'"
  from delete_suspect_Inr [OF d] have t: "''suspects'' \<in> set (tables s)" and r: "sqlite_int i"
    by simp_all
  show ?thesis
  proof (cases "i \<in> suspect_ids s")
    case True
    from d have s': "s' =
      s\<lparr>suspects := filter (\<lambda>r. su_id r \<noteq> i) (suspects s),
       suspect_crime_history := filter (\<lambda>r. h_suspect_id r \<noteq> i) (suspect_crime_history s),
       suspect_case_links := filter (\<lambda>r. scl_suspect_id r \<noteq> i) (suspect_case_links s)\<rparr>"
      unfolding delete_suspect_present [OF t r True] by simp
    from fk show ?thesis
      unfolding s'
      by (auto simp: fk_ok_alt case_ids_def suspect_ids_def project_ids_def)
  next
    case False
    from d fk show ?thesis
      unfolding delete_suspect_absent [OF t r False] by simp
  qed
qed

lemma fk_ok_delete_project: "fk_ok s \<Longrightarrow> delete_project s i = Inr s' \<Longrightarrow> fk_ok s'"
proof -
  assume fk: "fk_ok s" and d: "delete_project s i = Inr s'"
  from delete_project_Inr [OF d] have t: "''projects'' \<in> set (tables s)" and r: "sqlite_int i"
    by simp_all
  show ?thesis
  proof (cases "i \<in> project_ids s")
    case True
    from d have s': "s' =
      s\<lparr>projects := filter (\<lambda>r. pr_id r \<noteq> i) (projects s),
       project_cases := filter (\<lambda>r. pc_project_id r \<noteq> i) (project_cases s)\<rparr>"
      unfolding delete_project_present [OF t r True] by simp
    from fk show ?thesis
      unfolding s'
      by (auto simp: fk_ok_alt case_ids_def suspect_ids_def project_ids_def)
  next
    case False
    from d fk show ?thesis
      unfolding delete_project_absent [OF t r False] by simp
  qed
qed

lemma map_sum_snd_Inr: "map_sum id snd x = Inr s' \<longleftrightarrow> (\<exists>i. x = Inr (i, s'))"
  by (cases x) auto

lemma create_table_existing:
  "name \<in> set (tables s) \<Longrightarrow> create_table_if_not_exists name s = s"
  by (simp add: create_table_if_not_exists_def)

lemma init_db_current: "schema_current s \<Longrightarrow> init_db s = s"
  by (simp add: schema_current_def init_db_def all_tables_def create_table_existing)

lemma migrate_step2_current: "schema_current s \<Longrightarrow> migrate_step2 s = s"
  by (simp add: schema_current_def migrate_step2_def all_tables_def create_table_existing)

lemma try_add_column_existing:
  "col \<in> set (cases_columns s) \<Longrightarrow> try_add_column col s = s"
  by (simp add: try_add_column_def alter_table_cases_add_column_def)

lemma migrate_step1_current: "schema_current s \<Longrightarrow> migrate_step1 s = s"
  by (simp add: schema_current_def migrate_step1_def new_cols_def init_cases_columns_def
      try_add_column_existing)

lemma migrate_db_current:
  "schema_current s \<Longrightarrow> migrate_db s = Inr (migrate_step5 (migrate_step4 (migrate_step3 s)))"
  by (simp add: migrate_db_def migrate_step1_current migrate_step2_current Let_def)
     (simp add: schema_current_def all_tables_def init_cases_columns_def legacy_columns_def)

text \<open>INSERT OR IGNORE of crime types and tags.\<close>

lemma fk_ok_insert_or_ignore_crime_type:
  "fk_ok s \<Longrightarrow> insert_or_ignore_crime_type s c ct i = Inr s' \<Longrightarrow> fk_ok s'"
  by (auto simp: insert_or_ignore_crime_type_def fk_ok_alt case_ids_def suspect_ids_def
      project_ids_def split: if_splits)

lemma fk_ok_insert_crime_types:
  "fk_ok s \<Longrightarrow> insert_crime_types s c xs = Inr s' \<Longrightarrow> fk_ok s'"
proof (induction xs arbitrary: s)
  case Nil
  then show ?case by simp
next
  case (Cons x xs)
  obtain i ct where x: "x = (i, ct)" by (cases x)
  from Cons.prems(2) obtain s1 where
    s1: "insert_or_ignore_crime_type s c ct (int i) = Inr s1" and
    rest: "insert_crime_types s1 c xs = Inr s'"
    by (auto simp: x split: sum.splits)
  from fk_ok_insert_or_ignore_crime_type [OF Cons.prems(1) s1] have "fk_ok s1" .
  then show ?case using rest by (rule Cons.IH)
qed

lemma fk_ok_drop_crime_types:
  "fk_ok s \<Longrightarrow> fk_ok (s\<lparr>case_crime_types := filter P (case_crime_types s)\<rparr>)"
  by (auto simp: fk_ok_alt case_ids_def suspect_ids_def project_ids_def)

lemma set_case_crime_types_Inr:
  "set_case_crime_types s c cts = Inr s' \<Longrightarrow>
   insert_crime_types
     (s\<lparr>case_crime_types := filter (\<lambda>r. cct_case_id r \<noteq> c) (case_crime_types s)\<rparr>)
     c (enumerate 0 cts) = Inr s'"
  by (simp add: set_case_crime_types_def split: if_splits)

lemma fk_ok_set_case_crime_types:
  "fk_ok s \<Longrightarrow> set_case_crime_types s c cts = Inr s' \<Longrightarrow> fk_ok s'"
  by (rule fk_ok_insert_crime_types [OF fk_ok_drop_crime_types set_case_crime_types_Inr])

lemma fk_ok_insert_or_ignore_tag:
  "fk_ok s \<Longrightarrow> insert_or_ignore_tag s c tag = Inr s' \<Longrightarrow> fk_ok s'"
  by (auto simp: insert_or_ignore_tag_def fk_ok_alt case_ids_def suspect_ids_def
      project_ids_def split: if_splits)

lemma fk_ok_insert_tags:
  "fk_ok s \<Longrightarrow> insert_tags s c xs = Inr s' \<Longrightarrow> fk_ok s'"
proof (induction xs arbitrary: s)
  case Nil
  then show ?case by simp
next
  case (Cons x xs)
  from Cons.prems(2) obtain s1 where
    s1: "insert_or_ignore_tag s c x = Inr s1" and
    rest: "insert_tags s1 c xs = Inr s'"
    by (auto split: sum.splits)
  from fk_ok_insert_or_ignore_tag [OF Cons.prems(1) s1] have "fk_ok s1" .
  then show ?case using rest by (rule Cons.IH)
qed

lemma fk_ok_drop_tags:
  "fk_ok s \<Longrightarrow> fk_ok (s\<lparr>case_tags := filter P (case_tags s)\<rparr>)"
  by (auto simp: fk_ok_alt case_ids_def suspect_ids_def project_ids_def)

lemma fk_ok_set_case_tags:
  "fk_ok s \<Longrightarrow> set_case_tags s c tags = Inr s' \<Longrightarrow> fk_ok s'"
  unfolding set_case_tags_def
  by (rule fk_ok_insert_tags [OF fk_ok_drop_tags])

text \<open>The operations on one table.\<close>

lemma fk_ok_add_suspect: "fk_ok s \<Longrightarrow> fk_ok (snd (add_suspect s now name d a))"
  by (auto simp: fk_ok_alt add_suspect_def Let_def case_ids_def suspect_ids_def project_ids_def)

lemma fk_ok_add_suspect_crime_history:
  "fk_ok s \<Longrightarrow> add_suspect_crime_history s now u ct d cs notes = Inr (i, s') \<Longrightarrow> fk_ok s'"
  by (auto simp: fk_ok_alt add_suspect_crime_history_def Let_def case_ids_def suspect_ids_def
      project_ids_def split: if_splits)

lemma fk_ok_delete_suspect_crime_history_entry:
  "fk_ok s \<Longrightarrow> delete_suspect_crime_history_entry s i = Inr s' \<Longrightarrow> fk_ok s'"
  by (auto simp: fk_ok_alt delete_suspect_crime_history_entry_def case_ids_def suspect_ids_def project_ids_def
      split: if_splits)

lemma fk_ok_link_suspect_to_case:
  "fk_ok s \<Longrightarrow> link_suspect_to_case s now u c t notes = Inr (i, s') \<Longrightarrow> fk_ok s'"
  by (auto simp: fk_ok_alt link_suspect_to_case_def Let_def case_ids_def suspect_ids_def
      project_ids_def split: if_splits)

lemma fk_ok_delete_suspect_case_link:
  "fk_ok s \<Longrightarrow> delete_suspect_case_link s i = Inr s' \<Longrightarrow> fk_ok s'"
  by (auto simp: fk_ok_alt delete_suspect_case_link_def case_ids_def suspect_ids_def project_ids_def
      split: if_splits)

lemma fk_ok_link_cases:
  "fk_ok s \<Longrightarrow> link_cases s now a b note = Inr (i, s') \<Longrightarrow> fk_ok s'"
  by (auto simp: fk_ok_alt link_cases_def Let_def case_ids_def suspect_ids_def
      project_ids_def split: if_splits)

lemma fk_ok_delete_case_link:
  "fk_ok s \<Longrightarrow> delete_case_link s i = Inr s' \<Longrightarrow> fk_ok s'"
  by (auto simp: fk_ok_alt delete_case_link_def case_ids_def suspect_ids_def project_ids_def
      split: if_splits)

lemma fk_ok_add_timeline_event:
  "fk_ok s \<Longrightarrow> add_timeline_event s now c ts title d = Inr (i, s') \<Longrightarrow> fk_ok s'"
  by (auto simp: fk_ok_alt add_timeline_event_def Let_def case_ids_def suspect_ids_def
      project_ids_def split: if_splits)

lemma fk_ok_delete_timeline_event:
  "fk_ok s \<Longrightarrow> delete_timeline_event s i = Inr s' \<Longrightarrow> fk_ok s'"
  by (auto simp: fk_ok_alt delete_timeline_event_def case_ids_def suspect_ids_def project_ids_def
      split: if_splits)

lemma fk_ok_add_project:
  "fk_ok s \<Longrightarrow> add_project s now name d = Inr (i, s') \<Longrightarrow> fk_ok s'"
  by (auto simp: fk_ok_alt add_project_def Let_def case_ids_def suspect_ids_def
      project_ids_def split: if_splits)

lemma fk_ok_assign_case_to_project:
  "fk_ok s \<Longrightarrow> assign_case_to_project s now p c = Inr s' \<Longrightarrow> fk_ok s'"
  by (auto simp: fk_ok_alt assign_case_to_project_def Let_def case_ids_def suspect_ids_def
      project_ids_def split: if_splits)

lemma fk_ok_unassign_case_from_project:
  "fk_ok s \<Longrightarrow> unassign_case_from_project s p c = Inr s' \<Longrightarrow> fk_ok s'"
  by (auto simp: fk_ok_alt unassign_case_from_project_def case_ids_def suspect_ids_def
      project_ids_def split: if_splits)

lemmas fixture_defs = example_store_def two_cases_def example_case_def case_ids_def
  suspect_ids_def project_ids_def

subsection \<open>Reading back what an insert stored\<close>

lemma filter_eq_absent: "i \<notin> f ` set rows \<Longrightarrow> filter (\<lambda>r. f r = i) rows = []"
  by (induction rows) auto

lemma next_rowid_fresh: "next_rowid (map f rows) \<notin> f ` set rows"
  using next_rowid_notin [of "map f rows"] by simp

lemma filter_next_rowid: "filter (\<lambda>r. f r = next_rowid (map f rows)) rows = []"
  by (rule filter_eq_absent) (rule next_rowid_fresh)

lemma order_by_set: "order_by le rows result \<Longrightarrow> set result = set rows"
  by (auto simp: order_by_def dest: mset_eq_setD)

lemma get_case_add_case:
  "add_case s now title date status mo vp murder vc csa cslat cslon bfa bflat bflon = (i, s1) \<Longrightarrow>
   get_case s1 i = Some
     \<lparr>c_id = i, c_title = title, c_crime_type = ''__migrated__'', c_date_occurred = date,
      c_address = None, c_latitude = None, c_longitude = None,
      c_crime_scene_address = or_none csa, c_crime_scene_lat = cslat, c_crime_scene_lon = cslon,
      c_body_found_address = or_none bfa, c_body_found_lat = bflat, c_body_found_lon = bflon,
      c_is_murder = (if murder then 1 else 0), c_victim_count = vc,
      c_mo_description = or_none mo, c_victim_profile = or_none vp,
      c_status = status, c_created_at = now\<rparr>"
  by (auto simp: add_case_def Let_def get_case_def fetchone_def filter_next_rowid)

lemma history_added:
  assumes "add_suspect_crime_history s now u ct d cs notes = Inr (j, s2)"
    and "get_suspect_crime_history s2 u result"
  shows "(\<exists>r \<in> set result. h_id r = j) \<and> (\<forall>r \<in> set result. h_id r = j \<longrightarrow> h_notes r = or_none notes)"
proof -
  from assms(1) have j: "j = next_rowid (map h_id (suspect_crime_history s))"
    and s2: "suspect_crime_history s2 = suspect_crime_history s @
      [\<lparr>h_id = j, h_suspect_id = u, h_crime_type = ct, h_date_of_crime = d,
        h_conviction_status = cs, h_notes = or_none notes, h_created_at = now\<rparr>]"
    by (auto simp: add_suspect_crime_history_def Let_def split: if_splits)
  from assms(2) have set: "set result = set (filter (\<lambda>r. h_suspect_id r = u) (suspect_crime_history s2))"
    unfolding get_suspect_crime_history_def by (rule order_by_set)
  have fresh: "j \<notin> h_id ` set (suspect_crime_history s)"
    unfolding j by (rule next_rowid_fresh)
  show ?thesis using fresh by (auto simp: set s2)
qed

lemma event_added:
  assumes "add_timeline_event s now c ts title d = Inr (l, s4)"
    and "get_timeline_events s4 c result"
  shows "(\<exists>r \<in> set result. ev_id r = l) \<and> (\<forall>r \<in> set result. ev_id r = l \<longrightarrow> ev_description r = or_none d)"
proof -
  from assms(1) have l: "l = next_rowid (map ev_id (timeline_events s))"
    and s4: "timeline_events s4 = timeline_events s @
      [\<lparr>ev_id = l, ev_case_id = c, ev_event_timestamp = ts, ev_title = title,
        ev_description = or_none d, ev_created_at = now\<rparr>]"
    by (auto simp: add_timeline_event_def Let_def split: if_splits)
  from assms(2) have set: "set result = set (filter (\<lambda>r. ev_case_id r = c) (timeline_events s4))"
    unfolding get_timeline_events_def by (rule order_by_set)
  have fresh: "l \<notin> ev_id ` set (timeline_events s)"
    unfolding l by (rule next_rowid_fresh)
  show ?thesis using fresh by (auto simp: set s4)
qed

lemma link_added:
  assumes "link_suspect_to_case s now u c t notes = Inr (k, s3)"
    and "get_suspect_links_for_case s3 c result"
  shows "(\<exists>x \<in> set result. scl_id (fst x) = k) \<and>
         (\<forall>x \<in> set result. scl_id (fst x) = k \<longrightarrow> scl_notes (fst x) = or_none notes)"
proof -
  from assms(1) have k: "k = next_rowid (map scl_id (suspect_case_links s))"
    and u: "u \<in> suspect_ids s"
    and s3: "suspect_case_links s3 = suspect_case_links s @
      [\<lparr>scl_id = k, scl_suspect_id = u, scl_case_id = c, scl_connection_type = t,
        scl_notes = or_none notes, scl_created_at = now\<rparr>]"
    and su: "suspects s3 = suspects s"
    by (auto simp: link_suspect_to_case_def Let_def split: if_splits)
  from assms(2) have set: "set result = set (concat (map (\<lambda>l. map (\<lambda>u. (l, su_name u))
          (filter (\<lambda>u. scl_suspect_id l = su_id u \<and> scl_case_id l = c) (suspects s3)))
          (suspect_case_links s3)))"
    unfolding get_suspect_links_for_case_def by (rule order_by_set)
  have fresh: "k \<notin> scl_id ` set (suspect_case_links s)"
    unfolding k by (rule next_rowid_fresh)
  from u obtain v where v: "v \<in> set (suspects s)" "su_id v = u"
    by (auto simp: suspect_ids_def)
  let ?row = "\<lparr>scl_id = k, scl_suspect_id = u, scl_case_id = c, scl_connection_type = t,
        scl_notes = or_none notes, scl_created_at = now\<rparr>"
  have "(?row, su_name v) \<in> set result"
    using v by (simp add: set s3 su) (rule disjI2, rule image_eqI [of _ _ v], simp_all)
  then have ex: "\<exists>x \<in> set result. scl_id (fst x) = k"
    by (rule bexI [rotated]) simp
  have mem: "fst x \<in> set (suspect_case_links s) \<or> fst x = ?row" if "x \<in> set result" for x
    using that by (auto simp: set s3)
  have all: "\<forall>x \<in> set result. scl_id (fst x) = k \<longrightarrow> scl_notes (fst x) = or_none notes"
  proof (intro ballI impI)
    fix x
    assume x: "x \<in> set result" and id: "scl_id (fst x) = k"
    from mem [OF x] show "scl_notes (fst x) = or_none notes"
    proof
      assume "fst x \<in> set (suspect_case_links s)"
      then have "scl_id (fst x) \<in> scl_id ` set (suspect_case_links s)" by (rule imageI)
      with fresh id show ?thesis by simp
    next
      assume "fst x = ?row"
      then show ?thesis by simp
    qed
  qed
  from ex all show ?thesis ..
qed

lemma get_project_add_project:
  "add_project s now name d = Inr (m, s5) \<Longrightarrow>
   get_project s5 m = Some \<lparr>pr_id = m, pr_name = name, pr_description = or_none d, pr_created_at = now\<rparr>"
  by (auto simp: add_project_def Let_def get_project_def fetchone_def filter_next_rowid
      split: if_splits)

subsection \<open>Lists of rows\<close>

lemma mset_pair: "mset xs = {#a, b#} \<longleftrightarrow> xs = [a, b] \<or> xs = [b, a]"
proof
  assume m: "mset xs = {#a, b#}"
  then have "length xs = 2" using mset_eq_length [of xs "[a, b]"] by simp
  then obtain x y where xs: "xs = [x, y]"
    by (cases xs; cases "tl xs") auto
  with m show "xs = [a, b] \<or> xs = [b, a]"
    by (auto simp: add_eq_conv_ex)
next
  assume "xs = [a, b] \<or> xs = [b, a]"
  then show "mset xs = {#a, b#}" by auto
qed

lemma order_by_pair:
  "order_by le [a, b] rows \<longleftrightarrow> (rows = [a, b] \<and> le a b) \<or> (rows = [b, a] \<and> le b a)"
proof -
  have "mset rows = mset [a, b] \<longleftrightarrow> rows = [a, b] \<or> rows = [b, a]"
    using mset_pair [of rows b a] by auto
  then show ?thesis unfolding order_by_def by auto
qed

lemma filter_filter_neq:
  "filter (\<lambda>r. f r \<noteq> i) (filter (\<lambda>r. f r \<noteq> i) rows) = filter (\<lambda>r. f r \<noteq> i) rows"
  by simp

lemma filter_eq_filter_neq: "filter (\<lambda>r. f r = i) (filter (\<lambda>r. f r \<noteq> i) rows) = []"
  by (induction rows) auto

lemma distinct_filter_one:
  "distinct (map f rows) \<Longrightarrow> k \<in> f ` set rows \<Longrightarrow> length (filter (\<lambda>r. f r = k) rows) = 1"
proof (induction rows)
  case Nil
  then show ?case by simp
next
  case (Cons r rows)
  show ?case
  proof (cases "f r = k")
    case True
    with Cons.prems(1) have "k \<notin> f ` set rows" by auto
    then have "filter (\<lambda>r. f r = k) rows = []" by (rule filter_eq_absent)
    with True show ?thesis by simp
  next
    case False
    with Cons.prems have "distinct (map f rows)" and "k \<in> f ` set rows" by auto
    then have "length (filter (\<lambda>r. f r = k) rows) = 1" by (rule Cons.IH)
    with False show ?thesis by simp
  qed
qed

subsection \<open>Crime types of a case, and memberships\<close>

lemma set_case_crime_types_two:
  assumes "schema_current s" and "sqlite_int c" and "c \<in> case_ids s" and "A \<noteq> B"
  shows "\<exists>i1 i2. set_case_crime_types s c [A, B] =
     Inr (s\<lparr>case_crime_types := filter (\<lambda>r. cct_case_id r \<noteq> c) (case_crime_types s) @
       [\<lparr>cct_id = i1, cct_case_id = c, cct_crime_type = A, cct_sort_order = 0\<rparr>,
        \<lparr>cct_id = i2, cct_case_id = c, cct_crime_type = B, cct_sort_order = 1\<rparr>]\<rparr>)"
  using assms
  by (auto simp: set_case_crime_types_def insert_or_ignore_crime_type_def case_ids_def
      enumerate_eq_zip schema_current_def all_tables_def)

lemma crime_type_queries:
  assumes "schema_current s" and "sqlite_int c"
    and "filter (\<lambda>r. cct_case_id r = c) (case_crime_types s) =
       [\<lparr>cct_id = i1, cct_case_id = c, cct_crime_type = A, cct_sort_order = 0\<rparr>,
        \<lparr>cct_id = i2, cct_case_id = c, cct_crime_type = B, cct_sort_order = 1\<rparr>]"
  shows "(get_primary_crime_type s c r \<longleftrightarrow> r = Inr (Some A)) \<and>
         (get_case_crime_types s c ts \<longleftrightarrow> ts = Inr [A, B])"
  using assms(1,2)
  by (auto simp: get_primary_crime_type_def get_case_crime_types_def assms(3) order_by_pair
      asc_def fetchone_def schema_current_def all_tables_def)

lemma assign_existing:
  "schema_current s \<Longrightarrow> sqlite_int p \<Longrightarrow> sqlite_int c \<Longrightarrow>
   (p, c) \<in> (\<lambda>r. (pc_project_id r, pc_case_id r)) ` set (project_cases s) \<Longrightarrow>
   assign_case_to_project s now p c = Inr s"
  by (simp add: assign_case_to_project_def schema_current_def all_tables_def)

lemma assign_repeatedly_existing:
  "schema_current s \<Longrightarrow> sqlite_int p \<Longrightarrow> sqlite_int c \<Longrightarrow>
   (p, c) \<in> (\<lambda>r. (pc_project_id r, pc_case_id r)) ` set (project_cases s) \<Longrightarrow>
   assign_repeatedly s nows p c = Inr s"
  by (induction nows) (simp_all add: assign_existing)

lemma assign_first:
  assumes "schema_current s" and "sqlite_int p" and "sqlite_int c"
    and "p \<in> project_ids s" and "c \<in> case_ids s"
  shows "\<exists>s1. assign_case_to_project s now p c = Inr s1 \<and> schema_current s1 \<and>
     (p, c) \<in> (\<lambda>r. (pc_project_id r, pc_case_id r)) ` set (project_cases s1) \<and>
     (distinct (map (\<lambda>r. (pc_project_id r, pc_case_id r)) (project_cases s)) \<longrightarrow>
      distinct (map (\<lambda>r. (pc_project_id r, pc_case_id r)) (project_cases s1)))"
  using assms
  by (auto simp: assign_case_to_project_def schema_current_def all_tables_def)

lemma pair_filter:
  "filter (\<lambda>r. pc_project_id r = p \<and> pc_case_id r = c) rows =
   filter (\<lambda>r. (pc_project_id r, pc_case_id r) = (p, c)) rows"
  by simp

subsection \<open>ORDER BY and the join with the memberships\<close>








section \<open>Invariants\<close>

subsection \<open>Rewriting the rows of cases without touching a key\<close>

lemma fk_ok_update_cases:
  "c_id ` set rows = c_id ` set (cases s) \<Longrightarrow> fk_ok (s\<lparr>cases := rows\<rparr>) = fk_ok s"
  by (simp add: fk_ok_def case_ids_def suspect_ids_def project_ids_def)

lemma keys_ok_update_cases:
  "map c_id rows = map c_id (cases s) \<Longrightarrow> keys_ok (s\<lparr>cases := rows\<rparr>) = keys_ok s"
  by (simp add: keys_ok_def)

lemma fk_ok_map_cases:
  assumes "\<And>r. c_id (f r) = c_id r"
  shows "fk_ok (s\<lparr>cases := map f (cases s)\<rparr>) = fk_ok s"
proof -
  have "c_id ` set (map f (cases s)) = c_id ` set (cases s)"
    using assms by (simp add: image_image)
  then show ?thesis by (rule fk_ok_update_cases)
qed

lemma keys_ok_map_cases:
  assumes "\<And>r. c_id (f r) = c_id r"
  shows "keys_ok (s\<lparr>cases := map f (cases s)\<rparr>) = keys_ok s"
proof -
  have "map c_id (map f (cases s)) = map c_id (cases s)"
    using assms by simp
  then show ?thesis by (rule keys_ok_update_cases)
qed

lemma canonical_update_cases:
  "case_links_canonical (s\<lparr>cases := rows\<rparr>) = case_links_canonical s"
  by (simp add: case_links_canonical_def)

lemma schema_current_update_cases:
  "schema_current (s\<lparr>cases := rows\<rparr>) = schema_current s"
  by (simp add: schema_current_def)

subsection \<open>The steps of the migration\<close>

lemma try_insert_crime_type_frame:
  "tables (try_insert_crime_type r s) = tables s \<and>
   cases_columns (try_insert_crime_type r s) = cases_columns s \<and>
   cases (try_insert_crime_type r s) = cases s \<and>
   case_links (try_insert_crime_type r s) = case_links s \<and>
   project_cases (try_insert_crime_type r s) = project_cases s"
  by (simp add: try_insert_crime_type_def insert_or_ignore_crime_type_def)

lemma fold_try_insert_crime_type_frame:
  "tables (fold try_insert_crime_type rows s) = tables s \<and>
   cases_columns (fold try_insert_crime_type rows s) = cases_columns s \<and>
   cases (fold try_insert_crime_type rows s) = cases s \<and>
   case_links (fold try_insert_crime_type rows s) = case_links s \<and>
   project_cases (fold try_insert_crime_type rows s) = project_cases s"
  by (induction rows arbitrary: s) (simp_all add: try_insert_crime_type_frame)

lemma fk_ok_try_insert_crime_type: "fk_ok s \<Longrightarrow> fk_ok (try_insert_crime_type r s)"
proof (cases "insert_or_ignore_crime_type s (c_id r) (c_crime_type r) 0")
  case (Inl e)
  assume "fk_ok s"
  with Inl show ?thesis by (simp add: try_insert_crime_type_def)
next
  case (Inr s1)
  assume "fk_ok s"
  from fk_ok_insert_or_ignore_crime_type [OF this Inr] Inr
  show ?thesis by (simp add: try_insert_crime_type_def)
qed

lemma fk_ok_fold_try_insert_crime_type:
  "fk_ok s \<Longrightarrow> fk_ok (fold try_insert_crime_type rows s)"
  by (induction rows arbitrary: s) (simp_all add: fk_ok_try_insert_crime_type)

lemma schema_current_fold_try_insert:
  "schema_current (fold try_insert_crime_type rows s) = schema_current s"
  by (simp add: schema_current_def fold_try_insert_crime_type_frame)

lemma canonical_fold_try_insert:
  "case_links_canonical (fold try_insert_crime_type rows s) = case_links_canonical s"
  by (simp add: case_links_canonical_def fold_try_insert_crime_type_frame)

lemma keys_ok_fold_try_insert:
  "keys_ok (fold try_insert_crime_type rows s) = keys_ok s"
  by (simp add: keys_ok_def fold_try_insert_crime_type_frame)

lemma fk_ok_migrate_step3: "fk_ok (migrate_step3 s) = fk_ok s"
  unfolding migrate_step3_def by (rule fk_ok_map_cases) simp

lemma keys_ok_migrate_step3: "keys_ok (migrate_step3 s) = keys_ok s"
  unfolding migrate_step3_def by (rule keys_ok_map_cases) simp

lemma canonical_migrate_step3: "case_links_canonical (migrate_step3 s) = case_links_canonical s"
  unfolding migrate_step3_def by (rule canonical_update_cases)

lemma schema_current_migrate_step3: "schema_current (migrate_step3 s) = schema_current s"
  unfolding migrate_step3_def by (rule schema_current_update_cases)

lemma migrate_step4_cases:
  "\<exists>s1 f. (\<forall>r. c_id (f r) = c_id r) \<and> s1 = fold try_insert_crime_type
        (filter (\<lambda>r. c_crime_type r \<noteq> ''__migrated__'') (cases s)) s \<and>
      migrate_step4 s = s1\<lparr>cases := map f (cases s1)\<rparr>"
proof (cases "filter (\<lambda>r. c_crime_type r \<noteq> ''__migrated__'') (cases s) = []")
  case True
  have "migrate_step4 s = s\<lparr>cases := map (\<lambda>r. r) (cases s)\<rparr>"
    by (simp add: migrate_step4_def True)
  with True show ?thesis
    by - (rule exI [of _ s], rule exI [of _ "\<lambda>r. r"], simp)
next
  case False
  let ?s1 = "fold try_insert_crime_type
        (filter (\<lambda>r. c_crime_type r \<noteq> ''__migrated__'') (cases s)) s"
  let ?f = "\<lambda>r. if c_crime_type r \<noteq> ''__migrated__''
                   then r\<lparr>c_crime_type := ''__migrated__''\<rparr> else r"
  have "migrate_step4 s = ?s1\<lparr>cases := map ?f (cases ?s1)\<rparr>"
    using False by (simp add: migrate_step4_def Let_def)
  moreover have "\<forall>r. c_id (?f r) = c_id r" by simp
  ultimately show ?thesis
    by - (rule exI [of _ ?s1], rule exI [of _ ?f], simp)
qed

lemma fk_ok_migrate_step4: "fk_ok s \<Longrightarrow> fk_ok (migrate_step4 s)"
proof -
  assume a: "fk_ok s"
  from migrate_step4_cases [of s] obtain s1 f where
    f: "\<And>r. c_id (f r) = c_id r" and
    s1: "s1 = fold try_insert_crime_type
        (filter (\<lambda>r. c_crime_type r \<noteq> ''__migrated__'') (cases s)) s" and
    eq: "migrate_step4 s = s1\<lparr>cases := map f (cases s1)\<rparr>"
    by blast
  from a have "fk_ok s1" unfolding s1 by (rule fk_ok_fold_try_insert_crime_type)
  then show ?thesis unfolding eq by (simp add: fk_ok_map_cases [of f, OF f])
qed

lemma keys_ok_migrate_step4: "keys_ok (migrate_step4 s) = keys_ok s"
proof -
  from migrate_step4_cases [of s] obtain s1 f where
    f: "\<And>r. c_id (f r) = c_id r" and
    s1: "s1 = fold try_insert_crime_type
        (filter (\<lambda>r. c_crime_type r \<noteq> ''__migrated__'') (cases s)) s" and
    eq: "migrate_step4 s = s1\<lparr>cases := map f (cases s1)\<rparr>"
    by blast
  have "keys_ok (migrate_step4 s) = keys_ok s1"
    unfolding eq by (rule keys_ok_map_cases) (rule f)
  also have "\<dots> = keys_ok s" unfolding s1 by (rule keys_ok_fold_try_insert)
  finally show ?thesis .
qed

lemma canonical_migrate_step4: "case_links_canonical (migrate_step4 s) = case_links_canonical s"
proof -
  from migrate_step4_cases [of s] obtain s1 f where
    s1: "s1 = fold try_insert_crime_type
        (filter (\<lambda>r. c_crime_type r \<noteq> ''__migrated__'') (cases s)) s" and
    eq: "migrate_step4 s = s1\<lparr>cases := map f (cases s1)\<rparr>"
    by blast
  have "case_links_canonical (migrate_step4 s) = case_links_canonical s1"
    unfolding eq by (rule canonical_update_cases)
  also have "\<dots> = case_links_canonical s" unfolding s1 by (rule canonical_fold_try_insert)
  finally show ?thesis .
qed

lemma schema_current_migrate_step4: "schema_current (migrate_step4 s) = schema_current s"
proof -
  from migrate_step4_cases [of s] obtain s1 f where
    s1: "s1 = fold try_insert_crime_type
        (filter (\<lambda>r. c_crime_type r \<noteq> ''__migrated__'') (cases s)) s" and
    eq: "migrate_step4 s = s1\<lparr>cases := map f (cases s1)\<rparr>"
    by blast
  have "schema_current (migrate_step4 s) = schema_current s1"
    unfolding eq by (rule schema_current_update_cases)
  also have "\<dots> = schema_current s" unfolding s1 by (rule schema_current_fold_try_insert)
  finally show ?thesis .
qed

lemma migrate_step5_cases:
  "\<exists>f. (\<forall>r. c_id (f r) = c_id r) \<and> migrate_step5 s = s\<lparr>cases := map f (cases s)\<rparr>"
proof -
  let ?f1 = "\<lambda>r. if c_status r = ''Open'' \<or> c_status r = ''Linked''
                    then r\<lparr>c_status := ''Active''\<rparr> else r"
  let ?f2 = "\<lambda>r. if c_status r = ''Closed'' then r\<lparr>c_status := ''Solved''\<rparr> else r"
  have "migrate_step5 s = s\<lparr>cases := map (\<lambda>r. ?f2 (?f1 r)) (cases s)\<rparr>"
    by (simp add: migrate_step5_def Let_def comp_def)
  moreover have "\<forall>r. c_id (?f2 (?f1 r)) = c_id r" by simp
  ultimately show ?thesis
    by - (rule exI [of _ "\<lambda>r. ?f2 (?f1 r)"], simp)
qed

lemma fk_ok_migrate_step5: "fk_ok (migrate_step5 s) = fk_ok s"
proof -
  from migrate_step5_cases [of s] obtain f where
    f: "\<And>r. c_id (f r) = c_id r" and eq: "migrate_step5 s = s\<lparr>cases := map f (cases s)\<rparr>"
    by blast
  show ?thesis unfolding eq by (rule fk_ok_map_cases) (rule f)
qed

lemma keys_ok_migrate_step5: "keys_ok (migrate_step5 s) = keys_ok s"
proof -
  from migrate_step5_cases [of s] obtain f where
    f: "\<And>r. c_id (f r) = c_id r" and eq: "migrate_step5 s = s\<lparr>cases := map f (cases s)\<rparr>"
    by blast
  show ?thesis unfolding eq by (rule keys_ok_map_cases) (rule f)
qed

lemma canonical_migrate_step5: "case_links_canonical (migrate_step5 s) = case_links_canonical s"
proof -
  from migrate_step5_cases [of s] obtain f where
    eq: "migrate_step5 s = s\<lparr>cases := map f (cases s)\<rparr>"
    by blast
  show ?thesis unfolding eq by (rule canonical_update_cases)
qed

lemma schema_current_migrate_step5: "schema_current (migrate_step5 s) = schema_current s"
proof -
  from migrate_step5_cases [of s] obtain f where
    eq: "migrate_step5 s = s\<lparr>cases := map f (cases s)\<rparr>"
    by blast
  show ?thesis unfolding eq by (rule schema_current_update_cases)
qed

lemma fk_ok_migrate_db:
  assumes "schema_current s" and "fk_ok s" and "migrate_db s = Inr s'"
  shows "fk_ok s'"
proof -
  from migrate_db_current [OF assms(1)] assms(3)
  have s': "s' = migrate_step5 (migrate_step4 (migrate_step3 s))" by simp
  from assms(2) have "fk_ok (migrate_step3 s)" by (simp add: fk_ok_migrate_step3)
  then have "fk_ok (migrate_step4 (migrate_step3 s))" by (rule fk_ok_migrate_step4)
  then show ?thesis by (simp add: s' fk_ok_migrate_step5)
qed

lemma keys_ok_migrate_db:
  "schema_current s \<Longrightarrow> keys_ok s \<Longrightarrow> migrate_db s = Inr s' \<Longrightarrow> keys_ok s'"
  by (auto simp: migrate_db_current keys_ok_migrate_step5 keys_ok_migrate_step4
      keys_ok_migrate_step3)

lemma canonical_migrate_db:
  "schema_current s \<Longrightarrow> case_links_canonical s \<Longrightarrow> migrate_db s = Inr s' \<Longrightarrow>
   case_links_canonical s'"
  by (auto simp: migrate_db_current canonical_migrate_step5 canonical_migrate_step4
      canonical_migrate_step3)

lemma schema_current_migrate_db:
  "schema_current s \<Longrightarrow> migrate_db s = Inr s' \<Longrightarrow> schema_current s'"
  by (auto simp: migrate_db_current schema_current_migrate_step5 schema_current_migrate_step4
      schema_current_migrate_step3)

subsection \<open>An UPDATE that may change the key\<close>

lemma ids_after_update:
  assumes "\<And>r. key r = i \<Longrightarrow> key (F r) = n"
  shows "map key (map (\<lambda>r. if key r = i then F r else r) rows) =
         map (\<lambda>x. if x = i then n else x) (map key rows)"
  by (induction rows) (simp_all add: assms)

lemma ids_kept: "x \<in> I \<Longrightarrow> x \<noteq> i \<Longrightarrow> x \<in> (\<lambda>x. if x = i then n else x) ` I"
  by (rule image_eqI [of _ _ x]) simp_all

lemma distinct_after_update:
  assumes "distinct ids" and "n = i \<or> n \<notin> set ids"
  shows "distinct (map (\<lambda>x. if x = i then n else x) ids)"
proof -
  from assms(2) have "inj_on (\<lambda>x. if x = i then n else x) (set ids)"
    by (auto simp: inj_on_def split: if_splits)
  with assms(1) show ?thesis by (simp add: distinct_map)
qed

lemma update_case_result:
  assumes "update_case s i flds = Inr s'"
  shows "s' = s \<or>
     (\<exists>n. (n = i \<or> (n \<notin> case_ids s \<and> \<not> case_referenced s i)) \<and>
          map c_id (cases s') = map (\<lambda>x. if x = i then n else x) (map c_id (cases s)) \<and>
          s' = s\<lparr>cases := cases s'\<rparr>)"
proof -
  let ?n = "c_id (fold set_case_field flds \<lparr>c_id = i, c_title = [],
              c_crime_type = [], c_date_occurred = [], c_address = None, c_latitude = None,
              c_longitude = None, c_crime_scene_address = None, c_crime_scene_lat = None,
              c_crime_scene_lon = None, c_body_found_address = None, c_body_found_lat = None,
              c_body_found_lon = None, c_is_murder = 0, c_victim_count = None,
              c_mo_description = None, c_victim_profile = None, c_status = [],
              c_created_at = []\<rparr>)"
  have key: "c_id (fold set_case_field flds r) = ?n" if "c_id r = i" for r
  proof -
    from that have "c_id r = c_id \<lparr>c_id = i, c_title = [],
              c_crime_type = [], c_date_occurred = [], c_address = None, c_latitude = None,
              c_longitude = None, c_crime_scene_address = None, c_crime_scene_lat = None,
              c_crime_scene_lon = None, c_body_found_address = None, c_body_found_lat = None,
              c_body_found_lon = None, c_is_murder = 0, c_victim_count = None,
              c_mo_description = None, c_victim_profile = None, c_status = [],
              c_created_at = []\<rparr>" by simp
    then show ?thesis by (rule fold_case_id)
  qed
  have ids: "map c_id (map (\<lambda>r. if c_id r = i then fold set_case_field flds r else r) (cases s)) =
         map (\<lambda>x. if x = i then ?n else x) (map c_id (cases s))"
    by (rule ids_after_update) (rule key)
  from assms have "s' = s \<or>
     ((?n = i \<or> (?n \<notin> case_ids s \<and> \<not> case_referenced s i)) \<and>
      s' = s\<lparr>cases := map (\<lambda>r. if c_id r = i then fold set_case_field flds r else r) (cases s)\<rparr>)"
    by (auto simp: update_case_def Let_def split: if_splits)
  then show ?thesis
  proof
    assume "s' = s"
    then show ?thesis ..
  next
    assume a: "(?n = i \<or> (?n \<notin> case_ids s \<and> \<not> case_referenced s i)) \<and>
      s' = s\<lparr>cases := map (\<lambda>r. if c_id r = i then fold set_case_field flds r else r) (cases s)\<rparr>"
    then have s': "s' = s\<lparr>cases := map (\<lambda>r. if c_id r = i then fold set_case_field flds r else r) (cases s)\<rparr>"
      by simp
    have t: "cases s' = map (\<lambda>r. if c_id r = i then fold set_case_field flds r else r) (cases s)"
      by (simp add: s')
    have "(?n = i \<or> (?n \<notin> case_ids s \<and> \<not> case_referenced s i)) \<and>
          map c_id (cases s') = map (\<lambda>x. if x = i then ?n else x) (map c_id (cases s)) \<and>
          s' = s\<lparr>cases := cases s'\<rparr>"
      using a ids unfolding t by simp
    then show ?thesis by (intro disjI2 exI [of _ ?n])
  qed
qed

lemma update_case_ids:
  assumes "update_case s i flds = Inr s'" and "x \<in> case_ids s"
    and "\<not> case_referenced s i \<Longrightarrow> x \<noteq> i"
  shows "x \<in> case_ids s'"
proof -
  from update_case_result [OF assms(1)] show ?thesis
  proof
    assume "s' = s"
    with assms(2) show ?thesis by simp
  next
    assume "\<exists>n. (n = i \<or> (n \<notin> case_ids s \<and> \<not> case_referenced s i)) \<and>
          map c_id (cases s') = map (\<lambda>x. if x = i then n else x) (map c_id (cases s)) \<and>
          s' = s\<lparr>cases := cases s'\<rparr>"
    then obtain n where n: "n = i \<or> (n \<notin> case_ids s \<and> \<not> case_referenced s i)"
      and m: "map c_id (cases s') = map (\<lambda>x. if x = i then n else x) (map c_id (cases s))"
      by blast
    from m have "set (map c_id (cases s')) = set (map (\<lambda>x. if x = i then n else x) (map c_id (cases s)))"
      by (rule arg_cong)
    then have img: "case_ids s' = (\<lambda>x. if x = i then n else x) ` case_ids s"
      unfolding case_ids_def by (simp only: set_map)
    show ?thesis
    proof (cases "x = i")
      case True
      with assms(3) n have "n = i" by blast
      with True assms(2) show ?thesis unfolding img by (intro image_eqI [of _ _ x]) simp_all
    next
      case False
      with assms(2) show ?thesis unfolding img by (rule ids_kept)
    qed
  qed
qed

lemma update_case_frame:
  assumes "update_case s i flds = Inr s'"
  shows "s' = s\<lparr>cases := cases s'\<rparr>"
proof -
  from update_case_result [OF assms] show ?thesis
  proof
    assume "s' = s"
    then show ?thesis by simp
  next
    assume "\<exists>n. (n = i \<or> (n \<notin> case_ids s \<and> \<not> case_referenced s i)) \<and>
          map c_id (cases s') = map (\<lambda>x. if x = i then n else x) (map c_id (cases s)) \<and>
          s' = s\<lparr>cases := cases s'\<rparr>"
    then show ?thesis by blast
  qed
qed

lemma update_suspect_result:
  assumes "update_suspect s i flds = Inr s'"
  shows "s' = s \<or>
     (\<exists>n. (n = i \<or> (n \<notin> suspect_ids s \<and> \<not> suspect_referenced s i)) \<and>
          map su_id (suspects s') = map (\<lambda>x. if x = i then n else x) (map su_id (suspects s)) \<and>
          s' = s\<lparr>suspects := suspects s'\<rparr>)"
proof -
  let ?n = "su_id (fold set_suspect_field flds \<lparr>su_id = i, su_name = [],
              su_description = None, su_known_aliases = None, su_created_at = []\<rparr>)"
  have key: "su_id (fold set_suspect_field flds r) = ?n" if "su_id r = i" for r
  proof -
    from that have "su_id r = su_id \<lparr>su_id = i, su_name = [],
              su_description = None, su_known_aliases = None, su_created_at = []\<rparr>" by simp
    then show ?thesis by (rule fold_suspect_id)
  qed
  have ids: "map su_id (map (\<lambda>r. if su_id r = i then fold set_suspect_field flds r else r) (suspects s)) =
         map (\<lambda>x. if x = i then ?n else x) (map su_id (suspects s))"
    by (rule ids_after_update) (rule key)
  from assms have "s' = s \<or>
     ((?n = i \<or> (?n \<notin> suspect_ids s \<and> \<not> suspect_referenced s i)) \<and>
      s' = s\<lparr>suspects := map (\<lambda>r. if su_id r = i then fold set_suspect_field flds r else r) (suspects s)\<rparr>)"
    by (auto simp: update_suspect_def Let_def split: if_splits)
  then show ?thesis
  proof
    assume "s' = s"
    then show ?thesis ..
  next
    assume a: "(?n = i \<or> (?n \<notin> suspect_ids s \<and> \<not> suspect_referenced s i)) \<and>
      s' = s\<lparr>suspects := map (\<lambda>r. if su_id r = i then fold set_suspect_field flds r else r) (suspects s)\<rparr>"
    then have s': "s' = s\<lparr>suspects := map (\<lambda>r. if su_id r = i then fold set_suspect_field flds r else r) (suspects s)\<rparr>"
      by simp
    have t: "suspects s' = map (\<lambda>r. if su_id r = i then fold set_suspect_field flds r else r) (suspects s)"
      by (simp add: s')
    have "(?n = i \<or> (?n \<notin> suspect_ids s \<and> \<not> suspect_referenced s i)) \<and>
          map su_id (suspects s') = map (\<lambda>x. if x = i then ?n else x) (map su_id (suspects s)) \<and>
          s' = s\<lparr>suspects := suspects s'\<rparr>"
      using a ids unfolding t by simp
    then show ?thesis by (intro disjI2 exI [of _ ?n])
  qed
qed

lemma update_suspect_ids:
  assumes "update_suspect s i flds = Inr s'" and "x \<in> suspect_ids s"
    and "\<not> suspect_referenced s i \<Longrightarrow> x \<noteq> i"
  shows "x \<in> suspect_ids s'"
proof -
  from update_suspect_result [OF assms(1)] show ?thesis
  proof
    assume "s' = s"
    with assms(2) show ?thesis by simp
  next
    assume "\<exists>n. (n = i \<or> (n \<notin> suspect_ids s \<and> \<not> suspect_referenced s i)) \<and>
          map su_id (suspects s') = map (\<lambda>x. if x = i then n else x) (map su_id (suspects s)) \<and>
          s' = s\<lparr>suspects := suspects s'\<rparr>"
    then obtain n where n: "n = i \<or> (n \<notin> suspect_ids s \<and> \<not> suspect_referenced s i)"
      and m: "map su_id (suspects s') = map (\<lambda>x. if x = i then n else x) (map su_id (suspects s))"
      by blast
    from m have "set (map su_id (suspects s')) = set (map (\<lambda>x. if x = i then n else x) (map su_id (suspects s)))"
      by (rule arg_cong)
    then have img: "suspect_ids s' = (\<lambda>x. if x = i then n else x) ` suspect_ids s"
      unfolding suspect_ids_def by (simp only: set_map)
    show ?thesis
    proof (cases "x = i")
      case True
      with assms(3) n have "n = i" by blast
      with True assms(2) show ?thesis unfolding img by (intro image_eqI [of _ _ x]) simp_all
    next
      case False
      with assms(2) show ?thesis unfolding img by (rule ids_kept)
    qed
  qed
qed

lemma update_suspect_frame:
  assumes "update_suspect s i flds = Inr s'"
  shows "s' = s\<lparr>suspects := suspects s'\<rparr>"
proof -
  from update_suspect_result [OF assms] show ?thesis
  proof
    assume "s' = s"
    then show ?thesis by simp
  next
    assume "\<exists>n. (n = i \<or> (n \<notin> suspect_ids s \<and> \<not> suspect_referenced s i)) \<and>
          map su_id (suspects s') = map (\<lambda>x. if x = i then n else x) (map su_id (suspects s)) \<and>
          s' = s\<lparr>suspects := suspects s'\<rparr>"
    then show ?thesis by blast
  qed
qed

lemma update_project_result:
  assumes "update_project s i flds = Inr s'"
  shows "s' = s \<or>
     (\<exists>n. (n = i \<or> (n \<notin> project_ids s \<and> \<not> i \<in> pc_project_id ` set (project_cases s))) \<and>
          map pr_id (projects s') = map (\<lambda>x. if x = i then n else x) (map pr_id (projects s)) \<and>
          s' = s\<lparr>projects := projects s'\<rparr>)"
proof -
  let ?n = "pr_id (fold set_project_field flds \<lparr>pr_id = i, pr_name = [],
              pr_description = None, pr_created_at = []\<rparr>)"
  have key: "pr_id (fold set_project_field flds r) = ?n" if "pr_id r = i" for r
  proof -
    from that have "pr_id r = pr_id \<lparr>pr_id = i, pr_name = [],
              pr_description = None, pr_created_at = []\<rparr>" by simp
    then show ?thesis by (rule fold_project_id)
  qed
  have ids: "map pr_id (map (\<lambda>r. if pr_id r = i then fold set_project_field flds r else r) (projects s)) =
         map (\<lambda>x. if x = i then ?n else x) (map pr_id (projects s))"
    by (rule ids_after_update) (rule key)
  from assms have "s' = s \<or>
     ((?n = i \<or> (?n \<notin> project_ids s \<and> \<not> i \<in> pc_project_id ` set (project_cases s))) \<and>
      s' = s\<lparr>projects := map (\<lambda>r. if pr_id r = i then fold set_project_field flds r else r) (projects s)\<rparr>)"
    by (auto simp: update_project_def Let_def split: if_splits)
  then show ?thesis
  proof
    assume "s' = s"
    then show ?thesis ..
  next
    assume a: "(?n = i \<or> (?n \<notin> project_ids s \<and> \<not> i \<in> pc_project_id ` set (project_cases s))) \<and>
      s' = s\<lparr>projects := map (\<lambda>r. if pr_id r = i then fold set_project_field flds r else r) (projects s)\<rparr>"
    then have s': "s' = s\<lparr>projects := map (\<lambda>r. if pr_id r = i then fold set_project_field flds r else r) (projects s)\<rparr>"
      by simp
    have t: "projects s' = map (\<lambda>r. if pr_id r = i then fold set_project_field flds r else r) (projects s)"
      by (simp add: s')
    have "(?n = i \<or> (?n \<notin> project_ids s \<and> \<not> i \<in> pc_project_id ` set (project_cases s))) \<and>
          map pr_id (projects s') = map (\<lambda>x. if x = i then ?n else x) (map pr_id (projects s)) \<and>
          s' = s\<lparr>projects := projects s'\<rparr>"
      using a ids unfolding t by simp
    then show ?thesis by (intro disjI2 exI [of _ ?n])
  qed
qed

lemma update_project_ids:
  assumes "update_project s i flds = Inr s'" and "x \<in> project_ids s"
    and "\<not> i \<in> pc_project_id ` set (project_cases s) \<Longrightarrow> x \<noteq> i"
  shows "x \<in> project_ids s'"
proof -
  from update_project_result [OF assms(1)] show ?thesis
  proof
    assume "s' = s"
    with assms(2) show ?thesis by simp
  next
    assume "\<exists>n. (n = i \<or> (n \<notin> project_ids s \<and> \<not> i \<in> pc_project_id ` set (project_cases s))) \<and>
          map pr_id (projects s') = map (\<lambda>x. if x = i then n else x) (map pr_id (projects s)) \<and>
          s' = s\<lparr>projects := projects s'\<rparr>"
    then obtain n where n: "n = i \<or> (n \<notin> project_ids s \<and> \<not> i \<in> pc_project_id ` set (project_cases s))"
      and m: "map pr_id (projects s') = map (\<lambda>x. if x = i then n else x) (map pr_id (projects s))"
      by blast
    from m have "set (map pr_id (projects s')) = set (map (\<lambda>x. if x = i then n else x) (map pr_id (projects s)))"
      by (rule arg_cong)
    then have img: "project_ids s' = (\<lambda>x. if x = i then n else x) ` project_ids s"
      unfolding project_ids_def by (simp only: set_map)
    show ?thesis
    proof (cases "x = i")
      case True
      with assms(3) n have "n = i" by blast
      with True assms(2) show ?thesis unfolding img by (intro image_eqI [of _ _ x]) simp_all
    next
      case False
      with assms(2) show ?thesis unfolding img by (rule ids_kept)
    qed
  qed
qed

lemma update_project_frame:
  assumes "update_project s i flds = Inr s'"
  shows "s' = s\<lparr>projects := projects s'\<rparr>"
proof -
  from update_project_result [OF assms] show ?thesis
  proof
    assume "s' = s"
    then show ?thesis by simp
  next
    assume "\<exists>n. (n = i \<or> (n \<notin> project_ids s \<and> \<not> i \<in> pc_project_id ` set (project_cases s))) \<and>
          map pr_id (projects s') = map (\<lambda>x. if x = i then n else x) (map pr_id (projects s)) \<and>
          s' = s\<lparr>projects := projects s'\<rparr>"
    then show ?thesis by blast
  qed
qed

lemma fk_ok_update_case:
  assumes "fk_ok s" and "update_case s i flds = Inr s'"
  shows "fk_ok s'"
proof -
  have keep: "x \<in> case_ids s'" if "x \<in> case_ids s" and "case_referenced s x" for x
    using assms(2) that(1)
  proof (rule update_case_ids)
    assume "\<not> case_referenced s i"
    with that(2) show "x \<noteq> i" by auto
  qed
  from update_case_frame [OF assms(2)] have fr: "s' = s\<lparr>cases := cases s'\<rparr>" .
  have tabs: "case_crime_types s' = case_crime_types s" "case_tags s' = case_tags s"
    "suspect_crime_history s' = suspect_crime_history s"
    "suspect_case_links s' = suspect_case_links s" "case_links s' = case_links s"
    "timeline_events s' = timeline_events s" "project_cases s' = project_cases s"
    "suspects s' = suspects s" "projects s' = projects s"
    by (subst fr, simp)+
  from assms(1) show ?thesis
    unfolding fk_ok_alt tabs suspect_ids_def project_ids_def
    by (auto intro!: keep simp: case_referenced_def)
qed

lemma fk_ok_update_suspect:
  assumes "fk_ok s" and "update_suspect s i flds = Inr s'"
  shows "fk_ok s'"
proof -
  have keep: "x \<in> suspect_ids s'" if "x \<in> suspect_ids s" and "suspect_referenced s x" for x
    using assms(2) that(1)
  proof (rule update_suspect_ids)
    assume "\<not> suspect_referenced s i"
    with that(2) show "x \<noteq> i" by auto
  qed
  from update_suspect_frame [OF assms(2)] have fr: "s' = s\<lparr>suspects := suspects s'\<rparr>" .
  have tabs: "case_crime_types s' = case_crime_types s" "case_tags s' = case_tags s"
    "suspect_crime_history s' = suspect_crime_history s"
    "suspect_case_links s' = suspect_case_links s" "case_links s' = case_links s"
    "timeline_events s' = timeline_events s" "project_cases s' = project_cases s"
    "cases s' = cases s" "projects s' = projects s"
    by (subst fr, simp)+
  from assms(1) show ?thesis
    unfolding fk_ok_alt tabs case_ids_def project_ids_def
    by (auto intro!: keep simp: suspect_referenced_def)
qed

lemma fk_ok_update_project:
  assumes "fk_ok s" and "update_project s i flds = Inr s'"
  shows "fk_ok s'"
proof -
  have keep: "x \<in> project_ids s'"
    if "x \<in> project_ids s" and "x \<in> pc_project_id ` set (project_cases s)" for x
    using assms(2) that(1)
  proof (rule update_project_ids)
    assume "i \<notin> pc_project_id ` set (project_cases s)"
    with that(2) show "x \<noteq> i" by auto
  qed
  from update_project_frame [OF assms(2)] have fr: "s' = s\<lparr>projects := projects s'\<rparr>" .
  have tabs: "case_crime_types s' = case_crime_types s" "case_tags s' = case_tags s"
    "suspect_crime_history s' = suspect_crime_history s"
    "suspect_case_links s' = suspect_case_links s" "case_links s' = case_links s"
    "timeline_events s' = timeline_events s" "project_cases s' = project_cases s"
    "cases s' = cases s" "suspects s' = suspects s"
    by (subst fr, simp)+
  from assms(1) show ?thesis
    unfolding fk_ok_alt tabs case_ids_def suspect_ids_def
    by (auto intro!: keep)
qed

lemma keys_ok_update_case:
  assumes "keys_ok s" and "update_case s i flds = Inr s'"
  shows "keys_ok s'"
proof -
  from update_case_result [OF assms(2)] show ?thesis
  proof
    assume "s' = s"
    with assms(1) show ?thesis by simp
  next
    assume "\<exists>n. (n = i \<or> (n \<notin> case_ids s \<and> \<not> case_referenced s i)) \<and>
          map c_id (cases s') = map (\<lambda>x. if x = i then n else x) (map c_id (cases s)) \<and>
          s' = s\<lparr>cases := cases s'\<rparr>"
    then obtain n where n: "n = i \<or> n \<notin> case_ids s"
      and m: "map c_id (cases s') = map (\<lambda>x. if x = i then n else x) (map c_id (cases s))"
      and fr: "s' = s\<lparr>cases := cases s'\<rparr>"
      by blast
    from n have n': "n = i \<or> n \<notin> set (map c_id (cases s))" by (simp add: case_ids_def)
    from assms(1) have "distinct (map c_id (cases s))" by (simp add: keys_ok_def)
    from distinct_after_update [OF this n'] have d: "distinct (map c_id (cases s'))"
      unfolding m .
    have "project_cases s' = project_cases s" by (subst fr) simp
    with d assms(1) show ?thesis by (simp add: keys_ok_def)
  qed
qed

subsection \<open>What the INSERT OR IGNORE loops leave alone\<close>

lemma insert_or_ignore_crime_type_frame:
  "insert_or_ignore_crime_type s c ct i = Inr s' \<Longrightarrow>
   tables s' = tables s \<and> cases_columns s' = cases_columns s \<and> cases s' = cases s \<and>
   case_links s' = case_links s \<and> project_cases s' = project_cases s"
  by (auto simp: insert_or_ignore_crime_type_def split: if_splits)

lemma insert_crime_types_frame:
  "insert_crime_types s c xs = Inr s' \<Longrightarrow>
   tables s' = tables s \<and> cases_columns s' = cases_columns s \<and> cases s' = cases s \<and>
   case_links s' = case_links s \<and> project_cases s' = project_cases s"
proof (induction xs arbitrary: s)
  case Nil
  then show ?case by simp
next
  case (Cons x xs)
  obtain i ct where x: "x = (i, ct)" by (cases x)
  from Cons.prems obtain s1 where
    s1: "insert_or_ignore_crime_type s c ct (int i) = Inr s1" and
    rest: "insert_crime_types s1 c xs = Inr s'"
    by (auto simp: x split: sum.splits)
  from insert_or_ignore_crime_type_frame [OF s1] Cons.IH [OF rest] show ?case by simp
qed

lemma set_case_crime_types_frame:
  "set_case_crime_types s c cts = Inr s' \<Longrightarrow>
   tables s' = tables s \<and> cases_columns s' = cases_columns s \<and> cases s' = cases s \<and>
   case_links s' = case_links s \<and> project_cases s' = project_cases s"
  by (drule set_case_crime_types_Inr, drule insert_crime_types_frame) simp

lemma insert_or_ignore_tag_frame:
  "insert_or_ignore_tag s c tag = Inr s' \<Longrightarrow>
   tables s' = tables s \<and> cases_columns s' = cases_columns s \<and> cases s' = cases s \<and>
   case_links s' = case_links s \<and> project_cases s' = project_cases s"
  by (auto simp: insert_or_ignore_tag_def split: if_splits)

lemma insert_tags_frame:
  "insert_tags s c xs = Inr s' \<Longrightarrow>
   tables s' = tables s \<and> cases_columns s' = cases_columns s \<and> cases s' = cases s \<and>
   case_links s' = case_links s \<and> project_cases s' = project_cases s"
proof (induction xs arbitrary: s)
  case Nil
  then show ?case by simp
next
  case (Cons x xs)
  from Cons.prems obtain s1 where
    s1: "insert_or_ignore_tag s c x = Inr s1" and
    rest: "insert_tags s1 c xs = Inr s'"
    by (auto split: sum.splits)
  from insert_or_ignore_tag_frame [OF s1] Cons.IH [OF rest] show ?case by simp
qed

lemma set_case_tags_frame:
  "set_case_tags s c tags = Inr s' \<Longrightarrow>
   tables s' = tables s \<and> cases_columns s' = cases_columns s \<and> cases s' = cases s \<and>
   case_links s' = case_links s \<and> project_cases s' = project_cases s"
  unfolding set_case_tags_def by (drule insert_tags_frame) simp

subsection \<open>Every operation keeps the constraints\<close>

lemma schema_current_exec:
  assumes "schema_current s" and "exec oper s = Inr s'"
  shows "schema_current s'"
proof (cases oper)
  case Init_db
  with assms show ?thesis by (simp add: init_db_current)
next
  case Migrate_db
  with assms show ?thesis by (auto intro: schema_current_migrate_db)
next
  case (Add_case now title date status mo vp murder vc csa cslat cslon bfa bflat bflon)
  from assms have e: "s' = snd (add_case s now title date status mo vp murder vc csa cslat cslon bfa bflat bflon)" by (simp add: Add_case)
  from assms(1) show ?thesis unfolding e by (simp add: schema_current_def add_case_def Let_def)
next
  case (Update_case i flds)
  from assms have e: "update_case s i flds = Inr s'" by (simp add: Update_case)
  from update_case_frame [OF e] have fr: "s' = s\<lparr>cases := cases s'\<rparr>" .
  have fe: "tables s' = tables s" "cases_columns s' = cases_columns s"
    by (subst fr, simp)+
  from assms(1) show ?thesis by (simp add: schema_current_def fe)
next
  case (Delete_case i)
  from assms have e: "delete_case s i = Inr s'" by (simp add: Delete_case)
  from assms(1) e show ?thesis
    by (auto simp: schema_current_def delete_case_def Let_def split: if_splits)
next
  case (Set_case_crime_types i cts)
  from assms have e: "set_case_crime_types s i cts = Inr s'" by (simp add: Set_case_crime_types)
  from set_case_crime_types_frame [OF e] have fe: "tables s' = tables s" "cases_columns s' = cases_columns s"
    by simp_all
  from assms(1) show ?thesis by (simp add: schema_current_def fe)
next
  case (Set_case_tags i tags)
  from assms have e: "set_case_tags s i tags = Inr s'" by (simp add: Set_case_tags)
  from set_case_tags_frame [OF e] have fe: "tables s' = tables s" "cases_columns s' = cases_columns s"
    by simp_all
  from assms(1) show ?thesis by (simp add: schema_current_def fe)
next
  case (Add_suspect now name d a)
  from assms have e: "s' = snd (add_suspect s now name d a)" by (simp add: Add_suspect)
  from assms(1) show ?thesis unfolding e by (simp add: schema_current_def add_suspect_def Let_def)
next
  case (Update_suspect i flds)
  from assms have e: "update_suspect s i flds = Inr s'" by (simp add: Update_suspect)
  from update_suspect_frame [OF e] have fr: "s' = s\<lparr>suspects := suspects s'\<rparr>" .
  have fe: "tables s' = tables s" "cases_columns s' = cases_columns s"
    by (subst fr, simp)+
  from assms(1) show ?thesis by (simp add: schema_current_def fe)
next
  case (Delete_suspect i)
  from assms have e: "delete_suspect s i = Inr s'" by (simp add: Delete_suspect)
  from assms(1) e show ?thesis
    by (auto simp: schema_current_def delete_suspect_def Let_def split: if_splits)
next
  case (Add_suspect_crime_history now i ct d cs nt)
  from assms obtain k where e: "add_suspect_crime_history s now i ct d cs nt = Inr (k, s')"
    by (auto simp: Add_suspect_crime_history map_sum_snd_Inr)
  from assms(1) e show ?thesis
    by (auto simp: schema_current_def add_suspect_crime_history_def Let_def split: if_splits)
next
  case (Delete_suspect_crime_history_entry i)
  from assms have e: "delete_suspect_crime_history_entry s i = Inr s'" by (simp add: Delete_suspect_crime_history_entry)
  from assms(1) e show ?thesis
    by (auto simp: schema_current_def delete_suspect_crime_history_entry_def Let_def split: if_splits)
next
  case (Link_suspect_to_case now u c t nt)
  from assms obtain k where e: "link_suspect_to_case s now u c t nt = Inr (k, s')"
    by (auto simp: Link_suspect_to_case map_sum_snd_Inr)
  from assms(1) e show ?thesis
    by (auto simp: schema_current_def link_suspect_to_case_def Let_def split: if_splits)
next
  case (Delete_suspect_case_link i)
  from assms have e: "delete_suspect_case_link s i = Inr s'" by (simp add: Delete_suspect_case_link)
  from assms(1) e show ?thesis
    by (auto simp: schema_current_def delete_suspect_case_link_def Let_def split: if_splits)
next
  case (Link_cases now a b sn)
  from assms obtain k where e: "link_cases s now a b sn = Inr (k, s')"
    by (auto simp: Link_cases map_sum_snd_Inr)
  from assms(1) e show ?thesis
    by (auto simp: schema_current_def link_cases_def Let_def split: if_splits)
next
  case (Delete_case_link i)
  from assms have e: "delete_case_link s i = Inr s'" by (simp add: Delete_case_link)
  from assms(1) e show ?thesis
    by (auto simp: schema_current_def delete_case_link_def Let_def split: if_splits)
next
  case (Add_timeline_event now c ts title d)
  from assms obtain k where e: "add_timeline_event s now c ts title d = Inr (k, s')"
    by (auto simp: Add_timeline_event map_sum_snd_Inr)
  from assms(1) e show ?thesis
    by (auto simp: schema_current_def add_timeline_event_def Let_def split: if_splits)
next
  case (Delete_timeline_event i)
  from assms have e: "delete_timeline_event s i = Inr s'" by (simp add: Delete_timeline_event)
  from assms(1) e show ?thesis
    by (auto simp: schema_current_def delete_timeline_event_def Let_def split: if_splits)
next
  case (Add_project now name d)
  from assms obtain k where e: "add_project s now name d = Inr (k, s')"
    by (auto simp: Add_project map_sum_snd_Inr)
  from assms(1) e show ?thesis
    by (auto simp: schema_current_def add_project_def Let_def split: if_splits)
next
  case (Update_project i flds)
  from assms have e: "update_project s i flds = Inr s'" by (simp add: Update_project)
  from update_project_frame [OF e] have fr: "s' = s\<lparr>projects := projects s'\<rparr>" .
  have fe: "tables s' = tables s" "cases_columns s' = cases_columns s"
    by (subst fr, simp)+
  from assms(1) show ?thesis by (simp add: schema_current_def fe)
next
  case (Delete_project i)
  from assms have e: "delete_project s i = Inr s'" by (simp add: Delete_project)
  from assms(1) e show ?thesis
    by (auto simp: schema_current_def delete_project_def Let_def split: if_splits)
next
  case (Assign_case_to_project now p c)
  from assms have e: "assign_case_to_project s now p c = Inr s'" by (simp add: Assign_case_to_project)
  from assms(1) e show ?thesis
    by (auto simp: schema_current_def assign_case_to_project_def Let_def split: if_splits)
next
  case (Unassign_case_from_project p c)
  from assms have e: "unassign_case_from_project s p c = Inr s'" by (simp add: Unassign_case_from_project)
  from assms(1) e show ?thesis
    by (auto simp: schema_current_def unassign_case_from_project_def Let_def split: if_splits)
qed

lemma canonical_exec:
  assumes "schema_current s" and "case_links_canonical s" and "exec oper s = Inr s'"
  shows "case_links_canonical s'"
proof (cases oper)
  case Init_db
  with assms show ?thesis by (simp add: init_db_current)
next
  case Migrate_db
  with assms show ?thesis by (auto intro: canonical_migrate_db)
next
  case (Add_case now title date status mo vp murder vc csa cslat cslon bfa bflat bflon)
  from assms have e: "s' = snd (add_case s now title date status mo vp murder vc csa cslat cslon bfa bflat bflon)" by (simp add: Add_case)
  from assms(2) show ?thesis unfolding e by (simp add: case_links_canonical_def add_case_def Let_def)
next
  case (Update_case i flds)
  from assms have e: "update_case s i flds = Inr s'" by (simp add: Update_case)
  from update_case_frame [OF e] have fr: "s' = s\<lparr>cases := cases s'\<rparr>" .
  have fe: "case_links s' = case_links s"
    by (subst fr, simp)+
  from assms(2) show ?thesis by (simp add: case_links_canonical_def fe)
next
  case (Delete_case i)
  from assms have e: "delete_case s i = Inr s'" by (simp add: Delete_case)
  from assms(2) e show ?thesis
    by (auto simp: case_links_canonical_def list_all_iff delete_case_def Let_def split: if_splits)
next
  case (Set_case_crime_types i cts)
  from assms have e: "set_case_crime_types s i cts = Inr s'" by (simp add: Set_case_crime_types)
  from set_case_crime_types_frame [OF e] have fe: "case_links s' = case_links s"
    by simp_all
  from assms(2) show ?thesis by (simp add: case_links_canonical_def fe)
next
  case (Set_case_tags i tags)
  from assms have e: "set_case_tags s i tags = Inr s'" by (simp add: Set_case_tags)
  from set_case_tags_frame [OF e] have fe: "case_links s' = case_links s"
    by simp_all
  from assms(2) show ?thesis by (simp add: case_links_canonical_def fe)
next
  case (Add_suspect now name d a)
  from assms have e: "s' = snd (add_suspect s now name d a)" by (simp add: Add_suspect)
  from assms(2) show ?thesis unfolding e by (simp add: case_links_canonical_def add_suspect_def Let_def)
next
  case (Update_suspect i flds)
  from assms have e: "update_suspect s i flds = Inr s'" by (simp add: Update_suspect)
  from update_suspect_frame [OF e] have fr: "s' = s\<lparr>suspects := suspects s'\<rparr>" .
  have fe: "case_links s' = case_links s"
    by (subst fr, simp)+
  from assms(2) show ?thesis by (simp add: case_links_canonical_def fe)
next
  case (Delete_suspect i)
  from assms have e: "delete_suspect s i = Inr s'" by (simp add: Delete_suspect)
  from assms(2) e show ?thesis
    by (auto simp: case_links_canonical_def list_all_iff delete_suspect_def Let_def split: if_splits)
next
  case (Add_suspect_crime_history now i ct d cs nt)
  from assms obtain k where e: "add_suspect_crime_history s now i ct d cs nt = Inr (k, s')"
    by (auto simp: Add_suspect_crime_history map_sum_snd_Inr)
  from assms(2) e show ?thesis
    by (auto simp: case_links_canonical_def list_all_iff add_suspect_crime_history_def Let_def split: if_splits)
next
  case (Delete_suspect_crime_history_entry i)
  from assms have e: "delete_suspect_crime_history_entry s i = Inr s'" by (simp add: Delete_suspect_crime_history_entry)
  from assms(2) e show ?thesis
    by (auto simp: case_links_canonical_def list_all_iff delete_suspect_crime_history_entry_def Let_def split: if_splits)
next
  case (Link_suspect_to_case now u c t nt)
  from assms obtain k where e: "link_suspect_to_case s now u c t nt = Inr (k, s')"
    by (auto simp: Link_suspect_to_case map_sum_snd_Inr)
  from assms(2) e show ?thesis
    by (auto simp: case_links_canonical_def list_all_iff link_suspect_to_case_def Let_def split: if_splits)
next
  case (Delete_suspect_case_link i)
  from assms have e: "delete_suspect_case_link s i = Inr s'" by (simp add: Delete_suspect_case_link)
  from assms(2) e show ?thesis
    by (auto simp: case_links_canonical_def list_all_iff delete_suspect_case_link_def Let_def split: if_splits)
next
  case (Link_cases now a b sn)
  from assms obtain k where e: "link_cases s now a b sn = Inr (k, s')"
    by (auto simp: Link_cases map_sum_snd_Inr)
  from assms(2) e show ?thesis
    by (auto simp: case_links_canonical_def list_all_iff link_cases_def Let_def split: if_splits)
next
  case (Delete_case_link i)
  from assms have e: "delete_case_link s i = Inr s'" by (simp add: Delete_case_link)
  from assms(2) e show ?thesis
    by (auto simp: case_links_canonical_def list_all_iff delete_case_link_def Let_def split: if_splits)
next
  case (Add_timeline_event now c ts title d)
  from assms obtain k where e: "add_timeline_event s now c ts title d = Inr (k, s')"
    by (auto simp: Add_timeline_event map_sum_snd_Inr)
  from assms(2) e show ?thesis
    by (auto simp: case_links_canonical_def list_all_iff add_timeline_event_def Let_def split: if_splits)
next
  case (Delete_timeline_event i)
  from assms have e: "delete_timeline_event s i = Inr s'" by (simp add: Delete_timeline_event)
  from assms(2) e show ?thesis
    by (auto simp: case_links_canonical_def list_all_iff delete_timeline_event_def Let_def split: if_splits)
next
  case (Add_project now name d)
  from assms obtain k where e: "add_project s now name d = Inr (k, s')"
    by (auto simp: Add_project map_sum_snd_Inr)
  from assms(2) e show ?thesis
    by (auto simp: case_links_canonical_def list_all_iff add_project_def Let_def split: if_splits)
next
  case (Update_project i flds)
  from assms have e: "update_project s i flds = Inr s'" by (simp add: Update_project)
  from update_project_frame [OF e] have fr: "s' = s\<lparr>projects := projects s'\<rparr>" .
  have fe: "case_links s' = case_links s"
    by (subst fr, simp)+
  from assms(2) show ?thesis by (simp add: case_links_canonical_def fe)
next
  case (Delete_project i)
  from assms have e: "delete_project s i = Inr s'" by (simp add: Delete_project)
  from assms(2) e show ?thesis
    by (auto simp: case_links_canonical_def list_all_iff delete_project_def Let_def split: if_splits)
next
  case (Assign_case_to_project now p c)
  from assms have e: "assign_case_to_project s now p c = Inr s'" by (simp add: Assign_case_to_project)
  from assms(2) e show ?thesis
    by (auto simp: case_links_canonical_def list_all_iff assign_case_to_project_def Let_def split: if_splits)
next
  case (Unassign_case_from_project p c)
  from assms have e: "unassign_case_from_project s p c = Inr s'" by (simp add: Unassign_case_from_project)
  from assms(2) e show ?thesis
    by (auto simp: case_links_canonical_def list_all_iff unassign_case_from_project_def Let_def split: if_splits)
qed

lemma keys_ok_exec:
  assumes "schema_current s" and "keys_ok s" and "exec oper s = Inr s'"
  shows "keys_ok s'"
proof (cases oper)
  case Init_db
  with assms show ?thesis by (simp add: init_db_current)
next
  case Migrate_db
  with assms show ?thesis by (auto intro: keys_ok_migrate_db)
next
  case (Add_case now title date status mo vp murder vc csa cslat cslon bfa bflat bflon)
  from assms have e: "s' = snd (add_case s now title date status mo vp murder vc csa cslat cslon bfa bflat bflon)" by (simp add: Add_case)
  from assms(2) next_rowid_fresh [of c_id "cases s"] show ?thesis
    unfolding e by (simp add: keys_ok_def add_case_def Let_def)
next
  case (Update_case i flds)
  from assms have e: "update_case s i flds = Inr s'" by (simp add: Update_case)
  from assms(2) e show ?thesis by (rule keys_ok_update_case)
next
  case (Delete_case i)
  from assms have e: "delete_case s i = Inr s'" by (simp add: Delete_case)
  from assms(2) e show ?thesis
    by (auto simp: keys_ok_def distinct_map_filter delete_case_def Let_def split: if_splits)
next
  case (Set_case_crime_types i cts)
  from assms have e: "set_case_crime_types s i cts = Inr s'" by (simp add: Set_case_crime_types)
  from set_case_crime_types_frame [OF e] have fe: "cases s' = cases s" "project_cases s' = project_cases s"
    by simp_all
  from assms(2) show ?thesis by (simp add: keys_ok_def fe)
next
  case (Set_case_tags i tags)
  from assms have e: "set_case_tags s i tags = Inr s'" by (simp add: Set_case_tags)
  from set_case_tags_frame [OF e] have fe: "cases s' = cases s" "project_cases s' = project_cases s"
    by simp_all
  from assms(2) show ?thesis by (simp add: keys_ok_def fe)
next
  case (Add_suspect now name d a)
  from assms have e: "s' = snd (add_suspect s now name d a)" by (simp add: Add_suspect)
  from assms(2) show ?thesis unfolding e by (simp add: keys_ok_def add_suspect_def Let_def)
next
  case (Update_suspect i flds)
  from assms have e: "update_suspect s i flds = Inr s'" by (simp add: Update_suspect)
  from update_suspect_frame [OF e] have fr: "s' = s\<lparr>suspects := suspects s'\<rparr>" .
  have fe: "cases s' = cases s" "project_cases s' = project_cases s"
    by (subst fr, simp)+
  from assms(2) show ?thesis by (simp add: keys_ok_def fe)
next
  case (Delete_suspect i)
  from assms have e: "delete_suspect s i = Inr s'" by (simp add: Delete_suspect)
  from assms(2) e show ?thesis
    by (auto simp: keys_ok_def distinct_map_filter delete_suspect_def Let_def split: if_splits)
next
  case (Add_suspect_crime_history now i ct d cs nt)
  from assms obtain k where e: "add_suspect_crime_history s now i ct d cs nt = Inr (k, s')"
    by (auto simp: Add_suspect_crime_history map_sum_snd_Inr)
  from assms(2) e show ?thesis
    by (auto simp: keys_ok_def distinct_map_filter add_suspect_crime_history_def Let_def split: if_splits)
next
  case (Delete_suspect_crime_history_entry i)
  from assms have e: "delete_suspect_crime_history_entry s i = Inr s'" by (simp add: Delete_suspect_crime_history_entry)
  from assms(2) e show ?thesis
    by (auto simp: keys_ok_def distinct_map_filter delete_suspect_crime_history_entry_def Let_def split: if_splits)
next
  case (Link_suspect_to_case now u c t nt)
  from assms obtain k where e: "link_suspect_to_case s now u c t nt = Inr (k, s')"
    by (auto simp: Link_suspect_to_case map_sum_snd_Inr)
  from assms(2) e show ?thesis
    by (auto simp: keys_ok_def distinct_map_filter link_suspect_to_case_def Let_def split: if_splits)
next
  case (Delete_suspect_case_link i)
  from assms have e: "delete_suspect_case_link s i = Inr s'" by (simp add: Delete_suspect_case_link)
  from assms(2) e show ?thesis
    by (auto simp: keys_ok_def distinct_map_filter delete_suspect_case_link_def Let_def split: if_splits)
next
  case (Link_cases now a b sn)
  from assms obtain k where e: "link_cases s now a b sn = Inr (k, s')"
    by (auto simp: Link_cases map_sum_snd_Inr)
  from assms(2) e show ?thesis
    by (auto simp: keys_ok_def distinct_map_filter link_cases_def Let_def split: if_splits)
next
  case (Delete_case_link i)
  from assms have e: "delete_case_link s i = Inr s'" by (simp add: Delete_case_link)
  from assms(2) e show ?thesis
    by (auto simp: keys_ok_def distinct_map_filter delete_case_link_def Let_def split: if_splits)
next
  case (Add_timeline_event now c ts title d)
  from assms obtain k where e: "add_timeline_event s now c ts title d = Inr (k, s')"
    by (auto simp: Add_timeline_event map_sum_snd_Inr)
  from assms(2) e show ?thesis
    by (auto simp: keys_ok_def distinct_map_filter add_timeline_event_def Let_def split: if_splits)
next
  case (Delete_timeline_event i)
  from assms have e: "delete_timeline_event s i = Inr s'" by (simp add: Delete_timeline_event)
  from assms(2) e show ?thesis
    by (auto simp: keys_ok_def distinct_map_filter delete_timeline_event_def Let_def split: if_splits)
next
  case (Add_project now name d)
  from assms obtain k where e: "add_project s now name d = Inr (k, s')"
    by (auto simp: Add_project map_sum_snd_Inr)
  from assms(2) e show ?thesis
    by (auto simp: keys_ok_def distinct_map_filter add_project_def Let_def split: if_splits)
next
  case (Update_project i flds)
  from assms have e: "update_project s i flds = Inr s'" by (simp add: Update_project)
  from update_project_frame [OF e] have fr: "s' = s\<lparr>projects := projects s'\<rparr>" .
  have fe: "cases s' = cases s" "project_cases s' = project_cases s"
    by (subst fr, simp)+
  from assms(2) show ?thesis by (simp add: keys_ok_def fe)
next
  case (Delete_project i)
  from assms have e: "delete_project s i = Inr s'" by (simp add: Delete_project)
  from assms(2) e show ?thesis
    by (auto simp: keys_ok_def distinct_map_filter delete_project_def Let_def split: if_splits)
next
  case (Assign_case_to_project now p c)
  from assms have e: "assign_case_to_project s now p c = Inr s'" by (simp add: Assign_case_to_project)
  from assms(2) e show ?thesis
    by (auto simp: keys_ok_def distinct_map_filter assign_case_to_project_def Let_def split: if_splits)
next
  case (Unassign_case_from_project p c)
  from assms have e: "unassign_case_from_project s p c = Inr s'" by (simp add: Unassign_case_from_project)
  from assms(2) e show ?thesis
    by (auto simp: keys_ok_def distinct_map_filter unassign_case_from_project_def Let_def split: if_splits)
qed

lemma fk_ok_exec:
  assumes "schema_current s" and "fk_ok s" and "exec oper s = Inr s'"
  shows "fk_ok s'"
proof (cases oper)
  case Init_db
  with assms show ?thesis by (simp add: init_db_current)
next
  case Migrate_db
  with assms show ?thesis by (auto intro: fk_ok_migrate_db)
next
  case (Add_case now title date status mo vp murder vc csa cslat cslon bfa bflat bflon)
  from assms have e: "s' = snd (add_case s now title date status mo vp murder vc csa cslat cslon bfa bflat bflon)" by (simp add: Add_case)
  from assms(2) show ?thesis unfolding e by (rule fk_ok_add_case)
next
  case (Update_case i flds)
  from assms have e: "update_case s i flds = Inr s'" by (simp add: Update_case)
  from assms(2) e show ?thesis by (rule fk_ok_update_case)
next
  case (Delete_case i)
  from assms have e: "delete_case s i = Inr s'" by (simp add: Delete_case)
  from assms(2) e show ?thesis by (rule fk_ok_delete_case)
next
  case (Set_case_crime_types i cts)
  from assms have e: "set_case_crime_types s i cts = Inr s'" by (simp add: Set_case_crime_types)
  from assms(2) e show ?thesis by (rule fk_ok_set_case_crime_types)
next
  case (Set_case_tags i tags)
  from assms have e: "set_case_tags s i tags = Inr s'" by (simp add: Set_case_tags)
  from assms(2) e show ?thesis by (rule fk_ok_set_case_tags)
next
  case (Add_suspect now name d a)
  from assms have e: "s' = snd (add_suspect s now name d a)" by (simp add: Add_suspect)
  from assms(2) show ?thesis unfolding e by (rule fk_ok_add_suspect)
next
  case (Update_suspect i flds)
  from assms have e: "update_suspect s i flds = Inr s'" by (simp add: Update_suspect)
  from assms(2) e show ?thesis by (rule fk_ok_update_suspect)
next
  case (Delete_suspect i)
  from assms have e: "delete_suspect s i = Inr s'" by (simp add: Delete_suspect)
  from assms(2) e show ?thesis by (rule fk_ok_delete_suspect)
next
  case (Add_suspect_crime_history now i ct d cs nt)
  from assms obtain k where e: "add_suspect_crime_history s now i ct d cs nt = Inr (k, s')"
    by (auto simp: Add_suspect_crime_history map_sum_snd_Inr)
  from assms(2) e show ?thesis by (rule fk_ok_add_suspect_crime_history)
next
  case (Delete_suspect_crime_history_entry i)
  from assms have e: "delete_suspect_crime_history_entry s i = Inr s'" by (simp add: Delete_suspect_crime_history_entry)
  from assms(2) e show ?thesis by (rule fk_ok_delete_suspect_crime_history_entry)
next
  case (Link_suspect_to_case now u c t nt)
  from assms obtain k where e: "link_suspect_to_case s now u c t nt = Inr (k, s')"
    by (auto simp: Link_suspect_to_case map_sum_snd_Inr)
  from assms(2) e show ?thesis by (rule fk_ok_link_suspect_to_case)
next
  case (Delete_suspect_case_link i)
  from assms have e: "delete_suspect_case_link s i = Inr s'" by (simp add: Delete_suspect_case_link)
  from assms(2) e show ?thesis by (rule fk_ok_delete_suspect_case_link)
next
  case (Link_cases now a b sn)
  from assms obtain k where e: "link_cases s now a b sn = Inr (k, s')"
    by (auto simp: Link_cases map_sum_snd_Inr)
  from assms(2) e show ?thesis by (rule fk_ok_link_cases)
next
  case (Delete_case_link i)
  from assms have e: "delete_case_link s i = Inr s'" by (simp add: Delete_case_link)
  from assms(2) e show ?thesis by (rule fk_ok_delete_case_link)
next
  case (Add_timeline_event now c ts title d)
  from assms obtain k where e: "add_timeline_event s now c ts title d = Inr (k, s')"
    by (auto simp: Add_timeline_event map_sum_snd_Inr)
  from assms(2) e show ?thesis by (rule fk_ok_add_timeline_event)
next
  case (Delete_timeline_event i)
  from assms have e: "delete_timeline_event s i = Inr s'" by (simp add: Delete_timeline_event)
  from assms(2) e show ?thesis by (rule fk_ok_delete_timeline_event)
next
  case (Add_project now name d)
  from assms obtain k where e: "add_project s now name d = Inr (k, s')"
    by (auto simp: Add_project map_sum_snd_Inr)
  from assms(2) e show ?thesis by (rule fk_ok_add_project)
next
  case (Update_project i flds)
  from assms have e: "update_project s i flds = Inr s'" by (simp add: Update_project)
  from assms(2) e show ?thesis by (rule fk_ok_update_project)
next
  case (Delete_project i)
  from assms have e: "delete_project s i = Inr s'" by (simp add: Delete_project)
  from assms(2) e show ?thesis by (rule fk_ok_delete_project)
next
  case (Assign_case_to_project now p c)
  from assms have e: "assign_case_to_project s now p c = Inr s'" by (simp add: Assign_case_to_project)
  from assms(2) e show ?thesis by (rule fk_ok_assign_case_to_project)
next
  case (Unassign_case_from_project p c)
  from assms have e: "unassign_case_from_project s p c = Inr s'" by (simp add: Unassign_case_from_project)
  from assms(2) e show ?thesis by (rule fk_ok_unassign_case_from_project)
qed

subsection \<open>The stores the application reaches\<close>

lemma init_db_empty_store:
  "init_db empty_store =
     \<lparr>tables = all_tables, cases_columns = init_cases_columns, cases = [], case_crime_types = [],
      case_tags = [], suspects = [], suspect_crime_history = [], suspect_case_links = [],
      case_links = [], timeline_events = [], projects = [], project_cases = []\<rparr>"
  by (simp add: init_db_def all_tables_def create_table_if_not_exists_def created_table_def
      empty_store_def)

lemma reachable_invariant:
  "reachable s \<Longrightarrow> schema_current s \<and> fk_ok s \<and> case_links_canonical s \<and> keys_ok s"
proof (induction rule: reachable.induct)
  case fresh
  show ?case
    by (simp add: init_db_empty_store schema_current_def fk_ok_def case_links_canonical_def
        keys_ok_def)
next
  case (step s oper s')
  then have sc: "schema_current s" and fk: "fk_ok s" and can: "case_links_canonical s"
    and key: "keys_ok s" and e: "exec oper s = Inr s'"
    by simp_all
  from sc e have "schema_current s'" by (rule schema_current_exec)
  moreover from sc fk e have "fk_ok s'" by (rule fk_ok_exec)
  moreover from sc can e have "case_links_canonical s'" by (rule canonical_exec)
  moreover from sc key e have "keys_ok s'" by (rule keys_ok_exec)
  ultimately show ?case by simp
qed

section \<open>Deleting what is not there\<close>

text \<open>
  Claim C10, corrected. The claim is that each delete operation, given an identifier
  that is not in its table, completes without error and changes no table. That does
  not hold for every store and every identifier: the DELETE raises OperationalError
  when its table does not exist, and OverflowError when the identifier is not a signed
  64-bit integer. What holds: on a store with the current schema, each of
  \<^verbatim>\<open>delete_case\<close>, \<^verbatim>\<open>delete_suspect\<close>, \<^verbatim>\<open>delete_case_link\<close>,
  \<^verbatim>\<open>delete_suspect_case_link\<close>, \<^verbatim>\<open>delete_timeline_event\<close>,
  \<^verbatim>\<open>delete_suspect_crime_history_entry\<close> and \<^verbatim>\<open>delete_project\<close>, given a
  signed 64-bit identifier that is not in its table, returns without error and the
  store is the one it was given; given an identifier outside that range it raises
  OverflowError.
\<close>

theorem delete_absent_unchanged:
  "schema_current s \<longrightarrow>
    (sqlite_int case_id \<and> case_id \<notin> case_ids s \<longrightarrow> delete_case s case_id = Inr s) \<and>
    (sqlite_int suspect_id \<and> suspect_id \<notin> suspect_ids s \<longrightarrow> delete_suspect s suspect_id = Inr s) \<and>
    (sqlite_int link_id \<and> link_id \<notin> cl_id ` set (case_links s) \<longrightarrow> delete_case_link s link_id = Inr s) \<and>
    (sqlite_int slink_id \<and> slink_id \<notin> scl_id ` set (suspect_case_links s) \<longrightarrow> delete_suspect_case_link s slink_id = Inr s) \<and>
    (sqlite_int event_id \<and> event_id \<notin> ev_id ` set (timeline_events s) \<longrightarrow> delete_timeline_event s event_id = Inr s) \<and>
    (sqlite_int entry_id \<and> entry_id \<notin> h_id ` set (suspect_crime_history s) \<longrightarrow> delete_suspect_crime_history_entry s entry_id = Inr s) \<and>
    (sqlite_int project_id \<and> project_id \<notin> project_ids s \<longrightarrow> delete_project s project_id = Inr s) \<and>
    (\<not> sqlite_int i \<longrightarrow>
       delete_case s i = Inl Overflow_error \<and>
       delete_suspect s i = Inl Overflow_error \<and>
       delete_case_link s i = Inl Overflow_error \<and>
       delete_suspect_case_link s i = Inl Overflow_error \<and>
       delete_timeline_event s i = Inl Overflow_error \<and>
       delete_suspect_crime_history_entry s i = Inl Overflow_error \<and>
       delete_project s i = Inl Overflow_error)"
proof
  assume "schema_current s"
  then have t: "''cases'' \<in> set (tables s)" "''suspects'' \<in> set (tables s)"
    "''case_links'' \<in> set (tables s)" "''suspect_case_links'' \<in> set (tables s)"
    "''timeline_events'' \<in> set (tables s)" "''suspect_crime_history'' \<in> set (tables s)"
    "''projects'' \<in> set (tables s)"
    by (simp_all add: schema_current_def all_tables_def)
  have absent: "    (sqlite_int case_id \<and> case_id \<notin> case_ids s \<longrightarrow> delete_case s case_id = Inr s) \<and>
    (sqlite_int suspect_id \<and> suspect_id \<notin> suspect_ids s \<longrightarrow> delete_suspect s suspect_id = Inr s) \<and>
    (sqlite_int link_id \<and> link_id \<notin> cl_id ` set (case_links s) \<longrightarrow> delete_case_link s link_id = Inr s) \<and>
    (sqlite_int slink_id \<and> slink_id \<notin> scl_id ` set (suspect_case_links s) \<longrightarrow> delete_suspect_case_link s slink_id = Inr s) \<and>
    (sqlite_int event_id \<and> event_id \<notin> ev_id ` set (timeline_events s) \<longrightarrow> delete_timeline_event s event_id = Inr s) \<and>
    (sqlite_int entry_id \<and> entry_id \<notin> h_id ` set (suspect_crime_history s) \<longrightarrow> delete_suspect_crime_history_entry s entry_id = Inr s) \<and>
    (sqlite_int project_id \<and> project_id \<notin> project_ids s \<longrightarrow> delete_project s project_id = Inr s)"
    using t
    by (simp add: delete_case_absent delete_suspect_absent delete_project_absent
        delete_case_link_def delete_suspect_case_link_def delete_timeline_event_def delete_suspect_crime_history_entry_def filter_neq_absent)
  have range: "\<not> sqlite_int i \<longrightarrow>
       delete_case s i = Inl Overflow_error \<and>
       delete_suspect s i = Inl Overflow_error \<and>
       delete_case_link s i = Inl Overflow_error \<and>
       delete_suspect_case_link s i = Inl Overflow_error \<and>
       delete_timeline_event s i = Inl Overflow_error \<and>
       delete_suspect_crime_history_entry s i = Inl Overflow_error \<and>
       delete_project s i = Inl Overflow_error"
    using t
    by (simp add: delete_case_def delete_suspect_def delete_case_link_def delete_suspect_case_link_def delete_timeline_event_def delete_suspect_crime_history_entry_def delete_project_def)
  from absent range
  show "(sqlite_int case_id \<and> case_id \<notin> case_ids s \<longrightarrow> delete_case s case_id = Inr s) \<and>
    (sqlite_int suspect_id \<and> suspect_id \<notin> suspect_ids s \<longrightarrow> delete_suspect s suspect_id = Inr s) \<and>
    (sqlite_int link_id \<and> link_id \<notin> cl_id ` set (case_links s) \<longrightarrow> delete_case_link s link_id = Inr s) \<and>
    (sqlite_int slink_id \<and> slink_id \<notin> scl_id ` set (suspect_case_links s) \<longrightarrow> delete_suspect_case_link s slink_id = Inr s) \<and>
    (sqlite_int event_id \<and> event_id \<notin> ev_id ` set (timeline_events s) \<longrightarrow> delete_timeline_event s event_id = Inr s) \<and>
    (sqlite_int entry_id \<and> entry_id \<notin> h_id ` set (suspect_crime_history s) \<longrightarrow> delete_suspect_crime_history_entry s entry_id = Inr s) \<and>
    (sqlite_int project_id \<and> project_id \<notin> project_ids s \<longrightarrow> delete_project s project_id = Inr s) \<and>
    (\<not> sqlite_int i \<longrightarrow>
       delete_case s i = Inl Overflow_error \<and>
       delete_suspect s i = Inl Overflow_error \<and>
       delete_case_link s i = Inl Overflow_error \<and>
       delete_suspect_case_link s i = Inl Overflow_error \<and>
       delete_timeline_event s i = Inl Overflow_error \<and>
       delete_suspect_crime_history_entry s i = Inl Overflow_error \<and>
       delete_project s i = Inl Overflow_error)"
    by simp
qed

text \<open>
  The theorem at a store with a row in every table: 9 is in none of them, and
  \<open>- 2 ^ 63 - 1\<close> cannot be bound.
\<close>

theorem delete_absent_unchanged_witness:
  "delete_case example_store 9 = Inr example_store \<and>
   delete_suspect example_store 9 = Inr example_store \<and>
   delete_case_link example_store 9 = Inr example_store \<and>
   delete_suspect_case_link example_store 9 = Inr example_store \<and>
   delete_timeline_event example_store 9 = Inr example_store \<and>
   delete_suspect_crime_history_entry example_store 9 = Inr example_store \<and>
   delete_project example_store 9 = Inr example_store \<and>
   delete_case example_store (- 9223372036854775809) = Inl Overflow_error \<and>
   delete_suspect example_store (- 9223372036854775809) = Inl Overflow_error \<and>
   delete_case_link example_store (- 9223372036854775809) = Inl Overflow_error \<and>
   delete_suspect_case_link example_store (- 9223372036854775809) = Inl Overflow_error \<and>
   delete_timeline_event example_store (- 9223372036854775809) = Inl Overflow_error \<and>
   delete_suspect_crime_history_entry example_store (- 9223372036854775809) = Inl Overflow_error \<and>
   delete_project example_store (- 9223372036854775809) = Inl Overflow_error"
  using delete_absent_unchanged [where s = example_store and case_id = 9 and suspect_id = 9 and link_id = 9 and slink_id = 9 and event_id = 9 and entry_id = 9 and project_id = 9
      and i = "- 9223372036854775809"]
  by (simp add: fixture_defs schema_current_def sqlite_int_def)

text \<open>
  Where the claim as it was stated fails: \<open>2 ^ 63\<close> is the key of no case, and
  \<^verbatim>\<open>delete_case\<close> raises on it; and in a file without tables every key is
  absent, and \<^verbatim>\<open>delete_case\<close> raises.
\<close>

theorem delete_absent_raises:
  "9223372036854775808 \<notin> case_ids example_store \<and>
   delete_case example_store 9223372036854775808 = Inl Overflow_error \<and>
   9 \<notin> case_ids empty_store \<and>
   delete_case empty_store 9 = Inl Operational_error"
  by (simp add: fixture_defs delete_case_def sqlite_int_def empty_store_def all_tables_def)

section \<open>Linking two cases twice\<close>

text \<open>
  Claim C1. The claim is that a second \<^verbatim>\<open>link_cases\<close> of a linked pair fails as
  a duplicate. It does not: \<^verbatim>\<open>case_links\<close> has no UNIQUE constraint, so after a
  call that succeeded, a second call on the same two cases, in either argument order,
  succeeds as well, and the table then holds two rows with the same canonical pair.
  The page \<^verbatim>\<open>pages/connections.py\<close> expects the failure: it reports
  ``These cases are already linked'' on an error that names a UNIQUE constraint.
\<close>

theorem link_cases_accepts_linked_pair:
  "link_cases s now a b note = Inr (i, s1) \<longrightarrow>
     (\<exists>j s2. link_cases s1 now2 b a note2 = Inr (j, s2) \<and>
        case_links s2 = case_links s @
          [\<lparr>cl_id = i, cl_case_id_1 = min a b, cl_case_id_2 = max a b,
            cl_similarity_note = note, cl_created_at = now\<rparr>,
           \<lparr>cl_id = j, cl_case_id_1 = min a b, cl_case_id_2 = max a b,
            cl_similarity_note = note2, cl_created_at = now2\<rparr>]) \<and>
     (\<exists>j s2. link_cases s1 now2 a b note2 = Inr (j, s2) \<and>
        case_links s2 = case_links s @
          [\<lparr>cl_id = i, cl_case_id_1 = min a b, cl_case_id_2 = max a b,
            cl_similarity_note = note, cl_created_at = now\<rparr>,
           \<lparr>cl_id = j, cl_case_id_1 = min a b, cl_case_id_2 = max a b,
            cl_similarity_note = note2, cl_created_at = now2\<rparr>])"
  by (auto simp: link_cases_def Let_def case_ids_def min_def max_def split: if_splits)

theorem link_cases_accepts_linked_pair_witness:
  "link_cases two_cases ''2024-02-01 10:00:00'' 5 2 ''note'' =
     Inr (1, two_cases\<lparr>case_links :=
       [\<lparr>cl_id = 1, cl_case_id_1 = 2, cl_case_id_2 = 5, cl_similarity_note = ''note'',
         cl_created_at = ''2024-02-01 10:00:00''\<rparr>]\<rparr>) \<and>
   (\<exists>j s2. link_cases (two_cases\<lparr>case_links :=
       [\<lparr>cl_id = 1, cl_case_id_1 = 2, cl_case_id_2 = 5, cl_similarity_note = ''note'',
         cl_created_at = ''2024-02-01 10:00:00''\<rparr>]\<rparr>) ''2024-02-01 10:05:00'' 2 5 ''note2'' =
         Inr (j, s2) \<and>
      case_links s2 =
       [\<lparr>cl_id = 1, cl_case_id_1 = 2, cl_case_id_2 = 5, cl_similarity_note = ''note'',
         cl_created_at = ''2024-02-01 10:00:00''\<rparr>,
        \<lparr>cl_id = j, cl_case_id_1 = 2, cl_case_id_2 = 5, cl_similarity_note = ''note2'',
         cl_created_at = ''2024-02-01 10:05:00''\<rparr>])"
proof -
  have first: "link_cases two_cases ''2024-02-01 10:00:00'' 5 2 ''note'' =
     Inr (1, two_cases\<lparr>case_links :=
       [\<lparr>cl_id = 1, cl_case_id_1 = 2, cl_case_id_2 = 5, cl_similarity_note = ''note'',
         cl_created_at = ''2024-02-01 10:00:00''\<rparr>]\<rparr>)"
    by (simp add: link_cases_def two_cases_def example_case_def case_ids_def next_rowid_def)
  have "case_links two_cases = []" by (simp add: two_cases_def)
  with first link_cases_accepts_linked_pair [of two_cases "''2024-02-01 10:00:00''" 5 2 "''note''" 1
      "two_cases\<lparr>case_links :=
       [\<lparr>cl_id = 1, cl_case_id_1 = 2, cl_case_id_2 = 5, cl_similarity_note = ''note'',
         cl_created_at = ''2024-02-01 10:00:00''\<rparr>]\<rparr>" "''2024-02-01 10:05:00''" "''note2''"]
  show ?thesis by simp
qed

section \<open>Empty text is stored as NULL\<close>

text \<open>
  Claim C9. An optional text that is the empty string is stored as NULL and read back as
  None: the crime scene address, body found address, MO description and victim profile
  of \<^verbatim>\<open>add_case\<close> (read with \<^verbatim>\<open>get_case\<close>), the notes of
  \<^verbatim>\<open>add_suspect_crime_history\<close> and of \<^verbatim>\<open>link_suspect_to_case\<close>, the
  description of \<^verbatim>\<open>add_timeline_event\<close> (the new row is in the result of the
  list query, and every row of the result with its id has None), and the description
  of \<^verbatim>\<open>add_project\<close> (read with \<^verbatim>\<open>get_project\<close>).
\<close>

theorem empty_text_stored_as_null:
  "(add_case s now title date status mo vp murder vc csa cslat cslon bfa bflat bflon = (i, s1) \<longrightarrow>
      (\<exists>r. get_case s1 i = Some r \<and>
           (csa = [] \<longrightarrow> c_crime_scene_address r = None) \<and>
           (bfa = [] \<longrightarrow> c_body_found_address r = None) \<and>
           (mo = [] \<longrightarrow> c_mo_description r = None) \<and>
           (vp = [] \<longrightarrow> c_victim_profile r = None))) \<and>
   (add_suspect_crime_history s now u ct d cs [] = Inr (j, s2) \<and>
    get_suspect_crime_history s2 u entries \<longrightarrow>
      (\<exists>r \<in> set entries. h_id r = j) \<and> (\<forall>r \<in> set entries. h_id r = j \<longrightarrow> h_notes r = None)) \<and>
   (link_suspect_to_case s now u c t [] = Inr (k, s3) \<and>
    get_suspect_links_for_case s3 c links \<longrightarrow>
      (\<exists>x \<in> set links. scl_id (fst x) = k) \<and>
      (\<forall>x \<in> set links. scl_id (fst x) = k \<longrightarrow> scl_notes (fst x) = None)) \<and>
   (add_timeline_event s now c ts etitle [] = Inr (l, s4) \<and>
    get_timeline_events s4 c events \<longrightarrow>
      (\<exists>r \<in> set events. ev_id r = l) \<and>
      (\<forall>r \<in> set events. ev_id r = l \<longrightarrow> ev_description r = None)) \<and>
   (add_project s now name [] = Inr (m, s5) \<longrightarrow>
      (\<exists>r. get_project s5 m = Some r \<and> pr_description r = None))"
proof (intro conjI impI)
  assume "add_case s now title date status mo vp murder vc csa cslat cslon bfa bflat bflon = (i, s1)"
  from get_case_add_case [OF this]
  show "\<exists>r. get_case s1 i = Some r \<and>
           (csa = [] \<longrightarrow> c_crime_scene_address r = None) \<and>
           (bfa = [] \<longrightarrow> c_body_found_address r = None) \<and>
           (mo = [] \<longrightarrow> c_mo_description r = None) \<and>
           (vp = [] \<longrightarrow> c_victim_profile r = None)"
    by (simp add: or_none_def)
next
  assume a: "add_suspect_crime_history s now u ct d cs [] = Inr (j, s2) \<and>
    get_suspect_crime_history s2 u entries"
  from history_added [of s now u ct d cs "[]" j s2 entries] a
  have h: "(\<exists>r \<in> set entries. h_id r = j) \<and> (\<forall>r \<in> set entries. h_id r = j \<longrightarrow> h_notes r = None)"
    by (simp add: or_none_def)
  from h show "\<exists>r \<in> set entries. h_id r = j" ..
  from h show "\<forall>r \<in> set entries. h_id r = j \<longrightarrow> h_notes r = None" ..
next
  assume a: "link_suspect_to_case s now u c t [] = Inr (k, s3) \<and>
    get_suspect_links_for_case s3 c links"
  from link_added [of s now u c t "[]" k s3 links] a
  have h: "(\<exists>x \<in> set links. scl_id (fst x) = k) \<and>
      (\<forall>x \<in> set links. scl_id (fst x) = k \<longrightarrow> scl_notes (fst x) = None)"
    by (simp add: or_none_def)
  from h show "\<exists>x \<in> set links. scl_id (fst x) = k" ..
  from h show "\<forall>x \<in> set links. scl_id (fst x) = k \<longrightarrow> scl_notes (fst x) = None" ..
next
  assume a: "add_timeline_event s now c ts etitle [] = Inr (l, s4) \<and>
    get_timeline_events s4 c events"
  from event_added [of s now c ts etitle "[]" l s4 events] a
  have h: "(\<exists>r \<in> set events. ev_id r = l) \<and>
      (\<forall>r \<in> set events. ev_id r = l \<longrightarrow> ev_description r = None)"
    by (simp add: or_none_def)
  from h show "\<exists>r \<in> set events. ev_id r = l" ..
  from h show "\<forall>r \<in> set events. ev_id r = l \<longrightarrow> ev_description r = None" ..
next
  assume "add_project s now name [] = Inr (m, s5)"
  from get_project_add_project [OF this]
  show "\<exists>r. get_project s5 m = Some r \<and> pr_description r = None"
    by (simp add: or_none_def)
qed

theorem empty_text_stored_as_null_witness:
  "(\<exists>r. get_case (snd (add_case two_cases ''2024-03-01 09:00:00'' ''Mill fire'' ''2001-05-06'' ''Active'' [] [] False None [] None None [] None None)) 6 = Some r \<and>
        c_crime_scene_address r = None \<and> c_body_found_address r = None \<and>
        c_mo_description r = None \<and> c_victim_profile r = None) \<and>
   get_suspect_crime_history (snd (projr (add_suspect_crime_history two_cases ''2024-03-01 09:00:00'' 1 ''Theft'' None ''Convicted'' []))) 1
     (suspect_crime_history (snd (projr (add_suspect_crime_history two_cases ''2024-03-01 09:00:00'' 1 ''Theft'' None ''Convicted'' [])))) \<and>
   map h_notes (suspect_crime_history (snd (projr (add_suspect_crime_history two_cases ''2024-03-01 09:00:00'' 1 ''Theft'' None ''Convicted'' [])))) = [None] \<and>
   get_suspect_links_for_case (snd (projr (link_suspect_to_case two_cases ''2024-03-01 09:00:00'' 1 2 ''Suspect'' []))) 2
     (map (\<lambda>l. (l, ''J. Roe'')) (suspect_case_links (snd (projr (link_suspect_to_case two_cases ''2024-03-01 09:00:00'' 1 2 ''Suspect'' []))))) \<and>
   map scl_notes (suspect_case_links (snd (projr (link_suspect_to_case two_cases ''2024-03-01 09:00:00'' 1 2 ''Suspect'' [])))) = [None] \<and>
   get_timeline_events (snd (projr (add_timeline_event two_cases ''2024-03-01 09:00:00'' 2 ''1999-03-04 22:00'' ''Alarm'' []))) 2
     (timeline_events (snd (projr (add_timeline_event two_cases ''2024-03-01 09:00:00'' 2 ''1999-03-04 22:00'' ''Alarm'' [])))) \<and>
   map ev_description (timeline_events (snd (projr (add_timeline_event two_cases ''2024-03-01 09:00:00'' 2 ''1999-03-04 22:00'' ''Alarm'' [])))) = [None] \<and>
   (\<exists>r. get_project (snd (projr (add_project two_cases ''2024-03-01 09:00:00'' ''Canal'' []))) 2 = Some r \<and> pr_description r = None)"
  using empty_text_stored_as_null [where s = two_cases and now = "''2024-03-01 09:00:00''"
      and title = "''Mill fire''" and date = "''2001-05-06''" and status = "''Active''"
      and mo = "[]" and vp = "[]" and murder = False and vc = None and csa = "[]"
      and cslat = None and cslon = None and bfa = "[]" and bflat = None and bflon = None
      and i = 6 and ?s1.0 = "snd (add_case two_cases ''2024-03-01 09:00:00'' ''Mill fire'' ''2001-05-06'' ''Active'' [] [] False None [] None None [] None None)"
      and u = 1 and ct = "''Theft''" and d = None and cs = "''Convicted''" and j = 1
      and ?s2.0 = "snd (projr (add_suspect_crime_history two_cases ''2024-03-01 09:00:00'' 1 ''Theft'' None ''Convicted'' []))"
      and entries = "suspect_crime_history (snd (projr (add_suspect_crime_history two_cases ''2024-03-01 09:00:00'' 1 ''Theft'' None ''Convicted'' [])))"
      and c = 2 and t = "''Suspect''" and k = 1
      and ?s3.0 = "snd (projr (link_suspect_to_case two_cases ''2024-03-01 09:00:00'' 1 2 ''Suspect'' []))"
      and links = "map (\<lambda>l. (l, ''J. Roe'')) (suspect_case_links (snd (projr (link_suspect_to_case two_cases ''2024-03-01 09:00:00'' 1 2 ''Suspect'' []))))"
      and ts = "''1999-03-04 22:00''" and etitle = "''Alarm''" and l = 1
      and ?s4.0 = "snd (projr (add_timeline_event two_cases ''2024-03-01 09:00:00'' 2 ''1999-03-04 22:00'' ''Alarm'' []))"
      and events = "timeline_events (snd (projr (add_timeline_event two_cases ''2024-03-01 09:00:00'' 2 ''1999-03-04 22:00'' ''Alarm'' [])))"
      and name = "''Canal''" and m = 2 and ?s5.0 = "snd (projr (add_project two_cases ''2024-03-01 09:00:00'' ''Canal'' []))"]
  by (simp add: add_case_def add_suspect_crime_history_def link_suspect_to_case_def
      add_timeline_event_def add_project_def get_suspect_crime_history_def
      get_suspect_links_for_case_def get_timeline_events_def order_by_def
      two_cases_def example_case_def case_ids_def suspect_ids_def project_ids_def
      next_rowid_def or_none_def Let_def)

section \<open>Replacing the crime types of a case\<close>

text \<open>
  Claim C4. On a store with the current schema, for a case \<open>c\<close> that exists (its id
  a signed 64-bit integer) and two distinct crime types \<open>A\<close> and \<open>B\<close>:
  \<^verbatim>\<open>set_case_crime_types(c, [A, B])\<close> succeeds, the rows of \<open>c\<close> are then exactly
  \<open>A\<close> at sort order 0 and \<open>B\<close> at sort order 1, the only outcome of
  \<^verbatim>\<open>get_primary_crime_type(c)\<close> is \<open>A\<close> and the only outcome of
  \<^verbatim>\<open>get_case_crime_types(c)\<close> is \<open>[A, B]\<close>. A following
  \<^verbatim>\<open>set_case_crime_types(c, [B, A])\<close> succeeds and leaves for \<open>c\<close> exactly
  \<open>B\<close> at 0 and \<open>A\<close> at 1, no row of the first call; the primary type is
  \<open>B\<close>, the list is \<open>[B, A]\<close>, and the rows of the other cases are those of the
  store before the two calls.
\<close>

theorem set_case_crime_types_replaces:
  "schema_current s \<and> sqlite_int c \<and> c \<in> case_ids s \<and> A \<noteq> B \<longrightarrow>
     (\<exists>s1 s2 i1 i2 j1 j2.
        set_case_crime_types s c [A, B] = Inr s1 \<and>
        filter (\<lambda>r. cct_case_id r = c) (case_crime_types s1) =
          [\<lparr>cct_id = i1, cct_case_id = c, cct_crime_type = A, cct_sort_order = 0\<rparr>,
           \<lparr>cct_id = i2, cct_case_id = c, cct_crime_type = B, cct_sort_order = 1\<rparr>] \<and>
        (\<forall>r. get_primary_crime_type s1 c r \<longleftrightarrow> r = Inr (Some A)) \<and>
        (\<forall>ts. get_case_crime_types s1 c ts \<longleftrightarrow> ts = Inr [A, B]) \<and>
        set_case_crime_types s1 c [B, A] = Inr s2 \<and>
        filter (\<lambda>r. cct_case_id r = c) (case_crime_types s2) =
          [\<lparr>cct_id = j1, cct_case_id = c, cct_crime_type = B, cct_sort_order = 0\<rparr>,
           \<lparr>cct_id = j2, cct_case_id = c, cct_crime_type = A, cct_sort_order = 1\<rparr>] \<and>
        (\<forall>r. get_primary_crime_type s2 c r \<longleftrightarrow> r = Inr (Some B)) \<and>
        (\<forall>ts. get_case_crime_types s2 c ts \<longleftrightarrow> ts = Inr [B, A]) \<and>
        filter (\<lambda>r. cct_case_id r \<noteq> c) (case_crime_types s2) =
          filter (\<lambda>r. cct_case_id r \<noteq> c) (case_crime_types s))"
proof
  assume a: "schema_current s \<and> sqlite_int c \<and> c \<in> case_ids s \<and> A \<noteq> B"
  then have sc: "schema_current s" and ic: "sqlite_int c"
    and c: "c \<in> case_ids s" and ab: "A \<noteq> B" by simp_all
  let ?rest = "filter (\<lambda>r. cct_case_id r \<noteq> c) (case_crime_types s)"
  from set_case_crime_types_two [OF sc ic c ab] obtain i1 i2 where
    s1: "set_case_crime_types s c [A, B] =
     Inr (s\<lparr>case_crime_types := ?rest @
       [\<lparr>cct_id = i1, cct_case_id = c, cct_crime_type = A, cct_sort_order = 0\<rparr>,
        \<lparr>cct_id = i2, cct_case_id = c, cct_crime_type = B, cct_sort_order = 1\<rparr>]\<rparr>)"
    by blast
  define s1 where "s1 = s\<lparr>case_crime_types := ?rest @
       [\<lparr>cct_id = i1, cct_case_id = c, cct_crime_type = A, cct_sort_order = 0\<rparr>,
        \<lparr>cct_id = i2, cct_case_id = c, cct_crime_type = B, cct_sort_order = 1\<rparr>]\<rparr>"
  have c1: "c \<in> case_ids s1" using c by (simp add: s1_def case_ids_def)
  have sc1: "schema_current s1" using sc by (simp add: s1_def schema_current_def)
  have ba: "B \<noteq> A" using ab by simp
  have rest1: "filter (\<lambda>r. cct_case_id r \<noteq> c) (case_crime_types s1) = ?rest"
    by (simp add: s1_def)
  have f1: "filter (\<lambda>r. cct_case_id r = c) (case_crime_types s1) =
          [\<lparr>cct_id = i1, cct_case_id = c, cct_crime_type = A, cct_sort_order = 0\<rparr>,
           \<lparr>cct_id = i2, cct_case_id = c, cct_crime_type = B, cct_sort_order = 1\<rparr>]"
    by (simp add: s1_def filter_eq_filter_neq)
  from set_case_crime_types_two [OF sc1 ic c1 ba] obtain j1 j2 where
    s2: "set_case_crime_types s1 c [B, A] =
     Inr (s1\<lparr>case_crime_types := ?rest @
       [\<lparr>cct_id = j1, cct_case_id = c, cct_crime_type = B, cct_sort_order = 0\<rparr>,
        \<lparr>cct_id = j2, cct_case_id = c, cct_crime_type = A, cct_sort_order = 1\<rparr>]\<rparr>)"
    unfolding rest1 by blast
  define s2 where "s2 = s1\<lparr>case_crime_types := ?rest @
       [\<lparr>cct_id = j1, cct_case_id = c, cct_crime_type = B, cct_sort_order = 0\<rparr>,
        \<lparr>cct_id = j2, cct_case_id = c, cct_crime_type = A, cct_sort_order = 1\<rparr>]\<rparr>"
  have sc2: "schema_current s2" using sc1 by (simp add: s2_def schema_current_def)
  have f2: "filter (\<lambda>r. cct_case_id r = c) (case_crime_types s2) =
          [\<lparr>cct_id = j1, cct_case_id = c, cct_crime_type = B, cct_sort_order = 0\<rparr>,
           \<lparr>cct_id = j2, cct_case_id = c, cct_crime_type = A, cct_sort_order = 1\<rparr>]"
    by (simp add: s2_def filter_eq_filter_neq)
  have rest2: "filter (\<lambda>r. cct_case_id r \<noteq> c) (case_crime_types s2) = ?rest"
    by (simp add: s2_def)
  have q1: "(\<forall>r. get_primary_crime_type s1 c r \<longleftrightarrow> r = Inr (Some A)) \<and>
            (\<forall>ts. get_case_crime_types s1 c ts \<longleftrightarrow> ts = Inr [A, B])"
    using crime_type_queries [OF sc1 ic f1] by blast
  have q2: "(\<forall>r. get_primary_crime_type s2 c r \<longleftrightarrow> r = Inr (Some B)) \<and>
            (\<forall>ts. get_case_crime_types s2 c ts \<longleftrightarrow> ts = Inr [B, A])"
    using crime_type_queries [OF sc2 ic f2] by blast
  from s1 have e1: "set_case_crime_types s c [A, B] = Inr s1" by (simp add: s1_def)
  from s2 have e2: "set_case_crime_types s1 c [B, A] = Inr s2" by (simp add: s2_def)
  from q1 have q1a: "\<forall>r. get_primary_crime_type s1 c r \<longleftrightarrow> r = Inr (Some A)"
    and q1b: "\<forall>ts. get_case_crime_types s1 c ts \<longleftrightarrow> ts = Inr [A, B]" by simp_all
  from q2 have q2a: "\<forall>r. get_primary_crime_type s2 c r \<longleftrightarrow> r = Inr (Some B)"
    and q2b: "\<forall>ts. get_case_crime_types s2 c ts \<longleftrightarrow> ts = Inr [B, A]" by simp_all
  from e1 f1 q1a q1b e2 f2 q2a q2b rest2
  show "\<exists>s1 s2 i1 i2 j1 j2.
        set_case_crime_types s c [A, B] = Inr s1 \<and>
        filter (\<lambda>r. cct_case_id r = c) (case_crime_types s1) =
          [\<lparr>cct_id = i1, cct_case_id = c, cct_crime_type = A, cct_sort_order = 0\<rparr>,
           \<lparr>cct_id = i2, cct_case_id = c, cct_crime_type = B, cct_sort_order = 1\<rparr>] \<and>
        (\<forall>r. get_primary_crime_type s1 c r \<longleftrightarrow> r = Inr (Some A)) \<and>
        (\<forall>ts. get_case_crime_types s1 c ts \<longleftrightarrow> ts = Inr [A, B]) \<and>
        set_case_crime_types s1 c [B, A] = Inr s2 \<and>
        filter (\<lambda>r. cct_case_id r = c) (case_crime_types s2) =
          [\<lparr>cct_id = j1, cct_case_id = c, cct_crime_type = B, cct_sort_order = 0\<rparr>,
           \<lparr>cct_id = j2, cct_case_id = c, cct_crime_type = A, cct_sort_order = 1\<rparr>] \<and>
        (\<forall>r. get_primary_crime_type s2 c r \<longleftrightarrow> r = Inr (Some B)) \<and>
        (\<forall>ts. get_case_crime_types s2 c ts \<longleftrightarrow> ts = Inr [B, A]) \<and>
        filter (\<lambda>r. cct_case_id r \<noteq> c) (case_crime_types s2) =
          filter (\<lambda>r. cct_case_id r \<noteq> c) (case_crime_types s)"
    by (intro exI [of _ s1] exI [of _ s2] exI [of _ i1] exI [of _ i2] exI [of _ j1]
        exI [of _ j2] conjI)
qed

text \<open>The theorem at case 2 of the example store, which has one crime type before.\<close>

theorem set_case_crime_types_replaces_witness:
  "\<exists>s1 s2 i1 i2 j1 j2.
        set_case_crime_types example_store 2 [''Arson'', ''Fraud''] = Inr s1 \<and>
        filter (\<lambda>r. cct_case_id r = 2) (case_crime_types s1) =
          [\<lparr>cct_id = i1, cct_case_id = 2, cct_crime_type = ''Arson'', cct_sort_order = 0\<rparr>,
           \<lparr>cct_id = i2, cct_case_id = 2, cct_crime_type = ''Fraud'', cct_sort_order = 1\<rparr>] \<and>
        (\<forall>r. get_primary_crime_type s1 2 r \<longleftrightarrow> r = Inr (Some ''Arson'')) \<and>
        (\<forall>ts. get_case_crime_types s1 2 ts \<longleftrightarrow> ts = Inr [''Arson'', ''Fraud'']) \<and>
        set_case_crime_types s1 2 [''Fraud'', ''Arson''] = Inr s2 \<and>
        filter (\<lambda>r. cct_case_id r = 2) (case_crime_types s2) =
          [\<lparr>cct_id = j1, cct_case_id = 2, cct_crime_type = ''Fraud'', cct_sort_order = 0\<rparr>,
           \<lparr>cct_id = j2, cct_case_id = 2, cct_crime_type = ''Arson'', cct_sort_order = 1\<rparr>] \<and>
        (\<forall>r. get_primary_crime_type s2 2 r \<longleftrightarrow> r = Inr (Some ''Fraud'')) \<and>
        (\<forall>ts. get_case_crime_types s2 2 ts \<longleftrightarrow> ts = Inr [''Fraud'', ''Arson'']) \<and>
        filter (\<lambda>r. cct_case_id r \<noteq> 2) (case_crime_types s2) =
          filter (\<lambda>r. cct_case_id r \<noteq> 2) (case_crime_types example_store)"
proof -
  have hyp: "schema_current example_store \<and> sqlite_int 2 \<and> 2 \<in> case_ids example_store \<and>
      ''Arson'' \<noteq> ''Fraud''"
    by (simp add: fixture_defs schema_current_def sqlite_int_def)
  from set_case_crime_types_replaces [of example_store 2 "''Arson''" "''Fraud''"] hyp
  show ?thesis by (rule mp)
qed

section \<open>Linking a suspect to a case twice\<close>

text \<open>
  Claim C5. On a store with the current schema and for signed 64-bit ids:
  \<^verbatim>\<open>link_suspect_to_case\<close> raises the UNIQUE constraint error, which is not the
  error of a missing suspect or case, exactly when a link with the same suspect, case
  and connection type is in the table (a call that raises leaves the store as it was).
  After a call that succeeded, the same call again raises it; and a call for the same
  suspect and case with another connection type, one not yet in the table, succeeds
  with a new id, so that the table then ends with the two rows of the pair.
\<close>

theorem link_suspect_to_case_unique:
  "schema_current s \<and> sqlite_int u \<and> sqlite_int c \<longrightarrow>
   (link_suspect_to_case s now u c t notes = Inl Unique_constraint \<longleftrightarrow>
      (u, c, t) \<in> (\<lambda>r. (scl_suspect_id r, scl_case_id r, scl_connection_type r)) `
         set (suspect_case_links s)) \<and>
   (link_suspect_to_case s now u c t notes = Inr (i, s1) \<longrightarrow>
      link_suspect_to_case s1 now2 u c t notes2 = Inl Unique_constraint) \<and>
   (link_suspect_to_case s now u c t notes = Inr (i, s1) \<and> t' \<noteq> t \<and>
    (u, c, t') \<notin> (\<lambda>r. (scl_suspect_id r, scl_case_id r, scl_connection_type r)) `
         set (suspect_case_links s) \<longrightarrow>
      (\<exists>j s2. link_suspect_to_case s1 now2 u c t' notes2 = Inr (j, s2) \<and> j \<noteq> i \<and>
         suspect_case_links s2 = suspect_case_links s @
           [\<lparr>scl_id = i, scl_suspect_id = u, scl_case_id = c, scl_connection_type = t,
             scl_notes = or_none notes, scl_created_at = now\<rparr>,
            \<lparr>scl_id = j, scl_suspect_id = u, scl_case_id = c, scl_connection_type = t',
             scl_notes = or_none notes2, scl_created_at = now2\<rparr>]))"
proof (intro conjI impI)
  show "link_suspect_to_case s now u c t notes = Inl Unique_constraint \<longleftrightarrow>
      (u, c, t) \<in> (\<lambda>r. (scl_suspect_id r, scl_case_id r, scl_connection_type r)) `
         set (suspect_case_links s)"
    by (simp add: link_suspect_to_case_def Let_def)
next
  assume "link_suspect_to_case s now u c t notes = Inr (i, s1)"
  then show "link_suspect_to_case s1 now2 u c t notes2 = Inl Unique_constraint"
    by (auto simp: link_suspect_to_case_def Let_def split: if_splits)
next
  assume a: "link_suspect_to_case s now u c t notes = Inr (i, s1) \<and> t' \<noteq> t \<and>
    (u, c, t') \<notin> (\<lambda>r. (scl_suspect_id r, scl_case_id r, scl_connection_type r)) `
         set (suspect_case_links s)"
  let ?row = "\<lparr>scl_id = i, scl_suspect_id = u, scl_case_id = c, scl_connection_type = t,
             scl_notes = or_none notes, scl_created_at = now\<rparr>"
  from a have s1: "s1 = s\<lparr>suspect_case_links := suspect_case_links s @ [?row]\<rparr>"
    and u: "u \<in> suspect_ids s" and c: "c \<in> case_ids s"
    by (auto simp: link_suspect_to_case_def Let_def split: if_splits)
  from a have t: "t' \<noteq> t" and absent:
    "(u, c, t') \<notin> (\<lambda>r. (scl_suspect_id r, scl_case_id r, scl_connection_type r)) `
         set (suspect_case_links s)" by simp_all
  define j where "j = next_rowid (map scl_id (suspect_case_links s1))"
  have "j \<notin> scl_id ` set (suspect_case_links s1)"
    unfolding j_def by (rule next_rowid_fresh)
  then have ji: "j \<noteq> i" by (auto simp: s1)
  have "link_suspect_to_case s1 now2 u c t' notes2 =
     Inr (j, s1\<lparr>suspect_case_links := suspect_case_links s1 @
       [\<lparr>scl_id = j, scl_suspect_id = u, scl_case_id = c, scl_connection_type = t',
             scl_notes = or_none notes2, scl_created_at = now2\<rparr>]\<rparr>)"
    using u c t absent
    by (simp add: link_suspect_to_case_def Let_def j_def s1 suspect_ids_def case_ids_def)
  with ji
  show "\<exists>j s2. link_suspect_to_case s1 now2 u c t' notes2 = Inr (j, s2) \<and> j \<noteq> i \<and>
         suspect_case_links s2 = suspect_case_links s @
           [?row,
            \<lparr>scl_id = j, scl_suspect_id = u, scl_case_id = c, scl_connection_type = t',
             scl_notes = or_none notes2, scl_created_at = now2\<rparr>]"
    by (simp add: s1)
qed

text \<open>
  The theorem at the example stores: the link of suspect 1 to case 2 as ``Suspect'' is
  in the first; in the second it is made, the repeat raises, and ``Known Associate''
  gives the second row.
\<close>

theorem link_suspect_to_case_unique_witness:
  "link_suspect_to_case example_store ''2024-03-02 08:00:00'' 1 2 ''Suspect'' ''seen nearby'' =
     Inl Unique_constraint \<and>
   link_suspect_to_case two_cases ''2024-03-02 08:00:00'' 1 2 ''Suspect'' ''seen nearby'' =
     Inr (1, (two_cases\<lparr>suspect_case_links :=
       [\<lparr>scl_id = 1, scl_suspect_id = 1, scl_case_id = 2, scl_connection_type = ''Suspect'',
         scl_notes = Some ''seen nearby'', scl_created_at = ''2024-03-02 08:00:00''\<rparr>]\<rparr>)) \<and>
   link_suspect_to_case (two_cases\<lparr>suspect_case_links :=
       [\<lparr>scl_id = 1, scl_suspect_id = 1, scl_case_id = 2, scl_connection_type = ''Suspect'',
         scl_notes = Some ''seen nearby'', scl_created_at = ''2024-03-02 08:00:00''\<rparr>]\<rparr>)
     ''2024-03-02 08:01:00'' 1 2 ''Suspect'' [] = Inl Unique_constraint \<and>
   (\<exists>j s2. link_suspect_to_case (two_cases\<lparr>suspect_case_links :=
       [\<lparr>scl_id = 1, scl_suspect_id = 1, scl_case_id = 2, scl_connection_type = ''Suspect'',
         scl_notes = Some ''seen nearby'', scl_created_at = ''2024-03-02 08:00:00''\<rparr>]\<rparr>)
        ''2024-03-02 08:01:00'' 1 2 ''Known Associate'' [] = Inr (j, s2) \<and>
      map scl_connection_type (suspect_case_links s2) = [''Suspect'', ''Known Associate''])"
proof -
  have first: "link_suspect_to_case two_cases ''2024-03-02 08:00:00'' 1 2 ''Suspect'' ''seen nearby'' =
     Inr (1, (two_cases\<lparr>suspect_case_links :=
       [\<lparr>scl_id = 1, scl_suspect_id = 1, scl_case_id = 2, scl_connection_type = ''Suspect'',
         scl_notes = Some ''seen nearby'', scl_created_at = ''2024-03-02 08:00:00''\<rparr>]\<rparr>))"
    by (simp add: link_suspect_to_case_def fixture_defs next_rowid_def or_none_def)
  have empty: "suspect_case_links two_cases = []" by (simp add: two_cases_def)
  have dup: "link_suspect_to_case example_store ''2024-03-02 08:00:00'' 1 2 ''Suspect''
      ''seen nearby'' = Inl Unique_constraint"
    using link_suspect_to_case_unique [of example_store 1 2 "''2024-03-02 08:00:00''"
        "''Suspect''" "''seen nearby''"]
    by (simp add: fixture_defs schema_current_def sqlite_int_def)
  have hyp: "schema_current two_cases \<and> sqlite_int 1 \<and> sqlite_int 2"
    by (simp add: two_cases_def schema_current_def sqlite_int_def)
  from first empty hyp
    link_suspect_to_case_unique [of two_cases 1 2 "''2024-03-02 08:00:00''"
        "''Suspect''" "''seen nearby''" 1
        "(two_cases\<lparr>suspect_case_links :=
       [\<lparr>scl_id = 1, scl_suspect_id = 1, scl_case_id = 2, scl_connection_type = ''Suspect'',
         scl_notes = Some ''seen nearby'', scl_created_at = ''2024-03-02 08:00:00''\<rparr>]\<rparr>)"
        "''2024-03-02 08:01:00''" "[]" "''Known Associate''"]
  have "link_suspect_to_case (two_cases\<lparr>suspect_case_links :=
       [\<lparr>scl_id = 1, scl_suspect_id = 1, scl_case_id = 2, scl_connection_type = ''Suspect'',
         scl_notes = Some ''seen nearby'', scl_created_at = ''2024-03-02 08:00:00''\<rparr>]\<rparr>)
        ''2024-03-02 08:01:00'' 1 2 ''Suspect'' [] = Inl Unique_constraint \<and>
      (\<exists>j s2. link_suspect_to_case (two_cases\<lparr>suspect_case_links :=
       [\<lparr>scl_id = 1, scl_suspect_id = 1, scl_case_id = 2, scl_connection_type = ''Suspect'',
         scl_notes = Some ''seen nearby'', scl_created_at = ''2024-03-02 08:00:00''\<rparr>]\<rparr>)
          ''2024-03-02 08:01:00'' 1 2 ''Known Associate'' [] = Inr (j, s2) \<and>
        map scl_connection_type (suspect_case_links s2) = [''Suspect'', ''Known Associate''])"
    by auto
  with first dup show ?thesis by simp
qed

section \<open>Assigning a case to a project twice\<close>

text \<open>
  Claim C7. On a store with the current schema and for signed 64-bit ids:
  \<^verbatim>\<open>assign_case_to_project\<close> on a membership that exists returns without error
  and the store is unchanged. For a project and a case that exist, the first call
  succeeds, a second call on its result succeeds and changes nothing, any number of
  calls one after the other succeed and give the store of the first call, and when
  the memberships of the store were unique (as UNIQUE(project_id, case_id) keeps them)
  that store has exactly one membership row for the project and the case.
\<close>

theorem assign_case_to_project_idempotent:
  "schema_current s \<and> sqlite_int p \<and> sqlite_int c \<longrightarrow>
   ((p, c) \<in> (\<lambda>r. (pc_project_id r, pc_case_id r)) ` set (project_cases s) \<longrightarrow>
      assign_case_to_project s now p c = Inr s) \<and>
   (p \<in> project_ids s \<and> c \<in> case_ids s \<longrightarrow>
      (\<exists>s1. assign_case_to_project s now p c = Inr s1 \<and>
            assign_case_to_project s1 now2 p c = Inr s1 \<and>
            assign_repeatedly s (now # nows) p c = Inr s1 \<and>
            (distinct (map (\<lambda>r. (pc_project_id r, pc_case_id r)) (project_cases s)) \<longrightarrow>
               length (filter (\<lambda>r. pc_project_id r = p \<and> pc_case_id r = c) (project_cases s1))
                 = 1)))"
proof (intro conjI impI)
  assume "schema_current s \<and> sqlite_int p \<and> sqlite_int c"
    and "(p, c) \<in> (\<lambda>r. (pc_project_id r, pc_case_id r)) ` set (project_cases s)"
  then show "assign_case_to_project s now p c = Inr s" by (simp add: assign_existing)
next
  assume h: "schema_current s \<and> sqlite_int p \<and> sqlite_int c"
    and "p \<in> project_ids s \<and> c \<in> case_ids s"
  then have p: "p \<in> project_ids s" and c: "c \<in> case_ids s" by simp_all
  from h have sc: "schema_current s" and ip: "sqlite_int p" and ic: "sqlite_int c" by simp_all
  from assign_first [OF sc ip ic p c, of now] obtain s1 where
    s1: "assign_case_to_project s now p c = Inr s1" and
    sc1: "schema_current s1" and
    mem: "(p, c) \<in> (\<lambda>r. (pc_project_id r, pc_case_id r)) ` set (project_cases s1)" and
    dist: "distinct (map (\<lambda>r. (pc_project_id r, pc_case_id r)) (project_cases s)) \<longrightarrow>
      distinct (map (\<lambda>r. (pc_project_id r, pc_case_id r)) (project_cases s1))"
    by blast
  have again: "assign_case_to_project s1 now2 p c = Inr s1"
    using sc1 ip ic mem by (rule assign_existing)
  have rep: "assign_repeatedly s (now # nows) p c = Inr s1"
    using s1 assign_repeatedly_existing [OF sc1 ip ic mem, of nows] by simp
  have one: "distinct (map (\<lambda>r. (pc_project_id r, pc_case_id r)) (project_cases s)) \<longrightarrow>
      length (filter (\<lambda>r. pc_project_id r = p \<and> pc_case_id r = c) (project_cases s1)) = 1"
  proof
    assume "distinct (map (\<lambda>r. (pc_project_id r, pc_case_id r)) (project_cases s))"
    with dist have "distinct (map (\<lambda>r. (pc_project_id r, pc_case_id r)) (project_cases s1))" by simp
    from distinct_filter_one [OF this mem]
    show "length (filter (\<lambda>r. pc_project_id r = p \<and> pc_case_id r = c) (project_cases s1)) = 1"
      unfolding pair_filter .
  qed
  from s1 again rep one
  show "\<exists>s1. assign_case_to_project s now p c = Inr s1 \<and>
            assign_case_to_project s1 now2 p c = Inr s1 \<and>
            assign_repeatedly s (now # nows) p c = Inr s1 \<and>
            (distinct (map (\<lambda>r. (pc_project_id r, pc_case_id r)) (project_cases s)) \<longrightarrow>
               length (filter (\<lambda>r. pc_project_id r = p \<and> pc_case_id r = c) (project_cases s1))
                 = 1)"
    by blast
qed

text \<open>
  The theorem at the example stores: case 2 is in project 1 in the first; case 5 is
  assigned to project 1 three times in the second.
\<close>

theorem assign_case_to_project_idempotent_witness:
  "assign_case_to_project example_store ''2024-03-02 08:00:00'' 1 2 = Inr example_store \<and>
   (\<exists>s1. assign_case_to_project two_cases ''2024-03-02 08:00:00'' 1 5 = Inr s1 \<and>
         assign_case_to_project s1 ''2024-03-02 08:01:00'' 1 5 = Inr s1 \<and>
         assign_repeatedly two_cases
           [''2024-03-02 08:00:00'', ''2024-03-02 08:01:00'', ''2024-03-02 08:02:00''] 1 5 = Inr s1 \<and>
         length (filter (\<lambda>r. pc_project_id r = 1 \<and> pc_case_id r = 5) (project_cases s1)) = 1)"
  using assign_case_to_project_idempotent [of example_store 1 2 "''2024-03-02 08:00:00''"
      "''2024-03-02 08:01:00''" "[]"]
    assign_case_to_project_idempotent [of two_cases 1 5 "''2024-03-02 08:00:00''"
      "''2024-03-02 08:01:00''" "[''2024-03-02 08:01:00'', ''2024-03-02 08:02:00'']"]
  by (simp add: fixture_defs schema_current_def sqlite_int_def)

section \<open>The list of cases\<close>




section \<open>A case is not linked to itself\<close>

text \<open>
  Claim C6. \<^verbatim>\<open>link_cases(c, c, note)\<close> fails for every case id \<open>c\<close>; on a store
  with the current schema and for a signed 64-bit \<open>c\<close> the error is that of
  CHECK(case_id_1 < case_id_2). A call that succeeds appends one row, with the smaller
  of its two ids first and the larger second, whatever the order of the arguments. And
  every row of \<^verbatim>\<open>case_links\<close> has its two case ids in strictly ascending order:
  in every store the application reaches, and after any operation on a store of the
  current schema where it held before.
\<close>

theorem link_cases_canonical:
  "(\<exists>e. link_cases s now c c sn = Inl e) \<and>
   (schema_current s \<and> sqlite_int c \<longrightarrow> link_cases s now c c sn = Inl Check_constraint) \<and>
   (link_cases s now a b sn = Inr (i, s1) \<longrightarrow>
      case_links s1 = case_links s @
        [\<lparr>cl_id = i, cl_case_id_1 = min a b, cl_case_id_2 = max a b,
          cl_similarity_note = sn, cl_created_at = now\<rparr>] \<and>
      min a b < max a b) \<and>
   (reachable s \<longrightarrow> case_links_canonical s) \<and>
   (schema_current s \<and> case_links_canonical s \<and> exec oper s = Inr s2 \<longrightarrow>
      case_links_canonical s2)"
proof (intro conjI impI)
  show "\<exists>e. link_cases s now c c sn = Inl e" by (simp add: link_cases_def)
next
  show "link_cases s now c c sn = Inl Check_constraint" by (simp add: link_cases_def)
next
  assume "link_cases s now a b sn = Inr (i, s1)"
  then show "case_links s1 = case_links s @
        [\<lparr>cl_id = i, cl_case_id_1 = min a b, cl_case_id_2 = max a b,
          cl_similarity_note = sn, cl_created_at = now\<rparr>]"
    by (auto simp: link_cases_def Let_def split: if_splits)
next
  assume "link_cases s now a b sn = Inr (i, s1)"
  then show "min a b < max a b"
    by (auto simp: link_cases_def Let_def split: if_splits)
next
  assume "reachable s"
  then show "case_links_canonical s" by (simp add: reachable_invariant)
next
  assume "schema_current s \<and> case_links_canonical s \<and> exec oper s = Inr s2"
  then show "case_links_canonical s2" by (auto intro: canonical_exec)
qed

text \<open>
  The theorem at the example stores: the self-link of 7, the link of 5 and 2 stored as
  (2, 5), the new file, and an operation on the example store.
\<close>

theorem link_cases_canonical_witness:
  "link_cases example_store ''2024-03-03 09:00:00'' 7 7 ''x'' = Inl Check_constraint \<and>
   (\<exists>i s1. link_cases two_cases ''2024-03-03 09:00:00'' 5 2 ''same lock'' = Inr (i, s1) \<and>
      map (\<lambda>r. (cl_case_id_1 r, cl_case_id_2 r)) (case_links s1) = [(2, 5)]) \<and>
   case_links_canonical (init_db empty_store) \<and>
   case_links_canonical example_store \<and>
   (\<exists>s2. exec (Link_cases ''2024-03-03 09:00:00'' 5 2 ''same lock'') example_store = Inr s2 \<and>
      case_links_canonical s2)"
proof -
  have hyp: "schema_current example_store \<and> sqlite_int 7"
    by (simp add: fixture_defs schema_current_def sqlite_int_def)
  from link_cases_canonical [of example_store "''2024-03-03 09:00:00''" 7 "''x''"] hyp
  have self: "link_cases example_store ''2024-03-03 09:00:00'' 7 7 ''x'' = Inl Check_constraint"
    by simp
  have first: "link_cases two_cases ''2024-03-03 09:00:00'' 5 2 ''same lock'' =
      Inr (1, two_cases\<lparr>case_links :=
       [\<lparr>cl_id = 1, cl_case_id_1 = 2, cl_case_id_2 = 5, cl_similarity_note = ''same lock'',
         cl_created_at = ''2024-03-03 09:00:00''\<rparr>]\<rparr>)"
    by (simp add: link_cases_def fixture_defs next_rowid_def)
  from link_cases_canonical [of two_cases "''2024-03-03 09:00:00''" 0 "''same lock''" 5 2 1
      "two_cases\<lparr>case_links :=
       [\<lparr>cl_id = 1, cl_case_id_1 = 2, cl_case_id_2 = 5, cl_similarity_note = ''same lock'',
         cl_created_at = ''2024-03-03 09:00:00''\<rparr>]\<rparr>"] first
  have row: "\<exists>i s1. link_cases two_cases ''2024-03-03 09:00:00'' 5 2 ''same lock'' = Inr (i, s1) \<and>
      map (\<lambda>r. (cl_case_id_1 r, cl_case_id_2 r)) (case_links s1) = [(2, 5)]"
    by (simp add: two_cases_def)
  from link_cases_canonical [of "init_db empty_store"] reachable.fresh
  have fresh: "case_links_canonical (init_db empty_store)" by simp
  have can: "case_links_canonical example_store"
    by (simp add: case_links_canonical_def fixture_defs)
  have ex: "exec (Link_cases ''2024-03-03 09:00:00'' 5 2 ''same lock'') example_store =
      Inr (example_store\<lparr>case_links := case_links example_store @
       [\<lparr>cl_id = 2, cl_case_id_1 = 2, cl_case_id_2 = 5, cl_similarity_note = ''same lock'',
         cl_created_at = ''2024-03-03 09:00:00''\<rparr>]\<rparr>)"
    by (simp add: link_cases_def fixture_defs next_rowid_def)
  from link_cases_canonical [of example_store _ _ _ _ _ _ _
      "Link_cases ''2024-03-03 09:00:00'' 5 2 ''same lock''"
      "example_store\<lparr>case_links := case_links example_store @
       [\<lparr>cl_id = 2, cl_case_id_1 = 2, cl_case_id_2 = 5, cl_similarity_note = ''same lock'',
         cl_created_at = ''2024-03-03 09:00:00''\<rparr>]\<rparr>"] hyp can ex
  have step: "\<exists>s2. exec (Link_cases ''2024-03-03 09:00:00'' 5 2 ''same lock'') example_store =
      Inr s2 \<and> case_links_canonical s2"
    by simp
  from self row fresh can step show ?thesis by (intro conjI)
qed

section \<open>Deleting a case\<close>

text \<open>
  Claim C2. On a store with the current schema, for a case \<open>c\<close> that exists (its id
  a signed 64-bit integer), \<^verbatim>\<open>delete_case(c)\<close> succeeds; afterwards \<open>c\<close> is
  not the id of a case and no row of any table references it: the rows of
  \<^verbatim>\<open>cases\<close>, \<^verbatim>\<open>case_crime_types\<close>, \<^verbatim>\<open>case_tags\<close>,
  \<^verbatim>\<open>suspect_case_links\<close>, \<^verbatim>\<open>case_links\<close> (in either position),
  \<^verbatim>\<open>timeline_events\<close> and \<^verbatim>\<open>project_cases\<close> are those that did not name
  \<open>c\<close>, and \<^verbatim>\<open>suspects\<close>, \<^verbatim>\<open>suspect_crime_history\<close> and
  \<^verbatim>\<open>projects\<close> are unchanged. And no association row references a missing parent:
  in every store the application reaches, and after any operation on a store of the
  current schema where it held before.
\<close>

theorem delete_case_cascades:
  "(schema_current s \<and> sqlite_int c \<and> c \<in> case_ids s \<longrightarrow>
      (\<exists>s1. delete_case s c = Inr s1 \<and> c \<notin> case_ids s1 \<and> \<not> case_referenced s1 c \<and>
         cases s1 = filter (\<lambda>r. c_id r \<noteq> c) (cases s) \<and>
         case_crime_types s1 = filter (\<lambda>r. cct_case_id r \<noteq> c) (case_crime_types s) \<and>
         case_tags s1 = filter (\<lambda>r. ct_case_id r \<noteq> c) (case_tags s) \<and>
         suspect_case_links s1 = filter (\<lambda>r. scl_case_id r \<noteq> c) (suspect_case_links s) \<and>
         case_links s1 =
           filter (\<lambda>r. cl_case_id_1 r \<noteq> c \<and> cl_case_id_2 r \<noteq> c) (case_links s) \<and>
         timeline_events s1 = filter (\<lambda>r. ev_case_id r \<noteq> c) (timeline_events s) \<and>
         project_cases s1 = filter (\<lambda>r. pc_case_id r \<noteq> c) (project_cases s) \<and>
         suspects s1 = suspects s \<and> suspect_crime_history s1 = suspect_crime_history s \<and>
         projects s1 = projects s)) \<and>
   (reachable s \<longrightarrow> fk_ok s) \<and>
   (schema_current s \<and> fk_ok s \<and> exec oper s = Inr s2 \<longrightarrow> fk_ok s2)"
proof (intro conjI impI)
  assume a: "schema_current s \<and> sqlite_int c \<and> c \<in> case_ids s"
  then have t: "''cases'' \<in> set (tables s)" by (simp add: schema_current_def all_tables_def)
  from a have r: "sqlite_int c" and c: "c \<in> case_ids s" by simp_all
  show "\<exists>s1. delete_case s c = Inr s1 \<and> c \<notin> case_ids s1 \<and> \<not> case_referenced s1 c \<and>
         cases s1 = filter (\<lambda>r. c_id r \<noteq> c) (cases s) \<and>
         case_crime_types s1 = filter (\<lambda>r. cct_case_id r \<noteq> c) (case_crime_types s) \<and>
         case_tags s1 = filter (\<lambda>r. ct_case_id r \<noteq> c) (case_tags s) \<and>
         suspect_case_links s1 = filter (\<lambda>r. scl_case_id r \<noteq> c) (suspect_case_links s) \<and>
         case_links s1 =
           filter (\<lambda>r. cl_case_id_1 r \<noteq> c \<and> cl_case_id_2 r \<noteq> c) (case_links s) \<and>
         timeline_events s1 = filter (\<lambda>r. ev_case_id r \<noteq> c) (timeline_events s) \<and>
         project_cases s1 = filter (\<lambda>r. pc_case_id r \<noteq> c) (project_cases s) \<and>
         suspects s1 = suspects s \<and> suspect_crime_history s1 = suspect_crime_history s \<and>
         projects s1 = projects s"
    unfolding delete_case_present [OF t r c]
    by (auto simp: case_ids_def case_referenced_def)
next
  assume "reachable s"
  then show "fk_ok s" by (simp add: reachable_invariant)
next
  assume "schema_current s \<and> fk_ok s \<and> exec oper s = Inr s2"
  then show "fk_ok s2" by (auto intro: fk_ok_exec)
qed

text \<open>
  The theorem at the example store, where case 2 has a row in every association table,
  and at the new file.
\<close>

theorem delete_case_cascades_witness:
  "(\<exists>s1. delete_case example_store 2 = Inr s1 \<and> 2 \<notin> case_ids s1 \<and>
      \<not> case_referenced s1 2 \<and> map c_id (cases s1) = [5] \<and>
      case_crime_types s1 = [] \<and> case_tags s1 = [] \<and> suspect_case_links s1 = [] \<and>
      case_links s1 = [] \<and> timeline_events s1 = [] \<and> project_cases s1 = [] \<and>
      suspects s1 = suspects example_store \<and>
      suspect_crime_history s1 = suspect_crime_history example_store \<and>
      projects s1 = projects example_store) \<and>
   fk_ok (init_db empty_store) \<and>
   fk_ok example_store \<and>
   (\<exists>s2. exec (Delete_case 2) example_store = Inr s2 \<and> fk_ok s2)"
proof -
  have hyp: "schema_current example_store \<and> sqlite_int 2 \<and> 2 \<in> case_ids example_store"
    by (simp add: fixture_defs schema_current_def sqlite_int_def)
  from delete_case_cascades [of example_store 2] hyp
  have "\<exists>s1. delete_case example_store 2 = Inr s1 \<and> 2 \<notin> case_ids s1 \<and>
         \<not> case_referenced s1 2 \<and>
         cases s1 = filter (\<lambda>r. c_id r \<noteq> 2) (cases example_store) \<and>
         case_crime_types s1 =
           filter (\<lambda>r. cct_case_id r \<noteq> 2) (case_crime_types example_store) \<and>
         case_tags s1 = filter (\<lambda>r. ct_case_id r \<noteq> 2) (case_tags example_store) \<and>
         suspect_case_links s1 =
           filter (\<lambda>r. scl_case_id r \<noteq> 2) (suspect_case_links example_store) \<and>
         case_links s1 =
           filter (\<lambda>r. cl_case_id_1 r \<noteq> 2 \<and> cl_case_id_2 r \<noteq> 2) (case_links example_store) \<and>
         timeline_events s1 =
           filter (\<lambda>r. ev_case_id r \<noteq> 2) (timeline_events example_store) \<and>
         project_cases s1 = filter (\<lambda>r. pc_case_id r \<noteq> 2) (project_cases example_store) \<and>
         suspects s1 = suspects example_store \<and>
         suspect_crime_history s1 = suspect_crime_history example_store \<and>
         projects s1 = projects example_store"
    by simp
  then obtain s1 where d: "delete_case example_store 2 = Inr s1"
    and gone: "2 \<notin> case_ids s1" "\<not> case_referenced s1 2"
    and rows: "cases s1 = filter (\<lambda>r. c_id r \<noteq> 2) (cases example_store)"
      "case_crime_types s1 =
           filter (\<lambda>r. cct_case_id r \<noteq> 2) (case_crime_types example_store)"
      "case_tags s1 = filter (\<lambda>r. ct_case_id r \<noteq> 2) (case_tags example_store)"
      "suspect_case_links s1 =
           filter (\<lambda>r. scl_case_id r \<noteq> 2) (suspect_case_links example_store)"
      "case_links s1 =
           filter (\<lambda>r. cl_case_id_1 r \<noteq> 2 \<and> cl_case_id_2 r \<noteq> 2) (case_links example_store)"
      "timeline_events s1 =
           filter (\<lambda>r. ev_case_id r \<noteq> 2) (timeline_events example_store)"
      "project_cases s1 = filter (\<lambda>r. pc_case_id r \<noteq> 2) (project_cases example_store)"
    and same: "suspects s1 = suspects example_store"
      "suspect_crime_history s1 = suspect_crime_history example_store"
      "projects s1 = projects example_store"
    by auto
  have empty: "map c_id (cases s1) = [5]" "case_crime_types s1 = []" "case_tags s1 = []"
    "suspect_case_links s1 = []" "case_links s1 = []" "timeline_events s1 = []"
    "project_cases s1 = []"
    unfolding rows by (simp_all add: example_store_def two_cases_def example_case_def)
  from d gone empty same
  have del: "\<exists>s1. delete_case example_store 2 = Inr s1 \<and> 2 \<notin> case_ids s1 \<and>
      \<not> case_referenced s1 2 \<and> map c_id (cases s1) = [5] \<and>
      case_crime_types s1 = [] \<and> case_tags s1 = [] \<and> suspect_case_links s1 = [] \<and>
      case_links s1 = [] \<and> timeline_events s1 = [] \<and> project_cases s1 = [] \<and>
      suspects s1 = suspects example_store \<and>
      suspect_crime_history s1 = suspect_crime_history example_store \<and>
      projects s1 = projects example_store"
    by (intro exI [of _ s1] conjI)
  from delete_case_cascades [of "init_db empty_store"] reachable.fresh
  have fresh: "fk_ok (init_db empty_store)" by simp
  have fk: "fk_ok example_store"
    by (simp add: fk_ok_def fixture_defs)
  from d have ex: "exec (Delete_case 2) example_store = Inr s1" by simp
  from delete_case_cascades [of example_store _ "Delete_case 2" s1] hyp fk ex
  have "fk_ok s1" by simp
  with ex have step: "\<exists>s2. exec (Delete_case 2) example_store = Inr s2 \<and> fk_ok s2" by blast
  from del fresh fk step show ?thesis by (intro conjI)
qed

end
